(* ===== verification/Prelude.thy ===== *)
theory Prelude
  imports Main "HOL-Library.Word" "HOL-Library.Signed_Division" "HOL-Library.Finite_Map"
    "HOL-Library.Sublist" "HOL-Library.Char_ord" "HOL-Library.List_Lexorder"
begin

text \<open>
  What every component shares: Go's error values, the result type of a fallible function,
  the association-free maps, and the generic lemmas on lists and finite maps.

  A Go function that returns a value and an error is modelled by the sum type
  \<open>go_error + 'a\<close> (\<open>Inl\<close> for the error). An error keeps the format string the source
  passes to \<open>fmt.Errorf\<close>, so the theory can be read against the code, and it keeps how the
  source wraps: \<open>%w\<close> leaves the inner error visible to \<open>errors.Is\<close>, \<open>%v\<close> does not.
\<close>

section \<open>Errors\<close>

datatype go_error =
    Errorf string "string list"           \<comment> \<open>a format string and its arguments\<close>
  | ErrWrap string "string list" go_error   \<comment> \<open>the inner error under \<open>%w\<close>\<close>
  | ErrText string "string list" go_error   \<comment> \<open>the inner error under \<open>%v\<close>: only its text\<close>
  | ErrNoTPUDetected                      \<comment> \<open>the sentinel \<open>errNoTPUDetected\<close> of util.go\<close>
  | ErrCheckpointNotFound                 \<comment> \<open>the sentinel of the checkpoint manager\<close>
  | ErrCorruptCheckpoint
  | ErrIO string                          \<comment> \<open>an error of the operating system\<close>
  | Panic string                          \<comment> \<open>the goroutine panics\<close>

type_synonym 'a result = "go_error + 'a"

fun errors_Is :: "go_error \<Rightarrow> go_error \<Rightarrow> bool" where
  "errors_Is (ErrWrap f as e) t \<longleftrightarrow> ErrWrap f as e = t \<or> errors_Is e t"
| "errors_Is e t \<longleftrightarrow> e = t"

abbreviation is_ok :: "'a result \<Rightarrow> bool" where
  "is_ok r \<equiv> \<not> isl r"

named_theorems go_defs \<open>definitions of the Go standard library model\<close>
named_theorems result_simps \<open>rewriting of results\<close>

lemma is_ok_iff [result_simps]: "is_ok r \<longleftrightarrow> (\<exists>x. r = Inr x)"
  by (cases r) auto

lemma isl_case_sum [result_simps]:
  "isl (case r of Inl e \<Rightarrow> Inl (f e) | Inr x \<Rightarrow> g x) \<longleftrightarrow> isl r \<or> (\<exists>x. r = Inr x \<and> isl (g x))"
  by (cases r) auto

lemma case_sum_Inr_iff [result_simps]:
  "(case r of Inl e \<Rightarrow> Inl (f e) | Inr x \<Rightarrow> g x) = Inr y \<longleftrightarrow> (\<exists>x. r = Inr x \<and> g x = Inr y)"
  by (cases r) auto

text \<open>
  A panic is not an error a caller can wrap: it unwinds the goroutine, and the driver recovers
  from none.
\<close>

fun is_panic :: "go_error \<Rightarrow> bool" where
  "is_panic (Panic m) \<longleftrightarrow> True"
| "is_panic e \<longleftrightarrow> False"

definition unless_panic :: "(go_error \<Rightarrow> go_error) \<Rightarrow> go_error \<Rightarrow> go_error" where
  "unless_panic wrap_err e = (if is_panic e then e else wrap_err e)"

text \<open>\<open>x, err := r; if err != nil { return err }\<close>, and the same for each element of a slice.\<close>

fun rbind :: "'a result \<Rightarrow> ('a \<Rightarrow> 'b result) \<Rightarrow> 'b result" where
  "rbind (Inl e) f = Inl e"
| "rbind (Inr x) f = f x"

fun rtraverse :: "('a \<Rightarrow> 'b result) \<Rightarrow> 'a list \<Rightarrow> 'b list result" where
  "rtraverse f [] = Inr []"
| "rtraverse f (x # xs) = rbind (f x) (\<lambda>y. rbind (rtraverse f xs) (\<lambda>ys. Inr (y # ys)))"

lemma rtraverse_map: "(\<And>x. x \<in> set xs \<Longrightarrow> f (g x) = Inr (h x)) \<Longrightarrow> rtraverse f (map g xs) = Inr (map h xs)"
  by (induction xs) auto

section \<open>String maps\<close>

text \<open>A Go \<open>map[string]string\<close>; reading a missing key gives the zero value, the empty string.\<close>

type_synonym strmap = "string \<rightharpoonup> string"

definition get :: "strmap \<Rightarrow> string \<Rightarrow> string" where
  "get m k = (case m k of None \<Rightarrow> [] | Some v \<Rightarrow> v)"

lemma get_empty [simp]: "get Map.empty k = []"
  by (simp add: get_def)

lemma get_upd [simp]: "get (m(k \<mapsto> v)) k' = (if k' = k then v else get m k')"
  by (simp add: get_def)

lemma get_nonempty_dom: "get m k \<noteq> [] \<Longrightarrow> m k = Some (get m k)"
  by (auto simp: get_def split: option.splits)

section \<open>Lists\<close>

lemma takeWhile_append_stop:
  "list_all P xs \<Longrightarrow> (ys = [] \<or> \<not> P (hd ys)) \<Longrightarrow> takeWhile P (xs @ ys) = xs"
  by (induction xs) (auto split: list.splits, cases ys, auto)

lemma length3E:
  assumes "length xs = 3"
  obtains a b c where "xs = [a, b, c]"
  using assms by (auto simp: numeral_3_eq_3 length_Suc_conv)

end
