(* ===== verification/GoStrings.thy ===== *)
theory GoStrings
  imports Prelude
begin

text \<open>
  The functions of Go's \<open>strings\<close> package the driver calls, on strings as byte lists. The
  separators the driver splits on are single bytes. \<open>ToLower\<close> and \<open>TrimSpace\<close> are the ASCII
  case of Go's: bytes from 128 on are left alone.
\<close>

section \<open>Character classes\<close>

definition is_digit :: "char \<Rightarrow> bool" where
  "is_digit c \<longleftrightarrow> CHR ''0'' \<le> c \<and> c \<le> CHR ''9''"

definition is_lower :: "char \<Rightarrow> bool" where
  "is_lower c \<longleftrightarrow> CHR ''a'' \<le> c \<and> c \<le> CHR ''z''"

definition is_upper :: "char \<Rightarrow> bool" where
  "is_upper c \<longleftrightarrow> CHR ''A'' \<le> c \<and> c \<le> CHR ''Z''"

definition is_space :: "char \<Rightarrow> bool" where
  "is_space c \<longleftrightarrow> c \<in> {CHR '' '', CHR 0x09, CHR 0x0A, CHR 0x0B, CHR 0x0C, CHR 0x0D}"

lemma is_digit_of_char: "is_digit c \<longleftrightarrow> 48 \<le> (of_char c :: nat) \<and> (of_char c :: nat) \<le> 57"
  by (simp add: is_digit_def less_eq_char_def)

lemma is_lower_of_char: "is_lower c \<longleftrightarrow> 97 \<le> (of_char c :: nat) \<and> (of_char c :: nat) \<le> 122"
  by (simp add: is_lower_def less_eq_char_def)

lemma is_upper_of_char: "is_upper c \<longleftrightarrow> 65 \<le> (of_char c :: nat) \<and> (of_char c :: nat) \<le> 90"
  by (simp add: is_upper_def less_eq_char_def)

section \<open>Splitting and joining\<close>

text \<open>\<open>strings.Split(s, sep)\<close> for a one-byte separator: never empty.\<close>

fun split_on :: "char \<Rightarrow> string \<Rightarrow> string list" where
  "split_on c [] = [[]]"
| "split_on c (x # xs) =
     (if x = c then [] # split_on c xs
      else (case split_on c xs of [] \<Rightarrow> [[x]] | w # ws \<Rightarrow> (x # w) # ws))"

text \<open>\<open>strings.SplitN(s, sep, 2)\<close> for a one-byte separator.\<close>

definition split_first :: "char \<Rightarrow> string \<Rightarrow> string list" where
  "split_first c s =
     (let w = takeWhile (\<lambda>x. x \<noteq> c) s; rest = dropWhile (\<lambda>x. x \<noteq> c) s
      in case rest of [] \<Rightarrow> [w] | _ # t \<Rightarrow> [w, t])"

text \<open>\<open>strings.Join\<close>.\<close>

fun join :: "string \<Rightarrow> string list \<Rightarrow> string" where
  "join sep [] = []"
| "join sep [w] = w"
| "join sep (w # ws) = w @ sep @ join sep ws"

lemma split_on_nonempty [simp]: "split_on c s \<noteq> []"
  by (induction s) (auto split: list.splits)

lemma join_Cons: "ws \<noteq> [] \<Longrightarrow> join sep (w # ws) = w @ sep @ join sep ws"
  by (cases ws) auto

lemma split_on_absent: "c \<notin> set s \<Longrightarrow> split_on c s = [s]"
  by (induction s) auto

lemma split_on_append: "c \<notin> set u \<Longrightarrow> split_on c (u @ c # t) = u # split_on c t"
  by (induction u) auto

lemma join_split_on: "join [c] (split_on c s) = s"
proof (induction s)
  case Nil
  then show ?case by simp
next
  case (Cons x xs)
  obtain w ws where ws: "split_on c xs = w # ws"
    by (cases "split_on c xs") auto
  with Cons.IH show ?case by (cases ws) auto
qed

lemma split_on_join:
  "ws \<noteq> [] \<Longrightarrow> \<forall>w\<in>set ws. c \<notin> set w \<Longrightarrow> split_on c (join [c] ws) = ws"
  by (induction "[c]" ws rule: join.induct) (auto simp: split_on_absent split_on_append)

lemma split_on_parts: "w \<in> set (split_on c s) \<Longrightarrow> c \<notin> set w"
proof (induction s arbitrary: w)
  case Nil
  then show ?case by simp
next
  case (Cons x xs)
  obtain v vs where vs: "split_on c xs = v # vs"
    by (cases "split_on c xs") auto
  with Cons show ?case by (fastforce split: if_splits)
qed

section \<open>Prefixes, suffixes, containment\<close>

abbreviation HasPrefix :: "string \<Rightarrow> string \<Rightarrow> bool" where
  "HasPrefix s p \<equiv> prefix p s"

abbreviation HasSuffix :: "string \<Rightarrow> string \<Rightarrow> bool" where
  "HasSuffix s p \<equiv> suffix p s"

abbreviation Contains :: "string \<Rightarrow> string \<Rightarrow> bool" where
  "Contains s p \<equiv> sublist p s"

section \<open>Trimming and case\<close>

definition trim_by :: "(char \<Rightarrow> bool) \<Rightarrow> string \<Rightarrow> string" where
  "trim_by p s = rev (dropWhile p (rev (dropWhile p s)))"

definition TrimSpace :: "string \<Rightarrow> string" where
  "TrimSpace s = trim_by is_space s"

text \<open>\<open>strings.Trim(s, cutset)\<close>.\<close>

definition Trim :: "string \<Rightarrow> string \<Rightarrow> string" where
  "Trim s cutset = trim_by (\<lambda>c. c \<in> set cutset) s"

definition char_lower :: "char \<Rightarrow> char" where
  "char_lower c = (if is_upper c then char_of ((of_char c :: nat) + 32) else c)"

definition ToLower :: "string \<Rightarrow> string" where
  "ToLower s = map char_lower s"

text \<open>\<open>strings.EqualFold\<close> on ASCII strings.\<close>

definition EqualFold :: "string \<Rightarrow> string \<Rightarrow> bool" where
  "EqualFold s t \<longleftrightarrow> ToLower s = ToLower t"

lemma dropWhile_id: "s = [] \<or> \<not> p (hd s) \<Longrightarrow> dropWhile p s = s"
  by (cases s) auto

lemma trim_by_id: "s = [] \<or> (\<not> p (hd s) \<and> \<not> p (last s)) \<Longrightarrow> trim_by p s = s"
  by (cases "s = []") (auto simp: trim_by_def dropWhile_id hd_rev)

lemma trim_by_set: "set (trim_by p s) \<subseteq> set s"
  using set_dropWhileD [of _ p "rev (dropWhile p s)"] set_dropWhileD [of _ p s]
  by (auto simp: trim_by_def)

lemma trim_by_idem: "trim_by p (trim_by p s) = trim_by p s"
proof (rule trim_by_id)
  let ?t = "dropWhile p s"
  let ?r = "rev (dropWhile p (rev ?t))"
  have "\<not> p (hd ?r) \<and> \<not> p (last ?r)" if "?r \<noteq> []"
  proof -
    obtain zs where zs: "?t = ?r @ zs"
      by (metis rev_append rev_rev_ident takeWhile_dropWhile_id)
    with that have "hd ?r = hd ?t" "?t \<noteq> []" by (metis hd_append2, metis append_is_Nil_conv)
    moreover have "dropWhile p (rev ?t) \<noteq> []" using that by (metis rev.simps(1))
    ultimately show ?thesis using hd_dropWhile last_rev by metis
  qed
  then show "trim_by p s = [] \<or> \<not> p (hd (trim_by p s)) \<and> \<not> p (last (trim_by p s))"
    unfolding trim_by_def by blast
qed

lemma char_lower_not_upper [simp]: "\<not> is_upper (char_lower c)"
proof (cases "is_upper c")
  case True
  define n where "n = (of_char c :: nat)"
  from True have n: "65 \<le> n" "n \<le> 90" by (simp_all add: is_upper_of_char n_def)
  have "(of_char (char_of (n + 32)) :: nat) = n + 32"
    using n by simp
  with True n show ?thesis by (simp add: char_lower_def is_upper_of_char n_def)
qed (simp add: char_lower_def)

lemma char_lower_idem [simp]: "char_lower (char_lower c) = char_lower c"
  by (subst char_lower_def) simp

lemma ToLower_idem [simp]: "ToLower (ToLower s) = ToLower s"
  by (simp add: ToLower_def)

lemmas [go_defs] = split_first_def TrimSpace_def Trim_def trim_by_def ToLower_def
  char_lower_def EqualFold_def is_space_def is_digit_def is_lower_def is_upper_def

end
