(* ===== verification/GoNumbers.thy ===== *)
theory GoNumbers
  imports GoStrings
begin

text \<open>
  Go's 64-bit integers (\<open>int\<close> and \<open>int64\<close> on the platforms the driver is built for) as
  \<open>64 word\<close> read by \<open>sint\<close>, truncated division, and the two functions of \<open>strconv\<close> the
  driver calls: \<open>Atoi\<close> with its syntax and range errors, and \<open>Itoa\<close>/\<open>FormatInt\<close> in base 10.
\<close>

type_synonym i64 = "64 word"

abbreviation i64_of :: "int \<Rightarrow> i64" where
  "i64_of \<equiv> word_of_int"

text \<open>\<open>a / b\<close> on \<open>int64\<close> truncates towards zero.\<close>

definition quot64 :: "i64 \<Rightarrow> i64 \<Rightarrow> i64" where
  "quot64 a b = i64_of (sint a sdiv sint b)"

lemma sint_i64_of: "- (2 ^ 63) \<le> k \<Longrightarrow> k < 2 ^ 63 \<Longrightarrow> sint (i64_of k) = k"
  by (simp add: sint_sbintrunc' signed_take_bit_int_eq_self)

lemma sint_i64_lt: "sint (w :: i64) < 2 ^ 63"
  using sint_lt [of w] by simp

lemma sint_i64_ge: "- (2 ^ 63) \<le> sint (w :: i64)"
  using sint_ge [of w] by simp

lemma i64_of_sint [simp]: "i64_of (sint (w :: i64)) = w"
  by simp

lemma sint_eq_iff: "sint (a :: i64) = sint b \<longleftrightarrow> a = b"
  by (metis i64_of_sint)

lemma sint_quot64_pos:
  assumes "0 \<le> sint a" and "0 < sint b"
  shows "sint (quot64 a b) = sint a div sint b"
proof -
  have "sint a sdiv sint b = sint a div sint b"
    using assms by (cases "sint a = 0") (simp_all add: signed_divide_int_def)
  moreover have "0 \<le> sint a div sint b" "sint a div sint b \<le> sint a"
    using assms div_le_dividend [of "nat (sint a)" "nat (sint b)"]
    by (simp_all add: pos_imp_zdiv_nonneg_iff flip: nat_div_distrib)
  ultimately show ?thesis
    unfolding quot64_def using sint_i64_lt [of a] by (subst sint_i64_of) simp_all
qed

section \<open>Decimal digits\<close>

definition digit_val :: "char \<Rightarrow> nat" where
  "digit_val c = of_char c - 48"

definition digit_char :: "nat \<Rightarrow> char" where
  "digit_char d = char_of (48 + d)"

definition digits_val :: "string \<Rightarrow> nat" where
  "digits_val s = foldl (\<lambda>n c. 10 * n + digit_val c) 0 s"

fun nat_digits :: "nat \<Rightarrow> string" where
  "nat_digits n = (if n < 10 then [digit_char n] else nat_digits (n div 10) @ [digit_char (n mod 10)])"

declare nat_digits.simps [simp del]

lemma digit_char_of_char: "d < 10 \<Longrightarrow> (of_char (digit_char d) :: nat) = 48 + d"
  by (simp add: digit_char_def)

lemma digit_char_digit [simp]: "d < 10 \<Longrightarrow> is_digit (digit_char d)"
  by (simp add: is_digit_of_char digit_char_of_char)

lemma digit_val_char [simp]: "d < 10 \<Longrightarrow> digit_val (digit_char d) = d"
  by (simp add: digit_val_def digit_char_of_char)

lemma nat_digits_ne [simp]: "nat_digits n \<noteq> []"
  by (subst nat_digits.simps) simp

lemma nat_digits_all: "list_all is_digit (nat_digits n)"
  by (induction n rule: nat_digits.induct) (subst nat_digits.simps, simp)

lemma nat_digits_val [simp]: "digits_val (nat_digits n) = n"
proof (induction n rule: nat_digits.induct)
  case (1 n)
  show ?case
  proof (cases "n < 10")
    case True
    then show ?thesis by (subst nat_digits.simps) (simp add: digits_val_def)
  next
    case False
    with 1 show ?thesis by (subst nat_digits.simps) (simp add: digits_val_def)
  qed
qed

section \<open>strconv\<close>

text \<open>
  \<open>strconv.Atoi\<close>: an optional sign, then at least one decimal digit and nothing else
  (\<open>ErrSyntax\<close>); a value outside \<open>int64\<close> is \<open>ErrRange\<close>.
\<close>

definition Atoi :: "string \<Rightarrow> i64 result" where
  "Atoi s =
     (let neg = (case s of [] \<Rightarrow> False | c # _ \<Rightarrow> c = CHR ''-'');
          ds = (case s of [] \<Rightarrow> [] | c # t \<Rightarrow> if c = CHR ''-'' \<or> c = CHR ''+'' then t else s);
          v = (if neg then - int (digits_val ds) else int (digits_val ds))
      in if ds = [] \<or> \<not> list_all is_digit ds then Inl (Errorf ''strconv.Atoi: parsing %q: invalid syntax'' [s])
         else if v < - (2 ^ 63) \<or> 2 ^ 63 \<le> v then Inl (Errorf ''strconv.Atoi: parsing %q: value out of range'' [s])
         else Inr (i64_of v))"

text \<open>\<open>strconv.Itoa(n)\<close> and \<open>strconv.FormatInt(n, 10)\<close>.\<close>

definition Itoa :: "i64 \<Rightarrow> string" where
  "Itoa w = (if sint w < 0 then CHR ''-'' # nat_digits (nat (- sint w)) else nat_digits (nat (sint w)))"

lemma digit_not_sign: "is_digit c \<Longrightarrow> c \<noteq> CHR ''-'' \<and> c \<noteq> CHR ''+''"
  by (auto simp: is_digit_def less_eq_char_def)

lemma Atoi_digits:
  assumes "ds \<noteq> []" and "list_all is_digit ds"
  shows "Atoi ds = (if 2 ^ 63 \<le> int (digits_val ds)
     then Inl (Errorf ''strconv.Atoi: parsing %q: value out of range'' [ds])
     else Inr (i64_of (int (digits_val ds))))"
proof -
  obtain c t where ct: "ds = c # t" using assms(1) by (cases ds) auto
  with assms(2) have "c \<noteq> CHR ''-''" "c \<noteq> CHR ''+''" using digit_not_sign by auto
  with assms ct show ?thesis by (simp add: Atoi_def Let_def)
qed

theorem Atoi_Itoa: "Atoi (Itoa w) = Inr w"
proof (cases "sint w < 0")
  case True
  define ds where "ds = nat_digits (nat (- sint w))"
  have ds: "ds \<noteq> []" "list_all is_digit ds" "int (digits_val ds) = - sint w"
    using True nat_digits_all by (simp_all add: ds_def)
  have w: "Itoa w = CHR ''-'' # ds" using True by (simp add: Itoa_def ds_def)
  have "Atoi (CHR ''-'' # ds) = Inr (i64_of (- int (digits_val ds)))"
    unfolding Atoi_def Let_def using ds sint_i64_ge [of w] sint_i64_lt [of w] True by simp
  with w ds(3) show ?thesis by simp
next
  case False
  define ds where "ds = nat_digits (nat (sint w))"
  have ds: "ds \<noteq> []" "list_all is_digit ds" "int (digits_val ds) = sint w"
    using False nat_digits_all by (simp_all add: ds_def)
  have "Itoa w = ds" using False by (simp add: Itoa_def ds_def)
  then show ?thesis
    using Atoi_digits [OF ds(1,2)] ds(3) sint_i64_lt [of w] by simp
qed

lemma Itoa_inj: "Itoa a = Itoa b \<Longrightarrow> a = b"
  by (metis Atoi_Itoa sum.inject(2))

lemma Itoa_chars: "c \<in> set (Itoa w) \<Longrightarrow> is_digit c \<or> c = CHR ''-''"
  using nat_digits_all by (auto simp: Itoa_def list_all_iff split: if_splits)

lemma Itoa_nonempty [simp]: "Itoa w \<noteq> []"
  by (simp add: Itoa_def)

lemma Atoi_empty [simp]: "Atoi [] = Inl (Errorf ''strconv.Atoi: parsing %q: invalid syntax'' [[]])"
  by (simp add: Atoi_def)

lemmas [go_defs] = Atoi_def Itoa_def quot64_def digits_val_def digit_val_def digit_char_def

end
