(* ===== verification/Topology.thy ===== *)
theory Topology
  imports GoNumbers
begin

text \<open>
  The topology arithmetic of util.go: parsing a topology label such as \<open>2x2x4\<close>, the guarded
  product of its dimensions, the bounds and wrap-around strings derived from it, and the
  topology of a single host. Dimensions and counts are \<open>int64\<close>/\<open>int\<close> values (\<open>i64\<close>).
\<close>

section \<open>Constants\<close>

text \<open>\<open>requestedChipCountToChipsPerDimNumaAligned\<close>: chips per node to chips per dimension.\<close>

definition requestedChipCountToChipsPerDimNumaAligned :: "i64 \<rightharpoonup> i64 list" where
  "requestedChipCountToChipsPerDimNumaAligned =
     map_of [(1, [1, 1, 1]), (2, [1, 2, 1]), (4, [2, 2, 1]), (8, [2, 4, 1])]"

definition validSubsliceTopologySet :: "string list" where
  "validSubsliceTopologySet =
     [''1x1'', ''2x2'', ''2x4'', ''4x4'', ''4x8'', ''8x8'', ''8x16'', ''16x16'',
      ''4x4x4'', ''2x4x4'', ''2x2x4'', ''2x2x2'', ''2x2x1'']"

definition vlpMaxTopologyDim :: i64 where
  "vlpMaxTopologyDim = 16"

definition maxTotalChips :: i64 where
  "maxTotalChips = push_bit 20 1"

section \<open>Operations\<close>

fun parse_dims :: "string \<Rightarrow> string list \<Rightarrow> i64 list result" where
  "parse_dims topology [] = Inr []"
| "parse_dims topology (s # ss) =
     (case Atoi s of
        Inl e \<Rightarrow> Inl e
      | Inr n \<Rightarrow>
          if sint n \<le> 0
          then Inl (Errorf ''invalid topology dimension %q in %s: must be positive'' [s, topology])
          else (case parse_dims topology ss of Inl e \<Rightarrow> Inl e | Inr ns \<Rightarrow> Inr (n # ns)))"

definition getTopologyDims :: "string \<Rightarrow> i64 list result" where
  "getTopologyDims topology =
     (case parse_dims topology (split_on CHR ''x'' topology) of
        Inl e \<Rightarrow> Inl e
      | Inr ds \<Rightarrow>
          (let ds = (if length ds = 2 then ds @ [1] else ds)
           in if length ds \<noteq> 3
              then Inl (Errorf ''invalid topology format: %s, must be 2D or 3D'' [topology])
              else Inr ds))"

fun totalChips_loop :: "i64 \<Rightarrow> i64 list \<Rightarrow> i64 result" where
  "totalChips_loop totalChips [] = Inr totalChips"
| "totalChips_loop totalChips (chips # rest) =
     (if sint chips \<le> 0 then Inl (Errorf ''invalid topology dimension %d in %v: must be positive'' [Itoa chips])
      else if sint (quot64 maxTotalChips chips) < sint totalChips
      then Inl (Errorf ''topology dimensions %v exceed the maximum of %d chips'' [Itoa maxTotalChips])
      else totalChips_loop (totalChips * chips) rest)"

definition calculateTotalChips :: "i64 list \<Rightarrow> i64 result" where
  "calculateTotalChips topologyDims = totalChips_loop 1 topologyDims"

definition numCores :: "string \<Rightarrow> i64 list \<Rightarrow> i64 result" where
  "numCores tpuGen topologyDims =
     (case calculateTotalChips topologyDims of
        Inl e \<Rightarrow> Inl e
      | Inr totalChips \<Rightarrow>
          if Contains tpuGen ''lite'' \<or> Contains tpuGen ''v6e'' then Inr totalChips
          else Inr (totalChips * 2))"

definition convertAcceleratorType :: "string \<Rightarrow> i64 list \<Rightarrow> string result" where
  "convertAcceleratorType tpuGen topologyDims =
     (case numCores tpuGen topologyDims of
        Inl e \<Rightarrow> Inl e
      | Inr cores \<Rightarrow> Inr (tpuGen @ ''-'' @ Itoa cores))"

definition calculateHostBounds :: "i64 \<Rightarrow> i64 list \<Rightarrow> string result" where
  "calculateHostBounds requestedChipCount topologyDims =
     (if length topologyDims \<noteq> 3
      then Inl (Errorf ''invalid topology dimensions: expected 3, got %d'' [nat_digits (length topologyDims)])
      else (case requestedChipCountToChipsPerDimNumaAligned requestedChipCount of
          None \<Rightarrow> Inl (Errorf ''invalid value for chipCount: %d'' [Itoa requestedChipCount])
        | Some trayChipNumPerDim \<Rightarrow>
            Inr (join '','' (map2 (\<lambda>dim trayChipNum. Itoa (quot64 dim trayChipNum))
                               topologyDims trayChipNumPerDim))))"

definition getChipsPerHostBounds :: "i64 \<Rightarrow> string result" where
  "getChipsPerHostBounds requestedChipCount =
     (case requestedChipCountToChipsPerDimNumaAligned requestedChipCount of
        None \<Rightarrow> Inl (Errorf ''invalid chip count: %d'' [Itoa requestedChipCount])
      | Some chipsPerDim \<Rightarrow> Inr (join '','' (map Itoa chipsPerDim)))"

definition isSingleHost :: "i64 \<Rightarrow> i64 list \<Rightarrow> bool result" where
  "isSingleHost chipCount topologyDims =
     (case calculateTotalChips topologyDims of
        Inl e \<Rightarrow> Inl e
      | Inr totalChips \<Rightarrow> Inr (chipCount = totalChips))"

fun cubeOrLarger :: "i64 list \<Rightarrow> bool" where
  "cubeOrLarger [] = True"
| "cubeOrLarger (dim # dims) = (if sint dim < 4 then False else cubeOrLarger dims)"

definition wrapVersion :: "i64 list \<Rightarrow> string" where
  "wrapVersion topologyDims =
     (if cubeOrLarger topologyDims then ''true,true,true'' else ''false,false,false'')"

text \<open>\<open>val[i]\<close> has three entries: a fourth dimension of the maximal size is out of range.\<close>

definition wrapLitePod :: "i64 list \<Rightarrow> string result" where
  "wrapLitePod topologyDims =
     (if list_ex (\<lambda>dim. dim = vlpMaxTopologyDim) (drop 3 topologyDims)
      then Inl (Panic ''index out of range'')
      else Inr (join '','' (map (\<lambda>i. if i < length topologyDims \<and> topologyDims ! i = vlpMaxTopologyDim
                                  then ''true'' else ''false'') [0, 1, 2])))"

definition wrap :: "string \<Rightarrow> i64 list \<Rightarrow> string result" where
  "wrap tpuGen topologyDims =
     (if tpuGen \<in> set [''v3'', ''v4'', ''v4lite'', ''v5p''] then Inr (wrapVersion topologyDims)
      else if tpuGen \<in> set [''v5lite'', ''v5litepod'', ''v6e''] then wrapLitePod topologyDims
      else Inl (Errorf ''invalid TPU generation: %s'' [tpuGen]))"

definition isPodslice :: "string \<Rightarrow> bool" where
  "isPodslice accelerator = HasSuffix accelerator ''slice''"

definition ChipCount :: "string \<Rightarrow> i64 result" where
  "ChipCount chipCount =
     (case Atoi chipCount of
        Inl _ \<Rightarrow> Inl (Errorf ''invalid TPU chip count %q'' [chipCount])
      | Inr count \<Rightarrow>
          if sint count \<le> 0 then Inl (Errorf ''invalid TPU chip count %q: must be positive'' [chipCount])
          else Inr count)"

text \<open>\<open>(false, err)\<close> is \<open>Inl err\<close>.\<close>

definition IsValidSubSliceTopology :: "string \<Rightarrow> string \<Rightarrow> bool result" where
  "IsValidSubSliceTopology topology subSliceTopology =
     (if subSliceTopology = [] then Inr False
      else if subSliceTopology \<notin> set validSubsliceTopologySet
      then Inl (Errorf ''invalid value for subSliceTopology: %s'' [subSliceTopology])
      else (case getTopologyDims topology of
          Inl e \<Rightarrow> Inl (ErrWrap ''invalid node topology %s: %w'' [topology] e)
        | Inr dims \<Rightarrow>
            (case getTopologyDims subSliceTopology of
               Inl e \<Rightarrow> Inl (ErrWrap ''invalid value for subSliceTopology %s: %w'' [subSliceTopology] e)
             | Inr subDims \<Rightarrow>
                 if list_ex (\<lambda>(d1, d2). sint d1 < sint d2) (zip dims subDims)
                 then Inl (Errorf ''invalid value for subSliceTopology: %s, subSliceTopology shouldn't be larger than topology'' [subSliceTopology])
                 else Inr True)))"

fun drop_trailing_ones :: "i64 list \<Rightarrow> i64 list" where
  "drop_trailing_ones dims =
     (if 2 < length dims \<and> last dims = 1 then drop_trailing_ones (butlast dims) else dims)"

declare drop_trailing_ones.simps [simp del]

definition singleHostTopology :: "i64 \<Rightarrow> string" where
  "singleHostTopology chipCount =
     (case requestedChipCountToChipsPerDimNumaAligned chipCount of
        None \<Rightarrow> []
      | Some dims \<Rightarrow> join ''x'' (map Itoa (drop_trailing_ones dims)))"

section \<open>The guarded product\<close>

text \<open>The abstract value: dimensions read as integers, and their product.\<close>

definition dims_prod :: "i64 list \<Rightarrow> int" where
  "dims_prod ds = prod_list (map sint ds)"

lemma dims_prod_simps [simp]:
  "dims_prod [] = 1" "dims_prod (d # ds) = sint d * dims_prod ds"
  by (simp_all add: dims_prod_def)

lemma dims_prod_pos: "list_all (\<lambda>d. 0 < sint d) ds \<Longrightarrow> 1 \<le> dims_prod ds"
proof (induction ds)
  case (Cons d ds)
  then have "1 * 1 \<le> sint d * dims_prod ds" by (intro mult_mono) auto
  then show ?case by simp
qed simp

lemma sint_maxTotalChips [simp]: "sint maxTotalChips = 2 ^ 20"
  by (simp add: maxTotalChips_def)

lemma int_div_less_iff:
  assumes "0 < (c :: int)"
  shows "a div c < t \<longleftrightarrow> a < t * c"
proof
  assume "a div c < t"
  then have "(a div c + 1) * c \<le> t * c" using assms by (intro mult_right_mono) auto
  moreover have "(a div c + 1) * c = a div c * c + c" by (simp add: distrib_right)
  then have "a < (a div c + 1) * c"
    using assms pos_mod_bound [of c a] div_mult_mod_eq [of a c] by linarith
  ultimately show "a < t * c" by linarith
next
  assume less: "a < t * c"
  show "a div c < t"
  proof (rule ccontr)
    assume "\<not> a div c < t"
    then have "t * c \<le> a div c * c" using assms by (intro mult_right_mono) auto
    moreover have "a div c * c \<le> a"
      using assms pos_mod_sign [of c a] div_mult_mod_eq [of a c] by linarith
    ultimately show False using less by linarith
  qed
qed

text \<open>The check before each multiplication is exact: it fails iff the product would exceed the cap.\<close>

lemma quot_guard_iff:
  assumes "0 < sint c" and "0 \<le> sint t"
  shows "sint (quot64 maxTotalChips c) < sint t \<longleftrightarrow> 2 ^ 20 < sint t * sint c"
proof -
  have "sint (quot64 maxTotalChips c) = 2 ^ 20 div sint c"
    using assms(1) by (subst sint_quot64_pos) simp_all
  then show ?thesis using int_div_less_iff [OF assms(1)] by simp
qed

lemma sint_mult_small:
  assumes "0 \<le> sint t * sint c" and "sint t * sint c \<le> 2 ^ 20"
  shows "sint (t * c :: i64) = sint t * sint c"
proof -
  have eq: "t * c = i64_of (sint t * sint c)" by simp
  have "sint (i64_of (sint t * sint c)) = sint t * sint c"
    using assms by (intro sint_i64_of) auto
  then show ?thesis unfolding eq .
qed

lemma totalChips_loop_iff:
  assumes "1 \<le> sint t" and "sint t \<le> 2 ^ 20"
  shows "totalChips_loop t ds = Inr n \<longleftrightarrow>
    list_all (\<lambda>d. 0 < sint d) ds \<and> sint t * dims_prod ds \<le> 2 ^ 20 \<and> sint n = sint t * dims_prod ds"
  using assms
proof (induction ds arbitrary: t)
  case Nil
  then show ?case by (auto simp: sint_eq_iff [symmetric])
next
  case (Cons d ds)
  show ?case
  proof (cases "0 < sint d \<and> sint t * sint d \<le> 2 ^ 20")
    case True
    then have pos: "0 < sint t * sint d" using Cons.prems by simp
    then have td: "sint (t * d) = sint t * sint d"
      using True by (intro sint_mult_small) auto
    have "\<not> sint (quot64 maxTotalChips d) < sint t"
      using True Cons.prems by (simp add: quot_guard_iff)
    then show ?thesis using True pos Cons.IH [of "t * d"] by (simp add: td mult.assoc)
  next
    case False
    show ?thesis
    proof (cases "0 < sint d")
      case True
      with False have big: "2 ^ 20 < sint t * sint d" by simp
      have "sint t * dims_prod (d # ds) > 2 ^ 20" if "list_all (\<lambda>d. 0 < sint d) ds"
      proof -
        have "sint t * sint d * 1 \<le> sint t * sint d * dims_prod ds"
          using dims_prod_pos [OF that] big by (intro mult_left_mono) auto
        with big show ?thesis by (simp add: mult.assoc)
      qed
      moreover have "sint (quot64 maxTotalChips d) < sint t"
        using True big Cons.prems by (simp add: quot_guard_iff)
      ultimately show ?thesis using True by auto
    qed simp
  qed
qed

lemma calculateTotalChips_iff:
  "calculateTotalChips ds = Inr n \<longleftrightarrow>
     (\<forall>d\<in>set ds. 0 < sint d) \<and> dims_prod ds \<le> 2 ^ 20 \<and> sint n = dims_prod ds"
  unfolding calculateTotalChips_def by (subst totalChips_loop_iff) (simp_all add: list_all_iff)

lemma calculateTotalChips_ok:
  "\<forall>d\<in>set ds. 0 < sint d \<Longrightarrow> dims_prod ds \<le> 2 ^ 20 \<Longrightarrow>
    calculateTotalChips ds = Inr (i64_of (dims_prod ds))"
  using dims_prod_pos [of ds]
  by (subst calculateTotalChips_iff) (auto simp: list_all_iff intro!: sint_i64_of)

lemma isSingleHost_True_iff:
  "isSingleHost chipCount ds = Inr True \<longleftrightarrow>
     (\<forall>d\<in>set ds. 0 < sint d) \<and> dims_prod ds \<le> 2 ^ 20 \<and> sint chipCount = dims_prod ds"
proof -
  have "isSingleHost chipCount ds = Inr True \<longleftrightarrow> calculateTotalChips ds = Inr chipCount"
    by (auto simp: isSingleHost_def split: sum.splits)
  then show ?thesis by (simp add: calculateTotalChips_iff)
qed

section \<open>Parsing a topology\<close>

lemma parse_dims_Inr_iff:
  "parse_dims topo ss = Inr ns \<longleftrightarrow> map Atoi ss = map Inr ns \<and> (\<forall>n\<in>set ns. 0 < sint n)"
proof (induction ss arbitrary: ns)
  case Nil
  then show ?case by auto
next
  case (Cons s ss)
  then show ?case by (cases ns) (auto split: sum.splits if_splits)
qed

lemma getTopologyDims_iff:
  "getTopologyDims topo = Inr ds \<longleftrightarrow>
     (\<exists>ns. map Atoi (split_on CHR ''x'' topo) = map Inr ns \<and> (\<forall>n\<in>set ns. 0 < sint n) \<and>
        (length ns = 3 \<and> ds = ns \<or> length ns = 2 \<and> ds = ns @ [1]))"
proof -
  have "getTopologyDims topo = Inr ds \<longleftrightarrow>
    (\<exists>ns. parse_dims topo (split_on CHR ''x'' topo) = Inr ns \<and>
      (length ns = 3 \<and> ds = ns \<or> length ns = 2 \<and> ds = ns @ [1]))"
    by (auto simp: getTopologyDims_def Let_def split: sum.splits if_splits)
  then show ?thesis by (simp add: parse_dims_Inr_iff conj_assoc)
qed

lemma getTopologyDims_shape:
  "getTopologyDims topo = Inr ds \<Longrightarrow> length ds = 3 \<and> (\<forall>d\<in>set ds. 0 < sint d)"
  by (auto simp: getTopologyDims_iff)

lemma getTopologyDims_empty: "getTopologyDims [] = Inr ds \<longleftrightarrow> False"
  by (simp add: getTopologyDims_def)

lemma getTopologyDims_print:
  assumes "length ns = 2 \<or> length ns = 3" and "\<forall>n\<in>set ns. 0 < sint n"
  shows "getTopologyDims (join ''x'' (map Itoa ns)) = Inr (if length ns = 2 then ns @ [1] else ns)"
proof -
  have "CHR ''x'' \<notin> set (Itoa n)" for n
    using Itoa_chars [of "CHR ''x''" n] by (auto simp: is_digit_of_char)
  then have "split_on CHR ''x'' (join ''x'' (map Itoa ns)) = map Itoa ns"
    using assms(1) by (intro split_on_join) auto
  then have "map Atoi (split_on CHR ''x'' (join ''x'' (map Itoa ns))) = map Inr ns"
    by (simp add: Atoi_Itoa comp_def)
  with assms show ?thesis unfolding getTopologyDims_iff by (intro exI [of _ ns]) auto
qed

section \<open>The single host topology\<close>

lemma chips_table_cases:
  assumes "requestedChipCountToChipsPerDimNumaAligned n = Some ds"
  obtains "n = 1" "ds = [1, 1, 1]" | "n = 2" "ds = [1, 2, 1]"
    | "n = 4" "ds = [2, 2, 1]" | "n = 8" "ds = [2, 4, 1]"
  using assms
  by (auto simp: requestedChipCountToChipsPerDimNumaAligned_def split: if_splits)

lemma chips_table_prod:
  "requestedChipCountToChipsPerDimNumaAligned n = Some ds \<Longrightarrow>
     length ds = 3 \<and> (\<forall>d\<in>set ds. 0 < sint d) \<and> dims_prod ds = sint n"
  by (erule chips_table_cases) (simp_all add: dims_prod_def)

lemma chips_table_print:
  assumes "requestedChipCountToChipsPerDimNumaAligned n = Some ds"
  obtains ns where "drop_trailing_ones ds = ns" "length ns = 2" "\<forall>d\<in>set ns. 0 < sint d" "ds = ns @ [1]"
  using assms
  by (rule chips_table_cases) (simp_all add: drop_trailing_ones.simps)

text \<open>The topology the driver assumes for a host parses back to the table's dimensions.\<close>

lemma getTopologyDims_singleHostTopology:
  assumes "requestedChipCountToChipsPerDimNumaAligned n = Some ds"
  shows "getTopologyDims (singleHostTopology n) = Inr ds"
proof -
  from assms obtain ns where ns: "drop_trailing_ones ds = ns" "length ns = 2"
    "\<forall>d\<in>set ns. 0 < sint d" "ds = ns @ [1]" by (rule chips_table_print)
  then show ?thesis
    using assms getTopologyDims_print [of ns] by (simp add: singleHostTopology_def)
qed

lemma singleHostTopology_empty_iff:
  "singleHostTopology n = [] \<longleftrightarrow> requestedChipCountToChipsPerDimNumaAligned n = None"
proof (cases "requestedChipCountToChipsPerDimNumaAligned n")
  case (Some ds)
  from this obtain ns where ns: "drop_trailing_ones ds = ns" "length ns = 2" by (rule chips_table_print)
  then obtain a b where "ns = [a, b]" by (auto simp: length_Suc_conv numeral_2_eq_2)
  with Some ns show ?thesis by (simp add: singleHostTopology_def)
qed (simp add: singleHostTopology_def)

section \<open>Host bounds\<close>

lemma sint_quot64_dvd:
  "0 < sint c \<Longrightarrow> 0 < sint d \<Longrightarrow> sint c dvd sint d \<Longrightarrow> sint (quot64 d c) * sint c = sint d"
  by (simp add: sint_quot64_pos)

lemma dims_prod_tiles:
  "list_all2 (\<lambda>d c. sint c dvd sint d \<and> 0 < sint d \<and> 0 < sint c) ds cs \<Longrightarrow>
     dims_prod (map2 quot64 ds cs) * dims_prod cs = dims_prod ds"
proof (induction ds cs rule: list_all2_induct)
  case (Cons d ds c cs)
  then have "(sint (quot64 d c) * sint c) * (dims_prod (map2 quot64 ds cs) * dims_prod cs)
    = sint d * dims_prod ds" by (simp add: sint_quot64_dvd)
  then show ?case by (simp add: ac_simps)
qed simp

lemma calculateHostBounds_eq:
  "requestedChipCountToChipsPerDimNumaAligned n = Some tray \<Longrightarrow> length ds = 3 \<Longrightarrow>
     calculateHostBounds n ds = Inr (join '','' (map Itoa (map2 quot64 ds tray)))"
  by (simp add: calculateHostBounds_def case_prod_unfold comp_def)

lemma sint_quot64_zero_iff:
  assumes "0 < sint d" and "0 < sint c"
  shows "quot64 d c = 0 \<longleftrightarrow> sint d < sint c"
proof -
  have "quot64 d c = 0 \<longleftrightarrow> sint (quot64 d c) = 0"
    using sint_eq_iff [of "quot64 d c" 0] by simp
  also have "\<dots> \<longleftrightarrow> sint d < sint c"
    using assms by (simp add: sint_quot64_pos zdiv_eq_0_iff)
  finally show ?thesis .
qed

section \<open>Properties\<close>

text \<open>C39 (bounds). The dimension product is computed without wrapping: \<open>calculateTotalChips\<close> returns
  a count exactly when every dimension is positive and the mathematical product is at most
  \<open>2 ^ 20\<close>, and then the 64-bit result is that product.\<close>

theorem calculateTotalChips_exact:
  "calculateTotalChips ds = Inr n \<longleftrightarrow>
     (\<forall>d\<in>set ds. 0 < sint d) \<and> dims_prod ds \<le> 2 ^ 20 \<and> sint n = dims_prod ds"
  by (rule calculateTotalChips_iff)

lemma calculateTotalChips_exact_witness:
  "calculateTotalChips [4, 4, 8] = Inr 128 \<and> calculateTotalChips [2 ^ 40, 2 ^ 40] \<noteq> Inr 0"
  by (simp add: calculateTotalChips_exact dims_prod_def)

text \<open>A topology of two or three positive dimensions, printed with \<open>x\<close> between the
  decimal dimensions, parses back to those dimensions, a two-dimensional one with a third
  dimension of 1 appended.\<close>

theorem getTopologyDims_roundtrip:
  assumes "length ns = 2 \<or> length ns = 3" and "\<forall>n\<in>set ns. 0 < sint n"
  shows "getTopologyDims (join ''x'' (map Itoa ns)) = Inr (if length ns = 2 then ns @ [1] else ns)"
  using assms by (rule getTopologyDims_print)

lemma getTopologyDims_roundtrip_witness:
  "getTopologyDims (join ''x'' (map Itoa [16, 8])) = Inr [16, 8, 1]"
  using getTopologyDims_roundtrip [of "[16, 8]"] by simp

text \<open>Whatever the topology label, dimensions that are returned are three positive
  numbers, so no later division, product or index into them can fail.\<close>

theorem getTopologyDims_three_positive:
  "getTopologyDims topo = Inr ds \<Longrightarrow> length ds = 3 \<and> (\<forall>d\<in>set ds. 1 \<le> sint d)"
  using getTopologyDims_shape by force

lemma getTopologyDims_three_positive_witness: "length [2 :: i64, 4, 1] = 3 \<and> (\<forall>d\<in>set [2 :: i64, 4, 1]. 1 \<le> sint d)"
proof -
  have "getTopologyDims ''2x4'' = Inr [2, 4, 1]" by code_simp
  then show ?thesis by (rule getTopologyDims_three_positive)
qed

text \<open>A subslice topology is accepted exactly when it is one of the listed
  topologies, both topologies parse, and no dimension of it exceeds the node's.\<close>

theorem IsValidSubSliceTopology_accepts:
  "IsValidSubSliceTopology t s = Inr True \<longleftrightarrow>
     s \<in> set validSubsliceTopologySet \<and>
     (\<exists>ds ss. getTopologyDims t = Inr ds \<and> getTopologyDims s = Inr ss \<and>
        list_all2 (\<lambda>d2 d1. sint d2 \<le> sint d1) ss ds)"
proof -
  have ne: "s \<in> set validSubsliceTopologySet \<Longrightarrow> s \<noteq> []"
    by (auto simp: validSubsliceTopologySet_def)
  have le: "list_all2 (\<lambda>d2 d1. sint d2 \<le> sint d1) ss ds \<longleftrightarrow>
      \<not> list_ex (\<lambda>(d1, d2). sint d1 < sint d2) (zip ds ss)"
    if "getTopologyDims t = Inr ds" "getTopologyDims s = Inr ss" for ds ss
  proof -
    have "length ds = 3" "length ss = 3" using that getTopologyDims_shape by blast+
    then obtain a b c a' b' c' where "ds = [a, b, c]" "ss = [a', b', c']" by (elim length3E)
    then show ?thesis by (simp add: not_less)
  qed
  show ?thesis
    using ne le by (auto simp: IsValidSubSliceTopology_def split: sum.splits if_splits)
qed

text \<open>C38 (functional). The host bounds and chips per host a slice container sees are consistent: when
  the chips of a host tile the topology, the number of hosts times the node's chip count is the
  number of chips of the slice, and both strings print those per-dimension numbers.\<close>

theorem host_bounds_tile_the_slice:
  assumes "requestedChipCountToChipsPerDimNumaAligned n = Some tray" and "length ds = 3"
    and "list_all2 (\<lambda>d c. sint c dvd sint d \<and> 0 < sint d) ds tray"
  shows "\<exists>hosts. calculateHostBounds n ds = Inr (join '','' (map Itoa hosts)) \<and>
    getChipsPerHostBounds n = Inr (join '','' (map Itoa tray)) \<and>
    length hosts = 3 \<and> length tray = 3 \<and> (\<forall>i<3. sint (hosts ! i) * sint (tray ! i) = sint (ds ! i)) \<and>
    dims_prod hosts * sint n = dims_prod ds"
proof -
  note tray = chips_table_prod [OF assms(1)]
  let ?hosts = "map2 quot64 ds tray"
  have dim: "\<forall>i<3. sint (?hosts ! i) * sint (tray ! i) = sint (ds ! i)"
    using assms(2,3) tray by (auto simp: list_all2_conv_all_nth sint_quot64_dvd)
  have len: "length ?hosts = 3" "length tray = 3" using assms(2) tray by auto
  have "list_all2 (\<lambda>d c. sint c dvd sint d \<and> 0 < sint d \<and> 0 < sint c) ds tray"
    using assms(3) tray by (auto simp: list_all2_conv_all_nth)
  from dims_prod_tiles [OF this] have prod: "dims_prod ?hosts * sint n = dims_prod ds"
    using tray by simp
  have "getChipsPerHostBounds n = Inr (join '','' (map Itoa tray))"
    using assms(1) by (simp add: getChipsPerHostBounds_def)
  with calculateHostBounds_eq [OF assms(1,2)] dim len prod show ?thesis
    by (intro exI [of _ ?hosts]) simp
qed

lemma host_bounds_tile_the_slice_witness:
  "\<exists>hosts. calculateHostBounds 4 [4, 4, 8] = Inr (join '','' (map Itoa hosts)) \<and>
    getChipsPerHostBounds 4 = Inr (join '','' (map Itoa [2, 2, 1])) \<and>
    length hosts = 3 \<and> length [2, 2, 1 :: i64] = 3 \<and>
    (\<forall>i<3. sint (hosts ! i) * sint ([2, 2, 1 :: i64] ! i) = sint ([4, 4, 8 :: i64] ! i)) \<and>
    dims_prod hosts * sint (4 :: i64) = dims_prod [4, 4, 8]"
  by (rule host_bounds_tile_the_slice)
    (simp_all add: requestedChipCountToChipsPerDimNumaAligned_def)

text \<open>\<open>calculateHostBounds\<close> accepts a topology smaller than the chips of one host and
  then prints a host count of 0: on positive dimensions some bound is 0 exactly when a dimension
  is smaller than the chips per host in that dimension.\<close>

theorem host_bounds_zero_iff_too_small:
  assumes "requestedChipCountToChipsPerDimNumaAligned n = Some tray" and "length ds = 3"
    and "\<forall>d\<in>set ds. 0 < sint d"
  shows "\<exists>hosts. calculateHostBounds n ds = Inr (join '','' (map Itoa hosts)) \<and>
    (0 \<in> set hosts \<longleftrightarrow> \<not> list_all2 (\<lambda>d c. sint c \<le> sint d) ds tray)"
proof -
  note tray = chips_table_prod [OF assms(1)]
  from assms(2) tray obtain a b c a' b' c' where l: "ds = [a, b, c]" "tray = [a', b', c']"
    by (elim length3E conjE)
  have "quot64 d e = 0 \<longleftrightarrow> sint d < sint e" if "d \<in> set ds" "e \<in> set tray" for d e
    using that assms(3) tray by (intro sint_quot64_zero_iff) auto
  then have "0 \<in> set (map2 quot64 ds tray) \<longleftrightarrow> \<not> list_all2 (\<lambda>d c. sint c \<le> sint d) ds tray"
    unfolding l by (auto simp: not_less; metis)
  then show ?thesis
    using calculateHostBounds_eq [OF assms(1,2)] by blast
qed

lemma host_bounds_zero_iff_too_small_witness:
  "\<exists>hosts. calculateHostBounds 8 [4, 2, 1] = Inr (join '','' (map Itoa hosts)) \<and> 0 \<in> set hosts"
  using host_bounds_zero_iff_too_small [of 8 "[2, 4, 1]" "[4, 2, 1]"]
  by (simp add: requestedChipCountToChipsPerDimNumaAligned_def)

text \<open>The topology \<open>singleHostTopology\<close> infers for a host is read back by
  \<open>getTopologyDims\<close> as the chips per dimension of that host, and \<open>isSingleHost\<close> agrees that it is
  one host: an inferred topology never makes the driver treat the node as part of a slice.\<close>

theorem inferred_topology_is_single_host:
  assumes "singleHostTopology n \<noteq> []"
  shows "\<exists>ds. getTopologyDims (singleHostTopology n) = Inr ds \<and> isSingleHost n ds = Inr True \<and>
    requestedChipCountToChipsPerDimNumaAligned n = Some ds"
proof -
  from assms obtain ds where ds: "requestedChipCountToChipsPerDimNumaAligned n = Some ds"
    by (auto simp: singleHostTopology_empty_iff)
  then have "dims_prod ds \<le> 2 ^ 20" by (rule chips_table_cases) (simp_all add: dims_prod_def)
  with ds chips_table_prod [OF ds] show ?thesis
    by (auto simp: getTopologyDims_singleHostTopology isSingleHost_True_iff)
qed

lemma inferred_topology_is_single_host_witness:
  "singleHostTopology 8 = ''2x4'' \<and>
   (\<exists>ds. getTopologyDims (singleHostTopology 8) = Inr ds \<and> isSingleHost 8 ds = Inr True \<and>
    requestedChipCountToChipsPerDimNumaAligned 8 = Some ds)"
proof -
  have e: "singleHostTopology 8 = ''2x4''" by code_simp
  then have "singleHostTopology 8 \<noteq> []" by simp
  from inferred_topology_is_single_host [OF this] e show ?thesis by simp
qed

end
