(* ===== verification/GoRegexp.thy ===== *)
theory GoRegexp
  imports GoStrings
begin

text \<open>
  The part of Go's \<open>regexp\<close> syntax the driver uses: literals, byte classes, \<open>[...]*\<close>,
  \<open>[...]+\<close>, groups, \<open>?\<close> and alternation. Every pattern of the driver is anchored with
  \<open>^...$\<close>, so \<open>MatchString\<close> decides whether the whole string is in the language. The matcher
  explores the alternatives and returns what each leaves unread; \<open>runs_iff\<close> proves it
  against the language.
\<close>

datatype regex =
    Lit string
  | Class "char list"             \<comment> \<open>one byte of the class, e.g. \<open>[ep]\<close>\<close>
  | Many "char list"              \<comment> \<open>\<open>[class]*\<close>\<close>
  | Many1 "char list"             \<comment> \<open>\<open>[class]+\<close>\<close>
  | Seq regex regex
  | Alt regex regex
  | Opt regex

fun lang :: "regex \<Rightarrow> string set" where
  "lang (Lit w) = {w}"
| "lang (Class cs) = {[c] |c. c \<in> set cs}"
| "lang (Many cs) = {u. set u \<subseteq> set cs}"
| "lang (Many1 cs) = {u. u \<noteq> [] \<and> set u \<subseteq> set cs}"
| "lang (Seq a b) = {u @ v |u v. u \<in> lang a \<and> v \<in> lang b}"
| "lang (Alt a b) = lang a \<union> lang b"
| "lang (Opt a) = insert [] (lang a)"

fun rests :: "char list \<Rightarrow> string \<Rightarrow> string list" where
  "rests cs [] = [[]]"
| "rests cs (c # s) = (if c \<in> set cs then rests cs s @ [c # s] else [c # s])"

fun runs :: "regex \<Rightarrow> string \<Rightarrow> string list" where
  "runs (Lit w) s = (if prefix w s then [drop (length w) s] else [])"
| "runs (Class cs) s = (case s of [] \<Rightarrow> [] | c # t \<Rightarrow> if c \<in> set cs then [t] else [])"
| "runs (Many cs) s = rests cs s"
| "runs (Many1 cs) s = (case s of [] \<Rightarrow> [] | c # t \<Rightarrow> if c \<in> set cs then rests cs t else [])"
| "runs (Seq a b) s = concat (map (runs b) (runs a s))"
| "runs (Alt a b) s = runs a s @ runs b s"
| "runs (Opt a) s = runs a s @ [s]"

text \<open>\<open>regexp.MustCompile("^r$").MatchString(s)\<close>.\<close>

definition MatchString :: "regex \<Rightarrow> string \<Rightarrow> bool" where
  "MatchString r s \<longleftrightarrow> [] \<in> set (runs r s)"

lemma rests_iff: "t \<in> set (rests cs s) \<longleftrightarrow> (\<exists>u. s = u @ t \<and> set u \<subseteq> set cs)"
proof (induction s)
  case Nil
  then show ?case by auto
next
  case (Cons c s)
  then show ?case by (auto simp: Cons_eq_append_conv)
qed

lemma runs_iff: "t \<in> set (runs r s) \<longleftrightarrow> (\<exists>u. s = u @ t \<and> u \<in> lang r)"
proof (induction r arbitrary: s t)
  case (Lit w)
  then show ?case by (auto simp: prefix_def)
next
  case (Class cs)
  then show ?case by (cases s) auto
next
  case (Many cs)
  then show ?case by (simp add: rests_iff)
next
  case (Many1 cs)
  then show ?case by (cases s) (auto simp: rests_iff Cons_eq_append_conv)
next
  case (Seq a b)
  have "t \<in> set (runs (Seq a b) s) \<longleftrightarrow> (\<exists>m. m \<in> set (runs a s) \<and> t \<in> set (runs b m))"
    by auto
  also have "\<dots> \<longleftrightarrow> (\<exists>m u v. s = u @ m \<and> u \<in> lang a \<and> m = v @ t \<and> v \<in> lang b)"
    unfolding Seq.IH by blast
  also have "\<dots> \<longleftrightarrow> (\<exists>w. s = w @ t \<and> w \<in> lang (Seq a b))"
    by (auto; metis append_assoc)
  finally show ?case .
next
  case (Alt a b)
  then show ?case by auto
next
  case (Opt a)
  then show ?case by auto
qed

theorem MatchString_lang: "MatchString r s \<longleftrightarrow> s \<in> lang r"
  by (simp add: MatchString_def runs_iff)

definition digit_class :: "char list" where
  "digit_class = ''0123456789''"

lemma digit_class_set: "c \<in> set digit_class \<longleftrightarrow> is_digit c"
proof
  assume "is_digit c"
  then have "(of_char c :: nat) \<in> {48..57}"
    by (auto simp: is_digit_of_char)
  moreover have "\<forall>k \<in> {48..57 :: nat}. char_of k \<in> set digit_class"
    by code_simp
  ultimately have "char_of (of_char c :: nat) \<in> set digit_class" by blast
  then show "c \<in> set digit_class" by simp
qed (auto simp: digit_class_def is_digit_of_char)

end
