(* ===== verification/Generations.thy ===== *)
theory Generations
  imports Topology GoRegexp
begin

text \<open>
  The TPU generations the driver knows: the table \<open>tpuGenerationFamilies\<close> and its two readers
  (hardware.go), and \<open>AcceleratorGen\<close>, which derives the generation from an accelerator
  label with two regular expressions (util.go).
\<close>

section \<open>The table of generation families\<close>

record tpuGenerationFamily =
  pciDeviceID :: string
  pciSubsystemID :: string
  generations :: "string list"

definition tpuGenerationFamilies :: "tpuGenerationFamily list" where
  "tpuGenerationFamilies =
     [\<lparr>pciDeviceID = ''0x0027'', pciSubsystemID = ''0x004f'', generations = [''v3'']\<rparr>,
      \<lparr>pciDeviceID = ''0x005e'', pciSubsystemID = [], generations = [''v4'', ''v4lite'']\<rparr>,
      \<lparr>pciDeviceID = ''0x0063'', pciSubsystemID = [], generations = [''v5lite'', ''v5litepod'']\<rparr>,
      \<lparr>pciDeviceID = ''0x0062'', pciSubsystemID = [], generations = [''v5p'']\<rparr>,
      \<lparr>pciDeviceID = ''0x006f'', pciSubsystemID = [], generations = [''v6e'']\<rparr>]"

definition isValidTPUGeneration :: "string \<Rightarrow> bool" where
  "isValidTPUGeneration v =
     list_ex (\<lambda>family. list_ex (\<lambda>generation. generation = v) (generations family)) tpuGenerationFamilies"

text \<open>The loop over the families: \<open>continue\<close> on a mismatch, the first match is returned.\<close>

fun generation_of_ids :: "tpuGenerationFamily list \<Rightarrow> string \<Rightarrow> string \<Rightarrow> string option" where
  "generation_of_ids [] device subsystem = None"
| "generation_of_ids (family # rest) device subsystem =
     (if pciDeviceID family \<noteq> device then generation_of_ids rest device subsystem
      else if pciSubsystemID family \<noteq> [] \<and> pciSubsystemID family \<noteq> subsystem
      then generation_of_ids rest device subsystem
      else Some (generations family ! 0))"

definition tpuGenerationFromPCIIDs :: "string \<Rightarrow> string \<Rightarrow> string option" where
  "tpuGenerationFromPCIIDs device subsystem = generation_of_ids tpuGenerationFamilies device subsystem"

section \<open>The accelerator label\<close>

text \<open>\<open>^tpu\d+[a-z]?$\<close>\<close>

definition acceleratorRegex :: regex where
  "acceleratorRegex =
     Seq (Lit ''tpu'') (Seq (Many1 digit_class) (Opt (Class ''abcdefghijklmnopqrstuvwxyz'')))"

text \<open>\<open>^tpu-v\d+([ep]?-slice)?((?:-lite)?-(device|podslice))?$\<close>\<close>

definition pastAcceleratorRegex :: regex where
  "pastAcceleratorRegex =
     Seq (Lit ''tpu-v'') (Seq (Many1 digit_class)
       (Seq (Opt (Seq (Opt (Class ''ep'')) (Lit ''-slice'')))
            (Opt (Seq (Opt (Lit ''-lite'')) (Seq (Lit ''-'') (Alt (Lit ''device'') (Lit ''podslice'')))))))"

text \<open>
  The \<open>switch\<close> of \<open>AcceleratorGen\<close>: the first regular expression that matches decides.
  \<open>strings.Split(accelerator, "-")[1]\<close> exists because the matched string contains a dash.
\<close>

definition pastGen :: "string \<Rightarrow> string" where
  "pastGen accelerator =
     (let gen = split_on CHR ''-'' accelerator ! 1;
          gen = (if Contains accelerator ''lite'' then gen @ ''lite'' else gen);
          gen = (if HasPrefix gen ''v5'' \<and> Contains accelerator ''podslice'' then gen @ ''pod'' else gen)
      in gen)"

definition checkGen :: "string \<Rightarrow> string result" where
  "checkGen gen =
     (if \<not> isValidTPUGeneration gen then Inl (Errorf ''invalid TPU generation: %s'' [gen]) else Inr gen)"

definition AcceleratorGen :: "string \<Rightarrow> string result" where
  "AcceleratorGen accelerator =
     (if MatchString acceleratorRegex accelerator then checkGen accelerator
      else if MatchString pastAcceleratorRegex accelerator
      then if accelerator = ''tpu-v4-device'' \<or> accelerator = ''tpu-v4-lite-podslice''
           then Inl (Errorf ''no such accelerator type: %s'' [accelerator])
           else checkGen (pastGen accelerator)
      else Inl (Errorf ''invalid accelerator type: %v'' [accelerator]))"

section \<open>Which generations there are\<close>

definition valid_generations :: "string list" where
  "valid_generations = [''v3'', ''v4'', ''v4lite'', ''v5lite'', ''v5litepod'', ''v5p'', ''v6e'']"

lemma isValidTPUGeneration_iff: "isValidTPUGeneration g \<longleftrightarrow> g \<in> set valid_generations"
  by (auto simp: isValidTPUGeneration_def tpuGenerationFamilies_def valid_generations_def)

lemma tpuGenerationFromPCIIDs_valid:
  "tpuGenerationFromPCIIDs d s = Some g \<Longrightarrow> isValidTPUGeneration g"
  by (auto simp: tpuGenerationFromPCIIDs_def tpuGenerationFamilies_def isValidTPUGeneration_iff
      valid_generations_def split: if_splits)

lemma checkGen_Inr_iff [simp]: "checkGen g = Inr g' \<longleftrightarrow> g' = g \<and> isValidTPUGeneration g"
  by (auto simp: checkGen_def)

lemma AcceleratorGen_valid: "AcceleratorGen a = Inr g \<Longrightarrow> isValidTPUGeneration g"
  by (auto simp: AcceleratorGen_def split: if_splits)

section \<open>The accelerator labels the driver accepts\<close>

text \<open>
  Every label \<open>AcceleratorGen\<close> accepts, with the generation it returns. The regular expression
  describes infinitely many labels; the table of families leaves these.
\<close>

definition accelerator_table :: "(string \<times> string) list" where
  "accelerator_table =
     [(''tpu-v3'', ''v3''), (''tpu-v3-slice'', ''v3''), (''tpu-v3-device'', ''v3''),
      (''tpu-v3-podslice'', ''v3''), (''tpu-v3-slice-device'', ''v3''), (''tpu-v3-slice-podslice'', ''v3''),
      (''tpu-v4'', ''v4''), (''tpu-v4-slice'', ''v4''), (''tpu-v4-podslice'', ''v4''),
      (''tpu-v4-slice-device'', ''v4''), (''tpu-v4-slice-podslice'', ''v4''),
      (''tpu-v4-lite-device'', ''v4lite''), (''tpu-v4-slice-lite-device'', ''v4lite''),
      (''tpu-v4-slice-lite-podslice'', ''v4lite''),
      (''tpu-v5-lite-device'', ''v5lite''), (''tpu-v5-slice-lite-device'', ''v5lite''),
      (''tpu-v5-lite-podslice'', ''v5litepod''), (''tpu-v5-slice-lite-podslice'', ''v5litepod''),
      (''tpu-v5p-slice'', ''v5p''), (''tpu-v5p-slice-device'', ''v5p''),
      (''tpu-v6e-slice'', ''v6e''), (''tpu-v6e-slice-device'', ''v6e''),
      (''tpu-v6e-slice-podslice'', ''v6e'')]"

text \<open>The two optional groups of the regular expression, as the strings they can match.\<close>

definition slice_parts :: "string list" where
  "slice_parts = [[], ''-slice'', ''e-slice'', ''p-slice'']"

definition form_parts :: "string list" where
  "form_parts = [[], ''-device'', ''-podslice'', ''-lite-device'', ''-lite-podslice'']"

lemma past_lang:
  "a \<in> lang pastAcceleratorRegex \<longleftrightarrow>
     (\<exists>ds x y. a = ''tpu-v'' @ ds @ x @ y \<and> ds \<noteq> [] \<and> list_all is_digit ds \<and>
        x \<in> set slice_parts \<and> y \<in> set form_parts)"
proof -
  have x: "x \<in> lang (Opt (Seq (Opt (Class ''ep'')) (Lit ''-slice''))) \<longleftrightarrow> x \<in> set slice_parts" for x
    by (auto simp: slice_parts_def)
  have y: "y \<in> lang (Opt (Seq (Opt (Lit ''-lite'')) (Seq (Lit ''-'') (Alt (Lit ''device'') (Lit ''podslice'')))))
      \<longleftrightarrow> y \<in> set form_parts" for y
  proof
    assume "y \<in> set form_parts"
    moreover have "\<forall>y \<in> set form_parts.
      MatchString (Opt (Seq (Opt (Lit ''-lite'')) (Seq (Lit ''-'') (Alt (Lit ''device'') (Lit ''podslice''))))) y"
      by code_simp
    ultimately show "y \<in> lang (Opt (Seq (Opt (Lit ''-lite'')) (Seq (Lit ''-'') (Alt (Lit ''device'') (Lit ''podslice'')))))"
      unfolding MatchString_lang by blast
  qed (auto simp: form_parts_def)
  have d: "ds \<in> lang (Many1 digit_class) \<longleftrightarrow> ds \<noteq> [] \<and> list_all is_digit ds" for ds
    by (auto simp: list_all_iff subset_iff digit_class_set)
  show ?thesis
    unfolding pastAcceleratorRegex_def lang.simps(5) [of "Lit ''tpu-v''"]
      lang.simps(5) [of "Many1 digit_class"]
      lang.simps(5) [of "Opt (Seq (Opt (Class ''ep'')) (Lit ''-slice''))"] mem_Collect_eq x y d
    by (auto simp: lang.simps(1); blast)
qed

lemma hd_split_on: "hd (split_on c s) = takeWhile (\<lambda>x. x \<noteq> c) s"
  by (induction s) (auto split: list.splits)

lemma digits_no_dash: "list_all is_digit ds \<Longrightarrow> \<forall>c\<in>set ds. c \<noteq> CHR ''-''"
  using digit_not_sign by (auto simp: list_all_iff)

text \<open>The generation of a label is \<open>v\<close>, the digits, and a rest that starts with no digit.\<close>

lemma pastGen_shape:
  assumes "list_all is_digit ds" and "x \<in> set slice_parts" and "y \<in> set form_parts"
  obtains z where "pastGen (''tpu-v'' @ ds @ x @ y) = CHR ''v'' # ds @ z" "z = [] \<or> \<not> is_digit (hd z)"
proof -
  let ?a = "''tpu-v'' @ ds @ x @ y"
  have "?a = ''tpu'' @ CHR ''-'' # CHR ''v'' # ds @ x @ y" by simp
  then have "split_on CHR ''-'' ?a = ''tpu'' # split_on CHR ''-'' (CHR ''v'' # ds @ x @ y)"
    by (simp only:) (rule split_on_append, simp)
  then have "split_on CHR ''-'' ?a ! 1 = hd (split_on CHR ''-'' (CHR ''v'' # ds @ x @ y))"
    by (simp add: hd_conv_nth del: split_on.simps)
  also have "\<dots> = CHR ''v'' # ds @ takeWhile (\<lambda>c. c \<noteq> CHR ''-'') (x @ y)"
    unfolding hd_split_on using digits_no_dash [OF assms(1)] by (simp add: takeWhile_append2)
  finally have gen: "split_on CHR ''-'' ?a ! 1 = CHR ''v'' # ds @ takeWhile (\<lambda>c. c \<noteq> CHR ''-'') (x @ y)" .
  have e: "takeWhile (\<lambda>c. c \<noteq> CHR ''-'') (x @ y) \<in> {[], ''e'', ''p''}"
    using assms(2,3) by (auto simp: slice_parts_def form_parts_def)
  have z: "e' @ l \<noteq> [] \<Longrightarrow> \<not> is_digit (hd (e' @ l))"
    if "e' \<in> {[], ''e'', ''p''}" "l \<in> {[], ''lite'', ''pod'', ''litepod''}" for e' l
    using that by (auto simp: is_digit_of_char)
  define w where "w = takeWhile (\<lambda>c. c \<noteq> CHR ''-'') (x @ y)"
  define l where "l = (if Contains ?a ''lite'' then ''lite'' else [])"
  define p where "p = (if HasPrefix (CHR ''v'' # ds @ w @ l) ''v5'' \<and> Contains ?a ''podslice'' then ''pod'' else [])"
  have "pastGen ?a = CHR ''v'' # ds @ (w @ l @ p)"
    unfolding pastGen_def Let_def gen w_def [symmetric] l_def p_def by simp
  moreover have "l @ p \<in> {[], ''lite'', ''pod'', ''litepod''}"
    by (simp add: l_def p_def)
  ultimately show thesis
    using that z [OF e [folded w_def], of "l @ p"] by blast
qed

lemma accelerator_table_complete:
  "list_all (\<lambda>(a, g). AcceleratorGen a = Inr g) accelerator_table"
  by code_simp

lemma accelerator_table_sound:
  "list_all (\<lambda>ds. list_all (\<lambda>x. list_all (\<lambda>y.
     (case AcceleratorGen (''tpu-v'' @ ds @ x @ y) of
        Inl _ \<Rightarrow> True | Inr g \<Rightarrow> List.member accelerator_table (''tpu-v'' @ ds @ x @ y, g)))
     form_parts) slice_parts) [''3'', ''4'', ''5'', ''6'']"
  by code_simp

lemma AcceleratorGen_table: "AcceleratorGen a = Inr g \<longleftrightarrow> (a, g) \<in> set accelerator_table"
proof
  assume ok: "AcceleratorGen a = Inr g"
  have "\<not> MatchString acceleratorRegex a"
  proof
    assume m: "MatchString acceleratorRegex a"
    with ok have "a \<in> set valid_generations"
      by (simp add: AcceleratorGen_def isValidTPUGeneration_iff)
    then show False using m
      by (auto simp: MatchString_lang acceleratorRegex_def valid_generations_def)
  qed
  with ok have m: "MatchString pastAcceleratorRegex a" and v: "isValidTPUGeneration (pastGen a)"
    by (auto simp: AcceleratorGen_def split: if_splits)
  from m obtain ds x y where a: "a = ''tpu-v'' @ ds @ x @ y" "list_all is_digit ds"
    "x \<in> set slice_parts" "y \<in> set form_parts"
    by (auto simp: MatchString_lang past_lang)
  from pastGen_shape [OF a(2-4)] obtain z
    where z: "pastGen a = CHR ''v'' # ds @ z" "z = [] \<or> \<not> is_digit (hd z)"
    unfolding a(1) by blast
  have "ds = takeWhile is_digit (tl (pastGen a))"
    using takeWhile_append_stop [OF a(2) z(2)] z(1) by simp
  moreover have "\<forall>g \<in> set valid_generations. takeWhile is_digit (tl g) \<in> set [''3'', ''4'', ''5'', ''6'']"
    by code_simp
  ultimately have "ds \<in> set [''3'', ''4'', ''5'', ''6'']"
    using v by (simp add: isValidTPUGeneration_iff)
  then show "(a, g) \<in> set accelerator_table"
    using accelerator_table_sound a ok unfolding list_all_iff by fastforce
next
  assume "(a, g) \<in> set accelerator_table"
  then show "AcceleratorGen a = Inr g"
    using accelerator_table_complete by (auto simp: list_all_iff)
qed

section \<open>The two lists of generations agree\<close>

text \<open>
  The table of hardware.go and the \<open>switch\<close> of \<open>wrap\<close> in util.go are written independently;
  the driver relies on every generation the first admits being handled by the second.
\<close>

lemma wrap_valid_ok:
  "isValidTPUGeneration g \<Longrightarrow> length ds = 3 \<Longrightarrow> \<exists>w. wrap g ds = Inr w"
  by (auto simp: isValidTPUGeneration_iff valid_generations_def wrap_def wrapLitePod_def)

lemma wrap_ok_valid: "wrap g ds = Inr w \<Longrightarrow> isValidTPUGeneration g"
  by (auto simp: isValidTPUGeneration_iff valid_generations_def wrap_def split: if_splits)

section \<open>Properties\<close>

text \<open>\<open>AcceleratorGen\<close> accepts exactly the labels of \<open>accelerator_table\<close> and
  returns the generation listed there: the regular expressions, the two excluded labels, the
  \<open>lite\<close>/\<open>pod\<close> suffixes and the table of families together leave these 23 labels, and no label of
  the new form \<open>tpu<n>\<close>.\<close>

theorem AcceleratorGen_characterised:
  "AcceleratorGen a = Inr g \<longleftrightarrow> (a, g) \<in> set accelerator_table"
  by (rule AcceleratorGen_table)

text \<open>The \<open>switch\<close> of \<open>wrap\<close> handles exactly the generations of
  \<open>tpuGenerationFamilies\<close>: on three dimensions it returns a value iff \<open>isValidTPUGeneration\<close>
  holds, so no generation the table admits reaches its error branch.\<close>

theorem wrap_agrees_with_families:
  "(\<exists>w. wrap g [a, b, c] = Inr w) \<longleftrightarrow> isValidTPUGeneration g"
  using wrap_valid_ok [of g "[a, b, c]"] wrap_ok_valid by auto

text \<open>The generations of the table are exactly those \<open>AcceleratorGen\<close> returns for
  some label, so the vocabulary the PCI ids resolve to and the one of the labels is the same and
  the cross-check of \<open>completeLabelsFromHardware\<close> compares like with like.\<close>

theorem generations_are_label_generations:
  "isValidTPUGeneration g \<longleftrightarrow> (\<exists>a. AcceleratorGen a = Inr g)"
proof
  assume "isValidTPUGeneration g"
  then have "g \<in> set (map snd accelerator_table)"
    by (auto simp: isValidTPUGeneration_iff valid_generations_def accelerator_table_def)
  then show "\<exists>a. AcceleratorGen a = Inr g"
    by (auto simp: AcceleratorGen_table)
qed (auto dest: AcceleratorGen_valid)

text \<open>The first match in the table of families is the only one: a generation is
  read from the PCI ids iff some family has that device id and either no subsystem id or that one,
  and it is the family's first generation. The order of the table does not matter.\<close>

theorem tpuGenerationFromPCIIDs_unique_family:
  "tpuGenerationFromPCIIDs device subsystem = Some g \<longleftrightarrow>
     (\<exists>family \<in> set tpuGenerationFamilies. pciDeviceID family = device \<and>
        (pciSubsystemID family = [] \<or> pciSubsystemID family = subsystem) \<and>
        g = generations family ! 0)"
  by (auto simp: tpuGenerationFromPCIIDs_def tpuGenerationFamilies_def)

end
