(* ===== verification/Envs.thy ===== *)
theory Envs
  imports Generations
begin

text \<open>
  \<open>InitEnvs\<close> (util.go): the environment variables a container that is given TPUs starts with.
  The map the source fills in place is threaded through as a value. \<open>$NODE_IP\<close>, which the
  source reads from the process environment, is the argument \<open>nodeIPEnv\<close>.
\<close>

record InitEnvOptions =
  Accelerator :: string
  Topology_opt :: string
  EnableICIResiliency :: string
  ChipCount_opt :: i64
  AcceleratorCount :: i64
  RequestedChipCount :: i64
  SubSliceTopology :: string
  IsPriviledged :: bool
  VisibleChipIds :: "string list"
  EnableDeviceSpreading :: bool
  NumaNodeIds :: "string list"

definition twist :: string where
  "twist = ''false''"

definition ICIResiliencyEnv :: string where
  "ICIResiliencyEnv = ''ENABLE_ICI_RESILIENCY''"

text \<open>\<open>GetEnvName\<close>: an empty variable counts as unset.\<close>

definition GetEnvName :: "strmap \<Rightarrow> string \<Rightarrow> string result" where
  "GetEnvName environ envName =
     (if get environ envName = [] then Inl (Errorf ''empty %s environment variable'' [envName])
      else Inr (get environ envName))"

definition addPodsliceOrSliceEnvs ::
  "string \<Rightarrow> string \<Rightarrow> i64 \<Rightarrow> i64 list \<Rightarrow> strmap \<Rightarrow> strmap result" where
  "addPodsliceOrSliceEnvs tpuGen enableICIResiliency requestedChipCount topologyDims envs =
     (case calculateHostBounds requestedChipCount topologyDims of
        Inl e \<Rightarrow> Inl e
      | Inr hostBounds \<Rightarrow>
     (case getChipsPerHostBounds requestedChipCount of
        Inl e \<Rightarrow> Inl e
      | Inr chipsPerHostBounds \<Rightarrow>
     (case wrap tpuGen topologyDims of
        Inl e \<Rightarrow> Inl e
      | Inr wrapVal \<Rightarrow>
          (let envs = (if (HasPrefix tpuGen ''v4'' \<or> HasPrefix tpuGen ''v5p'') \<and> cubeOrLarger topologyDims
                       then envs(ICIResiliencyEnv \<mapsto>
                              (if ToLower enableICIResiliency = ''false'' then ''false'' else ''true''))
                       else envs)
           in Inr (envs(''TPU_TOPOLOGY_ALT'' \<mapsto> twist, ''ALT'' \<mapsto> twist,
                        ''TPU_TOPOLOGY_WRAP'' \<mapsto> wrapVal, ''WRAP'' \<mapsto> wrapVal,
                        ''HOST_BOUNDS'' \<mapsto> hostBounds, ''TPU_HOST_BOUNDS'' \<mapsto> hostBounds,
                        ''CHIPS_PER_HOST_BOUNDS'' \<mapsto> chipsPerHostBounds,
                        ''TPU_CHIPS_PER_HOST_BOUNDS'' \<mapsto> chipsPerHostBounds))))))"

definition addSingleHostEnvs :: "strmap \<Rightarrow> strmap" where
  "addSingleHostEnvs envs = envs(''TPU_WORKER_ID'' \<mapsto> ''0'', ''TPU_WORKER_HOSTNAMES'' \<mapsto> ''localhost'')"

text \<open>The topology the variables describe: the requested subslice if it is valid, else the node's.\<close>

definition effective_topology :: "InitEnvOptions \<Rightarrow> string" where
  "effective_topology opts =
     (case IsValidSubSliceTopology (Topology_opt opts) (SubSliceTopology opts) of
        Inr True \<Rightarrow> SubSliceTopology opts
      | _ \<Rightarrow> Topology_opt opts)"

text \<open>
  The block \<open>if topology != ""\<close>: the parsed dimensions (\<open>nil\<close> when the topology is not known)
  and the two variables it sets.
\<close>

definition topology_envs :: "string \<Rightarrow> string \<Rightarrow> strmap \<Rightarrow> (i64 list \<times> strmap) result" where
  "topology_envs tpuGen topology envs =
     (if topology = [] then Inr ([], envs)
      else (case getTopologyDims topology of
          Inl e \<Rightarrow> Inl e
        | Inr topologyDims \<Rightarrow>
            (case convertAcceleratorType tpuGen topologyDims of
               Inl e \<Rightarrow> Inl e
             | Inr acceleratorTypeConverted \<Rightarrow>
                 Inr (topologyDims, envs(''TPU_TOPOLOGY'' \<mapsto> topology,
                                         ''TPU_ACCELERATOR_TYPE'' \<mapsto> acceleratorTypeConverted)))))"

definition host_envs :: "strmap \<Rightarrow> InitEnvOptions \<Rightarrow> strmap \<Rightarrow> strmap" where
  "host_envs environ opts envs =
     (let envs = (case GetEnvName environ ''NODE_IP'' of
                    Inl _ \<Rightarrow> envs
                  | Inr nodeIp \<Rightarrow> envs(''VBAR_CONTROL_SERVICE_URL'' \<mapsto> nodeIp @ '':8353''));
          envs = (if EnableDeviceSpreading opts \<and> IsPriviledged opts \<and> 0 < length (VisibleChipIds opts)
                  then envs(''TPU_VISIBLE_CHIPS'' \<mapsto> join '','' (VisibleChipIds opts)) else envs)
      in if 0 < length (NumaNodeIds opts)
         then envs(''WORKLOAD_NIC_PREFERRED_NUMA'' \<mapsto> join '','' (NumaNodeIds opts)) else envs)"

definition InitEnvs :: "strmap \<Rightarrow> InitEnvOptions \<Rightarrow> strmap result" where
  "InitEnvs environ opts =
     (case AcceleratorGen (Accelerator opts) of
        Inl e \<Rightarrow> Inl e
      | Inr tpuGen \<Rightarrow>
     (let topology = effective_topology opts in
      case topology_envs tpuGen topology [''TPU_SKIP_MDS_QUERY'' \<mapsto> ''true''] of
        Inl e \<Rightarrow> Inl e
      | Inr (topologyDims, envs) \<Rightarrow>
     (let envs = host_envs environ opts envs in
      case (if isPodslice (Accelerator opts) \<and> topology \<noteq> []
            then addPodsliceOrSliceEnvs tpuGen (EnableICIResiliency opts) (RequestedChipCount opts) topologyDims envs
            else Inr envs) of
        Inl e \<Rightarrow> Inl e
      | Inr envs \<Rightarrow>
     (case isSingleHost (ChipCount_opt opts) topologyDims of
        Inl e \<Rightarrow> Inl e
      | Inr singleHost \<Rightarrow> Inr (if singleHost then addSingleHostEnvs envs else envs)))))"

section \<open>Cores of a slice\<close>

text \<open>The specification behind \<open>numCores\<close>: cores per chip by generation.\<close>

definition cores_per_chip :: "string \<Rightarrow> int" where
  "cores_per_chip g = (if g \<in> set [''v3'', ''v4'', ''v5p''] then 2 else 1)"

lemma one_core_generations:
  "isValidTPUGeneration g \<Longrightarrow> (Contains g ''lite'' \<or> Contains g ''v6e'') \<longleftrightarrow> cores_per_chip g = 1"
proof -
  have "\<forall>g \<in> set valid_generations. (Contains g ''lite'' \<or> Contains g ''v6e'') \<longleftrightarrow> cores_per_chip g = 1"
    by code_simp
  then show "isValidTPUGeneration g \<Longrightarrow> ?thesis" by (simp add: isValidTPUGeneration_iff)
qed

lemma numCores_ok:
  assumes g: "isValidTPUGeneration g" and ds: "\<forall>d\<in>set ds. 0 < sint d" "dims_prod ds \<le> 2 ^ 20"
  shows "numCores g ds = Inr (i64_of (cores_per_chip g * dims_prod ds))"
proof -
  have tc: "calculateTotalChips ds = Inr (i64_of (dims_prod ds))"
    using ds by (rule calculateTotalChips_ok)
  show ?thesis
  proof (cases "cores_per_chip g = 1")
    case True
    then show ?thesis using one_core_generations [OF g] tc by (simp add: numCores_def)
  next
    case False
    then have "cores_per_chip g = 2" by (simp add: cores_per_chip_def split: if_splits)
    moreover have "i64_of (dims_prod ds) * 2 = i64_of (2 * dims_prod ds)"
      by (simp add: mult.commute)
    ultimately show ?thesis using one_core_generations [OF g] tc False by (simp add: numCores_def)
  qed
qed

lemma convertAcceleratorType_ok:
  "isValidTPUGeneration g \<Longrightarrow> \<forall>d\<in>set ds. 0 < sint d \<Longrightarrow> dims_prod ds \<le> 2 ^ 20 \<Longrightarrow>
     convertAcceleratorType g ds = Inr (g @ ''-'' @ Itoa (i64_of (cores_per_chip g * dims_prod ds)))"
  by (simp add: convertAcceleratorType_def numCores_ok)

lemma convertAcceleratorType_Inr_prod:
  "convertAcceleratorType g ds = Inr t \<Longrightarrow> dims_prod ds \<le> 2 ^ 20"
  by (auto simp: convertAcceleratorType_def numCores_def calculateTotalChips_iff split: sum.splits)

section \<open>When the variables can be computed\<close>

text \<open>The topology block succeeds iff the topology is unknown or describes at most \<open>2 ^ 20\<close> chips.\<close>

lemma topology_envs_unknown [simp]: "topology_envs g [] envs = Inr ([], envs)"
  by (simp add: topology_envs_def)

lemma topology_envs_iff:
  assumes "isValidTPUGeneration g" and "t \<noteq> []"
  shows "topology_envs g t envs = Inr (ds, envs') \<longleftrightarrow>
    getTopologyDims t = Inr ds \<and> dims_prod ds \<le> 2 ^ 20 \<and>
    envs' = envs(''TPU_TOPOLOGY'' \<mapsto> t,
      ''TPU_ACCELERATOR_TYPE'' \<mapsto> g @ ''-'' @ Itoa (i64_of (cores_per_chip g * dims_prod ds)))"
proof (cases "getTopologyDims t")
  case (Inl e)
  with assms show ?thesis by (simp add: topology_envs_def)
next
  case (Inr ds')
  then have pos: "\<forall>d\<in>set ds'. 0 < sint d" using getTopologyDims_shape by blast
  show ?thesis
  proof (cases "dims_prod ds' \<le> 2 ^ 20")
    case True
    with assms Inr pos show ?thesis by (auto simp: topology_envs_def convertAcceleratorType_ok)
  next
    case False
    then have "\<exists>e. convertAcceleratorType g ds' = Inl e"
      using convertAcceleratorType_Inr_prod [of g ds'] by (cases "convertAcceleratorType g ds'") auto
    with False assms Inr show ?thesis by (auto simp: topology_envs_def)
  qed
qed

lemma podslice_envs_ok:
  assumes "isValidTPUGeneration g" and "length ds = 3"
  shows "(\<exists>envs'. addPodsliceOrSliceEnvs g ici n ds envs = Inr envs') \<longleftrightarrow> n \<in> {1, 2, 4, 8}"
proof -
  obtain w where "wrap g ds = Inr w" using wrap_valid_ok assms by blast
  with assms(2) show ?thesis
    by (auto simp: addPodsliceOrSliceEnvs_def calculateHostBounds_def getChipsPerHostBounds_def Let_def
        requestedChipCountToChipsPerDimNumaAligned_def)
qed

lemma isSingleHost_ok:
  "\<forall>d\<in>set ds. 0 < sint d \<Longrightarrow> dims_prod ds \<le> 2 ^ 20 \<Longrightarrow>
     isSingleHost n ds = Inr (sint n = dims_prod ds)"
proof -
  assume "\<forall>d\<in>set ds. 0 < sint d" and "dims_prod ds \<le> 2 ^ 20"
  then have "calculateTotalChips ds = Inr (i64_of (dims_prod ds))"
    and "sint (i64_of (dims_prod ds)) = dims_prod ds"
    using calculateTotalChips_ok calculateTotalChips_iff by blast+
  then show ?thesis by (auto simp: isSingleHost_def sint_eq_iff [symmetric])
qed

text \<open>The dimensions the rest of \<open>InitEnvs\<close> works with: none when the topology is unknown.\<close>

definition known_dims :: "string \<Rightarrow> i64 list" where
  "known_dims t = (case getTopologyDims t of Inl _ \<Rightarrow> [] | Inr ds \<Rightarrow> ds)"

lemma known_dims_unknown [simp]: "known_dims [] = []"
  by (auto simp: known_dims_def getTopologyDims_empty split: sum.splits)

lemma known_dims_pos: "\<forall>d\<in>set (known_dims t). 0 < sint d"
  using getTopologyDims_shape by (cases "getTopologyDims t") (auto simp: known_dims_def)

lemma topology_envs_Inr:
  assumes "isValidTPUGeneration g" and "topology_envs g t envs = Inr (ds, envs')"
  shows "ds = known_dims t \<and> dims_prod ds \<le> 2 ^ 20 \<and> (t \<noteq> [] \<longrightarrow> getTopologyDims t = Inr ds) \<and>
    envs' = (if t = [] then envs else envs(''TPU_TOPOLOGY'' \<mapsto> t,
      ''TPU_ACCELERATOR_TYPE'' \<mapsto> g @ ''-'' @ Itoa (i64_of (cores_per_chip g * dims_prod ds))))"
proof (cases "t = []")
  case True
  with assms(2) show ?thesis by simp
next
  case False
  with assms show ?thesis by (auto simp: topology_envs_iff known_dims_def)
qed

definition podslice_step :: "InitEnvOptions \<Rightarrow> string \<Rightarrow> i64 list \<Rightarrow> strmap \<Rightarrow> strmap result" where
  "podslice_step opts g ds envs =
     (if isPodslice (Accelerator opts) \<and> effective_topology opts \<noteq> []
      then addPodsliceOrSliceEnvs g (EnableICIResiliency opts) (RequestedChipCount opts) ds envs
      else Inr envs)"

text \<open>The one inversion every property of \<open>InitEnvs\<close> starts from.\<close>

lemma InitEnvs_Inr:
  assumes "InitEnvs environ opts = Inr envs"
  obtains g ds envs1 envs2 where
    "AcceleratorGen (Accelerator opts) = Inr g"
    "topology_envs g (effective_topology opts) [''TPU_SKIP_MDS_QUERY'' \<mapsto> ''true''] = Inr (ds, envs1)"
    "podslice_step opts g ds (host_envs environ opts envs1) = Inr envs2"
    "envs = (if sint (ChipCount_opt opts) = dims_prod ds then addSingleHostEnvs envs2 else envs2)"
proof -
  from assms obtain g where g: "AcceleratorGen (Accelerator opts) = Inr g"
    by (auto simp: InitEnvs_def split: sum.splits)
  from assms g obtain ds envs1 where t:
    "topology_envs g (effective_topology opts) [''TPU_SKIP_MDS_QUERY'' \<mapsto> ''true''] = Inr (ds, envs1)"
    by (auto simp: InitEnvs_def Let_def split: sum.splits)
  from assms g t obtain envs2 where p: "podslice_step opts g ds (host_envs environ opts envs1) = Inr envs2"
    by (auto simp: InitEnvs_def Let_def podslice_step_def split: sum.splits)
  have sh: "isSingleHost (ChipCount_opt opts) ds = Inr (sint (ChipCount_opt opts) = dims_prod ds)"
    using topology_envs_Inr [OF AcceleratorGen_valid [OF g] t] known_dims_pos
    by (intro isSingleHost_ok) auto
  from assms g t p sh
  have "envs = (if sint (ChipCount_opt opts) = dims_prod ds then addSingleHostEnvs envs2 else envs2)"
    by (auto simp: InitEnvs_def Let_def podslice_step_def split: if_splits sum.splits)
  with g t p show thesis by (rule that)
qed

lemma podslice_step_ok_iff:
  assumes "isValidTPUGeneration g" and "effective_topology opts \<noteq> [] \<longrightarrow> length ds = 3"
  shows "(\<exists>envs'. podslice_step opts g ds envs = Inr envs') \<longleftrightarrow>
    (isPodslice (Accelerator opts) \<and> effective_topology opts \<noteq> [] \<longrightarrow> RequestedChipCount opts \<in> {1, 2, 4, 8})"
  using podslice_envs_ok [of g ds "EnableICIResiliency opts" "RequestedChipCount opts" envs] assms
  by (auto simp: podslice_step_def)

lemma InitEnvs_ok:
  assumes g: "AcceleratorGen (Accelerator opts) = Inr g"
    and t: "topology_envs g (effective_topology opts) [''TPU_SKIP_MDS_QUERY'' \<mapsto> ''true''] = Inr (ds, envs1)"
    and p: "podslice_step opts g ds (host_envs environ opts envs1) = Inr envs2"
  shows "\<exists>envs. InitEnvs environ opts = Inr envs"
proof -
  have "isSingleHost (ChipCount_opt opts) ds = Inr (sint (ChipCount_opt opts) = dims_prod ds)"
    using topology_envs_Inr [OF AcceleratorGen_valid [OF g] t] known_dims_pos
    by (intro isSingleHost_ok) auto
  with g t p show ?thesis by (simp add: InitEnvs_def podslice_step_def Let_def)
qed

text \<open>Variables the later blocks do not touch.\<close>

lemma host_envs_frame:
  "k \<notin> set [''VBAR_CONTROL_SERVICE_URL'', ''TPU_VISIBLE_CHIPS'', ''WORKLOAD_NIC_PREFERRED_NUMA''] \<Longrightarrow>
     host_envs environ opts envs k = envs k"
  by (auto simp: host_envs_def Let_def split: sum.splits)

lemma podslice_step_frame:
  "podslice_step opts g ds envs = Inr envs' \<Longrightarrow>
   k \<notin> set [ICIResiliencyEnv, ''TPU_TOPOLOGY_ALT'', ''ALT'', ''TPU_TOPOLOGY_WRAP'', ''WRAP'', ''HOST_BOUNDS'',
     ''TPU_HOST_BOUNDS'', ''CHIPS_PER_HOST_BOUNDS'', ''TPU_CHIPS_PER_HOST_BOUNDS''] \<Longrightarrow> envs' k = envs k"
  by (auto simp: podslice_step_def addPodsliceOrSliceEnvs_def Let_def split: if_splits sum.splits)

text \<open>A v6e machine with eight chips, as \<open>NewTPUManager\<close> describes it to \<open>InitEnvs\<close>.\<close>

definition v6e_options :: InitEnvOptions where
  "v6e_options = \<lparr>Accelerator = ''tpu-v6e-slice'', Topology_opt = ''2x4'', EnableICIResiliency = [],
     ChipCount_opt = 8, AcceleratorCount = 8, RequestedChipCount = 8, SubSliceTopology = [],
     IsPriviledged = False, VisibleChipIds = [], EnableDeviceSpreading = False, NumaNodeIds = []\<rparr>"

lemma InitEnvs_v6e: "is_ok (InitEnvs Map.empty v6e_options)"
  by code_simp

lemma v6e_options_facts:
  "sint (ChipCount_opt v6e_options) = dims_prod (known_dims (effective_topology v6e_options))"
  "effective_topology v6e_options = ''2x4''"
  "dims_prod (known_dims (effective_topology v6e_options)) = 8"
  "AcceleratorGen (Accelerator v6e_options) = Inr ''v6e''"
  by code_simp+

section \<open>Properties\<close>

text \<open>C37 (error). \<open>InitEnvs\<close> returns an environment exactly when the accelerator label is accepted,
  the topology it uses is unknown or parses to at most \<open>2 ^ 20\<close> chips, and, for a slice whose topology
  is known, the chip count is 1, 2, 4 or 8. No other branch can fail: the wrap-around strings, the
  chips per host and the single host test are total under these conditions.\<close>

theorem InitEnvs_succeeds_iff:
  "is_ok (InitEnvs environ opts) \<longleftrightarrow>
     is_ok (AcceleratorGen (Accelerator opts)) \<and>
     (effective_topology opts = [] \<or>
        (\<exists>ds. getTopologyDims (effective_topology opts) = Inr ds \<and> dims_prod ds \<le> 2 ^ 20)) \<and>
     (isPodslice (Accelerator opts) \<and> effective_topology opts \<noteq> [] \<longrightarrow>
        RequestedChipCount opts \<in> {1, 2, 4, 8})"
  (is "?ok \<longleftrightarrow> ?gen \<and> ?topo \<and> ?count")
proof
  assume ?ok
  then obtain envs where "InitEnvs environ opts = Inr envs" by (auto simp: result_simps)
  then show "?gen \<and> ?topo \<and> ?count"
  proof (rule InitEnvs_Inr)
    fix g ds envs1 envs2
    assume a: "AcceleratorGen (Accelerator opts) = Inr g"
      "topology_envs g (effective_topology opts) [''TPU_SKIP_MDS_QUERY'' \<mapsto> ''true''] = Inr (ds, envs1)"
      "podslice_step opts g ds (host_envs environ opts envs1) = Inr envs2"
    note g = AcceleratorGen_valid [OF a(1)] and t = topology_envs_Inr [OF AcceleratorGen_valid [OF a(1)] a(2)]
    from t have len: "effective_topology opts \<noteq> [] \<longrightarrow> length ds = 3"
      using getTopologyDims_shape by blast
    have ?count
      using podslice_step_ok_iff [OF g len] a(3) by blast
    with a(1) t show ?thesis by auto
  qed
next
  assume r: "?gen \<and> ?topo \<and> ?count"
  then obtain g where g: "AcceleratorGen (Accelerator opts) = Inr g" by (auto simp: result_simps)
  from r obtain ds envs1 where
    t: "topology_envs g (effective_topology opts) [''TPU_SKIP_MDS_QUERY'' \<mapsto> ''true''] = Inr (ds, envs1)"
    using topology_envs_iff [OF AcceleratorGen_valid [OF g]] by (cases "effective_topology opts = []") auto
  have "effective_topology opts \<noteq> [] \<longrightarrow> length ds = 3"
    using topology_envs_Inr [OF AcceleratorGen_valid [OF g] t] getTopologyDims_shape by blast
  then obtain envs2 where "podslice_step opts g ds (host_envs environ opts envs1) = Inr envs2"
    using podslice_step_ok_iff [OF AcceleratorGen_valid [OF g]] r by blast
  with g t show ?ok using InitEnvs_ok by (auto simp: result_simps)
qed

lemma InitEnvs_succeeds_iff_witness:
  "\<not> is_ok (InitEnvs Map.empty (v6e_options\<lparr>RequestedChipCount := 3\<rparr>))"
proof -
  let ?o = "v6e_options\<lparr>RequestedChipCount := 3\<rparr>"
  have "isPodslice (Accelerator ?o) \<and> effective_topology ?o \<noteq> [] \<and> RequestedChipCount ?o \<notin> {1, 2, 4, 8}"
    by code_simp
  then show ?thesis by (simp only: InitEnvs_succeeds_iff) blast
qed

text \<open>The single host variables are present exactly when the node's chip count is
  the product of the dimensions of the topology in use; with an unknown topology the product is
  1, so only a one-chip node is then declared a single host.\<close>

theorem InitEnvs_single_host_envs:
  assumes "InitEnvs environ opts = Inr envs"
  shows "(envs ''TPU_WORKER_ID'', envs ''TPU_WORKER_HOSTNAMES'') =
    (if sint (ChipCount_opt opts) = dims_prod (known_dims (effective_topology opts))
     then (Some ''0'', Some ''localhost'') else (None, None))"
  using assms
proof (rule InitEnvs_Inr)
  fix g ds envs1 envs2
  assume a: "AcceleratorGen (Accelerator opts) = Inr g"
    "topology_envs g (effective_topology opts) [''TPU_SKIP_MDS_QUERY'' \<mapsto> ''true''] = Inr (ds, envs1)"
    "podslice_step opts g ds (host_envs environ opts envs1) = Inr envs2"
    and envs: "envs = (if sint (ChipCount_opt opts) = dims_prod ds then addSingleHostEnvs envs2 else envs2)"
  note t = topology_envs_Inr [OF AcceleratorGen_valid [OF a(1)] a(2)]
  have "envs2 k = None" if "k = ''TPU_WORKER_ID'' \<or> k = ''TPU_WORKER_HOSTNAMES''" for k
    using that t podslice_step_frame [OF a(3), of k] host_envs_frame [of k environ opts envs1]
    by (auto simp: ICIResiliencyEnv_def)
  then show ?thesis using t envs by (simp add: addSingleHostEnvs_def)
qed

lemma InitEnvs_single_host_envs_witness:
  "\<exists>envs. InitEnvs Map.empty v6e_options = Inr envs \<and>
     envs ''TPU_WORKER_ID'' = Some ''0'' \<and> envs ''TPU_WORKER_HOSTNAMES'' = Some ''localhost''"
proof -
  obtain envs where e: "InitEnvs Map.empty v6e_options = Inr envs"
    using InitEnvs_v6e by (auto simp: result_simps)
  from InitEnvs_single_host_envs [OF e] e show ?thesis by (simp add: v6e_options_facts(1))
qed

text \<open>The accelerator type variable is the generation and the number of cores of the
  whole slice: the chips of the topology in use times two, except for the \<open>lite\<close> generations and
  v6e, which have one core per chip. It is present exactly when the topology is known, and the
  64-bit count has not wrapped.\<close>

theorem InitEnvs_accelerator_type:
  assumes "InitEnvs environ opts = Inr envs"
  shows "\<exists>g cores. AcceleratorGen (Accelerator opts) = Inr g \<and>
    sint cores = cores_per_chip g * dims_prod (known_dims (effective_topology opts)) \<and>
    envs ''TPU_ACCELERATOR_TYPE'' =
      (if effective_topology opts = [] then None else Some (g @ ''-'' @ Itoa cores))"
  using assms
proof (rule InitEnvs_Inr)
  fix g ds envs1 envs2
  assume a: "AcceleratorGen (Accelerator opts) = Inr g"
    "topology_envs g (effective_topology opts) [''TPU_SKIP_MDS_QUERY'' \<mapsto> ''true''] = Inr (ds, envs1)"
    "podslice_step opts g ds (host_envs environ opts envs1) = Inr envs2"
    and envs: "envs = (if sint (ChipCount_opt opts) = dims_prod ds then addSingleHostEnvs envs2 else envs2)"
  note t = topology_envs_Inr [OF AcceleratorGen_valid [OF a(1)] a(2)]
  let ?k = "''TPU_ACCELERATOR_TYPE''" and ?n = "cores_per_chip g * dims_prod ds"
  have "1 \<le> dims_prod ds" using t known_dims_pos by (metis dims_prod_pos list_all_iff)
  then have "sint (i64_of ?n) = ?n"
    using t by (intro sint_i64_of) (auto simp: cores_per_chip_def)
  moreover have "envs ?k = envs1 ?k"
    using envs podslice_step_frame [OF a(3), of ?k] host_envs_frame [of ?k environ opts envs1]
    by (auto simp: ICIResiliencyEnv_def addSingleHostEnvs_def)
  ultimately show ?thesis using a(1) t
    by (intro exI [of _ g] exI [of _ "i64_of ?n"]) auto
qed

lemma InitEnvs_accelerator_type_witness:
  "\<exists>envs. InitEnvs Map.empty v6e_options = Inr envs \<and> (\<exists>cores. sint cores = 8 \<and>
     envs ''TPU_ACCELERATOR_TYPE'' = Some (''v6e-'' @ Itoa cores))"
proof -
  obtain envs where e: "InitEnvs Map.empty v6e_options = Inr envs"
    using InitEnvs_v6e by (auto simp: result_simps)
  from InitEnvs_accelerator_type [OF e] obtain cores where "sint cores = 8"
    and "envs ''TPU_ACCELERATOR_TYPE'' = Some (''v6e-'' @ Itoa cores)"
    by (auto simp: v6e_options_facts(2-4) v6e_options_facts(3) [unfolded v6e_options_facts(2)] cores_per_chip_def)
  with e show ?thesis by blast
qed

end
