(* ===== verification/HostFS.thy ===== *)
theory HostFS
  imports GoNumbers
begin

text \<open>
  What the driver sees of the host's file system. The operating system is a parameter: a
  \<open>hostfs\<close> record says what \<open>os.ReadDir\<close> and \<open>os.ReadFile\<close> return for each path (\<open>None\<close> is an
  error). \<open>filepath.Join\<close> and \<open>filepath.Clean\<close> are modelled in full, since the driver's paths are
  built with them.
\<close>

record dirent =
  Name :: string
  IsDir :: bool

record hostfs =
  ReadDir :: "string \<Rightarrow> dirent list option"
  ReadFile :: "string \<Rightarrow> string option"

text \<open>What \<open>os.Stat\<close> answers: whether the file is a directory, \<open>os.IsNotExist\<close>, or another error.\<close>

datatype stat_result = StatOk bool | StatNotExist | StatError go_error

text \<open>The elements of a path, with \<open>.\<close> and empty ones dropped and \<open>..\<close> resolved; the stack is reversed.\<close>

fun clean_parts :: "bool \<Rightarrow> string list \<Rightarrow> string list \<Rightarrow> string list" where
  "clean_parts rooted stack [] = rev stack"
| "clean_parts rooted stack (p # ps) =
     (if p = [] \<or> p = ''.'' then clean_parts rooted stack ps
      else if p = ''..''
      then (case stack of
              [] \<Rightarrow> clean_parts rooted (if rooted then [] else [''..'']) ps
            | q # qs \<Rightarrow> clean_parts rooted (if q = ''..'' then ''..'' # stack else qs) ps)
      else clean_parts rooted (p # stack) ps)"

definition path_clean :: "string \<Rightarrow> string" where
  "path_clean s =
     (if s = [] then ''.''
      else let rooted = (hd s = CHR ''/'');
               out = join ''/'' (clean_parts rooted [] (split_on CHR ''/'' s))
           in if rooted then CHR ''/'' # out else if out = [] then ''.'' else out)"

text \<open>\<open>filepath.Join\<close> (and \<open>path.Join\<close>): leading empty elements are ignored.\<close>

definition path_join :: "string list \<Rightarrow> string" where
  "path_join elems =
     (let es = dropWhile (\<lambda>e. e = []) elems in if es = [] then [] else path_clean (join ''/'' es))"

lemma path_join_examples:
  "path_join [''/'', ''/dev''] = ''/dev''" "path_join [''/dev'', ''accel0''] = ''/dev/accel0''"
  "path_join [''/tmp/tpu_logs'', ''..'', ''x''] = ''/tmp/x''" "path_join [[], []] = []"
  by code_simp+

end
