(* ===== verification/Hardware.thy ===== *)
theory Hardware
  imports Generations HostFS
begin

text \<open>
  The hardware probe of hardware.go: counting the \<open>/dev/accel<n>\<close> devices, or the
  \<open>/dev/vfio/<group>\<close> devices whose IOMMU group holds a Google TPU, and reading the generation
  from the PCI ids. Counts of directory entries are \<open>nat\<close>.
\<close>

definition devDirectory :: string where
  "devDirectory = ''/dev''"

definition devDirectoryVfio :: string where
  "devDirectoryVfio = ''/dev/vfio''"

definition googlePCIVendorID :: string where
  "googlePCIVendorID = ''0x1ae0''"

definition iommuGroupsPath :: string where
  "iommuGroupsPath = ''sys/kernel/iommu_groups''"

text \<open>\<open>^accel[0-9]+$\<close> and \<open>^[0-9]+$\<close>\<close>

definition accelDeviceRegex :: regex where
  "accelDeviceRegex = Seq (Lit ''accel'') (Many1 digit_class)"

definition vfioGroupRegex :: regex where
  "vfioGroupRegex = Many1 digit_class"

definition knownNonTPUGoogleDeviceIDs :: "string list" where
  "knownNonTPUGoogleDeviceIDs = [''0x001f'', ''0x0042'', ''0xabcd'']"

record tpuHardware =
  hwDevDirectory :: string
  hwDeviceRegex :: regex
  hwChipCount :: nat
  hwGeneration :: string

definition countAccelDevices :: "hostfs \<Rightarrow> string \<Rightarrow> nat" where
  "countAccelDevices fs devDir =
     (case ReadDir fs devDir of
        None \<Rightarrow> 0
      | Some entries \<Rightarrow>
          length (filter (\<lambda>entry. \<not> IsDir entry \<and> MatchString accelDeviceRegex (Name entry)) entries))"

text \<open>
  The loop of \<open>tpuGenerationOfIOMMUGroup\<close> over the devices of a group: each \<open>continue\<close> of the
  source is a recursive call, \<open>None\<close> is \<open>("", false)\<close>, \<open>Some gen\<close> is \<open>(gen, true)\<close>, where the
  generation is empty if the ids are not recognised.
\<close>

fun generation_of_devices :: "hostfs \<Rightarrow> string \<Rightarrow> string \<Rightarrow> dirent list \<Rightarrow> string option" where
  "generation_of_devices fs root grp [] = None"
| "generation_of_devices fs root grp (device # rest) =
     (let devicePath = path_join [root, iommuGroupsPath, grp, ''devices'', Name device] in
      case ReadFile fs (path_join [devicePath, ''vendor'']) of
        None \<Rightarrow> generation_of_devices fs root grp rest
      | Some vendor \<Rightarrow>
          if \<not> EqualFold (TrimSpace vendor) googlePCIVendorID
          then generation_of_devices fs root grp rest
          else (case ReadFile fs (path_join [devicePath, ''device'']) of
              None \<Rightarrow> generation_of_devices fs root grp rest
            | Some deviceIDRaw \<Rightarrow>
                (let deviceID = TrimSpace deviceIDRaw in
                 if deviceID \<in> set knownNonTPUGoogleDeviceIDs
                 then generation_of_devices fs root grp rest
                 else (let subsystem = (case ReadFile fs (path_join [devicePath, ''subsystem_device'']) of
                                          None \<Rightarrow> [] | Some s \<Rightarrow> s)
                       in Some (case tpuGenerationFromPCIIDs deviceID (TrimSpace subsystem) of
                                  None \<Rightarrow> [] | Some gen \<Rightarrow> gen)))))"

definition tpuGenerationOfIOMMUGroup :: "hostfs \<Rightarrow> string \<Rightarrow> string \<Rightarrow> string option" where
  "tpuGenerationOfIOMMUGroup fs root grp =
     (case ReadDir fs (path_join [root, iommuGroupsPath, grp, ''devices'']) of
        None \<Rightarrow> None
      | Some devices \<Rightarrow> generation_of_devices fs root grp devices)"

text \<open>The loop of \<open>countVfioTPUDevices\<close>, with its four local variables.\<close>

record vfio_count =
  vcCount :: nat
  vcGeneration :: string
  vcSaw :: bool
  vcMixed :: bool

definition vfio_step :: "hostfs \<Rightarrow> string \<Rightarrow> vfio_count \<Rightarrow> dirent \<Rightarrow> vfio_count" where
  "vfio_step fs root v entry =
     (if IsDir entry \<or> \<not> MatchString vfioGroupRegex (Name entry) then v
      else (case tpuGenerationOfIOMMUGroup fs root (Name entry) of
          None \<Rightarrow> v
        | Some gen \<Rightarrow>
            (let v = v\<lparr>vcCount := vcCount v + 1\<rparr> in
             if \<not> vcSaw v then v\<lparr>vcGeneration := gen, vcSaw := True\<rparr>
             else if vcGeneration v \<noteq> gen then v\<lparr>vcMixed := True\<rparr>
             else v)))"

definition vfio_init :: vfio_count where
  "vfio_init = \<lparr>vcCount = 0, vcGeneration = [], vcSaw = False, vcMixed = False\<rparr>"

definition countVfioTPUDevices :: "hostfs \<Rightarrow> string \<Rightarrow> nat \<times> string" where
  "countVfioTPUDevices fs root =
     (case ReadDir fs (path_join [root, devDirectoryVfio]) of
        None \<Rightarrow> (0, [])
      | Some entries \<Rightarrow>
          (let v = foldl (vfio_step fs root) vfio_init entries
           in if vcMixed v then (vcCount v, []) else (vcCount v, vcGeneration v)))"

definition probeTPUHardware :: "hostfs \<Rightarrow> string \<Rightarrow> tpuHardware result" where
  "probeTPUHardware fs root =
     (let count = countAccelDevices fs (path_join [root, devDirectory]) in
      if 0 < count
      then Inr \<lparr>hwDevDirectory = devDirectory, hwDeviceRegex = accelDeviceRegex,
                hwChipCount = count, hwGeneration = []\<rparr>
      else (case countVfioTPUDevices fs root of
          (count, generation) \<Rightarrow>
            if 0 < count
            then Inr \<lparr>hwDevDirectory = devDirectoryVfio, hwDeviceRegex = vfioGroupRegex,
                      hwChipCount = count, hwGeneration = generation\<rparr>
            else Inl (ErrWrap ''no TPU device found in %s or %s: %w'' [devDirectory, devDirectoryVfio]
                        ErrNoTPUDetected)))"

section \<open>The groups the probe counts\<close>

text \<open>
  The specification of the vfio count: the generations of the TPU groups, in directory order; the
  count is their number and the generation the one they agree on.
\<close>

definition tpu_groups :: "hostfs \<Rightarrow> string \<Rightarrow> dirent list \<Rightarrow> string list" where
  "tpu_groups fs root entries =
     List.map_filter (\<lambda>entry.
       if IsDir entry \<or> \<not> MatchString vfioGroupRegex (Name entry) then None
       else tpuGenerationOfIOMMUGroup fs root (Name entry)) entries"

definition vfio_of :: "string list \<Rightarrow> vfio_count" where
  "vfio_of gens =
     \<lparr>vcCount = length gens, vcGeneration = (case gens of [] \<Rightarrow> [] | g # _ \<Rightarrow> g), vcSaw = (gens \<noteq> []),
      vcMixed = (\<exists>g\<in>set gens. g \<noteq> hd gens)\<rparr>"

lemma tpu_groups_snoc:
  "tpu_groups fs root (entries @ [e]) = tpu_groups fs root entries @ tpu_groups fs root [e]"
  by (simp add: tpu_groups_def List.map_filter_def)

lemma vfio_step_of:
  "vfio_step fs root (vfio_of gens) e = vfio_of (gens @ tpu_groups fs root [e])"
proof (cases "IsDir e \<or> \<not> MatchString vfioGroupRegex (Name e)")
  case True
  then show ?thesis by (auto simp: vfio_step_def tpu_groups_def List.map_filter_def)
next
  case False
  then show ?thesis
    by (cases "tpuGenerationOfIOMMUGroup fs root (Name e)"; cases gens)
      (auto simp: vfio_step_def tpu_groups_def List.map_filter_def vfio_of_def Let_def)
qed

lemma vfio_loop: "foldl (vfio_step fs root) vfio_init entries = vfio_of (tpu_groups fs root entries)"
proof (induction entries rule: rev_induct)
  case Nil
  then show ?case by (simp add: vfio_init_def vfio_of_def tpu_groups_def List.map_filter_def)
next
  case (snoc e entries)
  then show ?case by (simp add: vfio_step_of flip: tpu_groups_snoc)
qed

lemma generation_of_devices_valid:
  "generation_of_devices fs root grp devices = Some g \<Longrightarrow> g = [] \<or> isValidTPUGeneration g"
  by (induction devices)
    (auto simp: Let_def split: option.splits if_splits dest: tpuGenerationFromPCIIDs_valid)

lemma tpu_groups_valid: "g \<in> set (tpu_groups fs root entries) \<Longrightarrow> g = [] \<or> isValidTPUGeneration g"
  using generation_of_devices_valid
  by (fastforce simp: tpu_groups_def List.map_filter_def tpuGenerationOfIOMMUGroup_def
      split: option.splits if_splits)

lemma countVfioTPUDevices_eq:
  "ReadDir fs (path_join [root, devDirectoryVfio]) = Some entries \<Longrightarrow>
     countVfioTPUDevices fs root =
       (let gens = tpu_groups fs root entries
        in (length gens, if \<forall>g\<in>set gens. g = hd gens then (case gens of [] \<Rightarrow> [] | g # _ \<Rightarrow> g) else []))"
  by (auto simp: countVfioTPUDevices_def vfio_loop vfio_of_def Let_def)

lemma vfio_generation_valid:
  assumes "countVfioTPUDevices fs root = (n, g)"
  shows "g = [] \<or> isValidTPUGeneration g"
proof (cases "ReadDir fs (path_join [root, devDirectoryVfio])")
  case None
  with assms show ?thesis by (simp add: countVfioTPUDevices_def)
next
  case (Some entries)
  have "(case gs of [] \<Rightarrow> [] | g # _ \<Rightarrow> g) \<in> insert [] (set gs)" for gs :: "string list"
    by (cases gs) auto
  with assms countVfioTPUDevices_eq [OF Some] show ?thesis
    using tpu_groups_valid [of _ fs root entries]
    by (auto simp: Let_def split: if_splits)
qed

section \<open>Properties\<close>

text \<open>The vfio probe counts exactly the entries of \<open>/dev/vfio\<close> that are named by
  digits and whose IOMMU group holds a Google device not on the exclusion list; it reports a
  generation only if all of those groups report the same one.\<close>

theorem countVfioTPUDevices_counts_tpu_groups:
  assumes "ReadDir fs (path_join [root, devDirectoryVfio]) = Some entries"
  shows "countVfioTPUDevices fs root =
    (let gens = tpu_groups fs root entries
     in (length gens, if \<forall>g\<in>set gens. g = hd gens then (case gens of [] \<Rightarrow> [] | g # _ \<Rightarrow> g) else []))"
  using assms by (rule countVfioTPUDevices_eq)

text \<open>A host with one v6e chip in IOMMU group 5 and a NIC in group 7, for the witnesses.\<close>

definition example_host :: hostfs where
  "example_host = \<lparr>
     ReadDir = map_of
       [(''/dev'', [\<lparr>Name = ''null'', IsDir = False\<rparr>, \<lparr>Name = ''vfio'', IsDir = True\<rparr>]),
        (''/dev/vfio'', [\<lparr>Name = ''5'', IsDir = False\<rparr>, \<lparr>Name = ''7'', IsDir = False\<rparr>, \<lparr>Name = ''vfio'', IsDir = False\<rparr>]),
        (''/sys/kernel/iommu_groups/5/devices'', [\<lparr>Name = ''0000:00:05.0'', IsDir = False\<rparr>]),
        (''/sys/kernel/iommu_groups/7/devices'', [\<lparr>Name = ''0000:00:07.0'', IsDir = False\<rparr>])],
     ReadFile = map_of
       [(''/sys/kernel/iommu_groups/5/devices/0000:00:05.0/vendor'', ''0x1ae0'' @ [CHR 0x0A]),
        (''/sys/kernel/iommu_groups/5/devices/0000:00:05.0/device'', ''0x006f'' @ [CHR 0x0A]),
        (''/sys/kernel/iommu_groups/7/devices/0000:00:07.0/vendor'', ''0x1ae0'' @ [CHR 0x0A]),
        (''/sys/kernel/iommu_groups/7/devices/0000:00:07.0/device'', ''0x0042'' @ [CHR 0x0A])]\<rparr>"

lemma example_host_vfio:
  "ReadDir example_host (path_join [''/'', devDirectoryVfio]) =
     Some [\<lparr>Name = ''5'', IsDir = False\<rparr>, \<lparr>Name = ''7'', IsDir = False\<rparr>, \<lparr>Name = ''vfio'', IsDir = False\<rparr>]"
  by code_simp

lemma countVfioTPUDevices_counts_tpu_groups_witness:
  "countVfioTPUDevices example_host ''/'' = (1, ''v6e'')"
proof -
  have g: "tpu_groups example_host ''/''
      [\<lparr>Name = ''5'', IsDir = False\<rparr>, \<lparr>Name = ''7'', IsDir = False\<rparr>, \<lparr>Name = ''vfio'', IsDir = False\<rparr>] = [''v6e'']"
    by code_simp
  show ?thesis
    using countVfioTPUDevices_counts_tpu_groups [OF example_host_vfio] by (simp add: g)
qed

text \<open>The probe fails only for want of TPU devices, and then with an error in which
  \<open>errors.Is\<close> finds \<open>errNoTPUDetected\<close>, so the caller's retry loop recognises it; it succeeds
  as soon as one of the two counts is positive, and the accel devices win.\<close>

theorem probeTPUHardware_outcome:
  "(case probeTPUHardware fs root of
      Inl e \<Rightarrow> errors_Is e ErrNoTPUDetected \<and>
        countAccelDevices fs (path_join [root, devDirectory]) = 0 \<and> fst (countVfioTPUDevices fs root) = 0
    | Inr hw \<Rightarrow> 0 < hwChipCount hw \<and>
        (if 0 < countAccelDevices fs (path_join [root, devDirectory])
         then hwDevDirectory hw = devDirectory \<and> hwGeneration hw = [] \<and>
              hwChipCount hw = countAccelDevices fs (path_join [root, devDirectory])
         else hwDevDirectory hw = devDirectoryVfio \<and>
              (hwChipCount hw, hwGeneration hw) = countVfioTPUDevices fs root))"
  by (auto simp: probeTPUHardware_def Let_def split: prod.split)

text \<open>A generation the probe reports is one the label parser knows: it can be compared
  with the result of \<open>AcceleratorGen\<close>.\<close>

theorem probeTPUHardware_generation:
  assumes "probeTPUHardware fs root = Inr hw" and "hwGeneration hw \<noteq> []"
  shows "\<exists>a. AcceleratorGen a = Inr (hwGeneration hw)"
proof -
  obtain n g where v: "countVfioTPUDevices fs root = (n, g)" by (cases "countVfioTPUDevices fs root")
  with assms have "hwGeneration hw = g"
    by (auto simp: probeTPUHardware_def Let_def split: if_splits)
  with vfio_generation_valid [OF v] assms(2) have "isValidTPUGeneration (hwGeneration hw)" by simp
  then have "hwGeneration hw \<in> set (map snd accelerator_table)"
    by (auto simp: isValidTPUGeneration_iff valid_generations_def accelerator_table_def)
  then show ?thesis by (auto simp: AcceleratorGen_table)
qed

lemma probeTPUHardware_generation_witness: "\<exists>a. AcceleratorGen a = Inr ''v6e''"
proof -
  have "probeTPUHardware example_host ''/'' =
      Inr \<lparr>hwDevDirectory = ''/dev/vfio'', hwDeviceRegex = vfioGroupRegex, hwChipCount = 1, hwGeneration = ''v6e''\<rparr>"
    by code_simp
  from probeTPUHardware_generation [OF this] show ?thesis by simp
qed

end
