(* ===== verification/Labels.thy ===== *)
theory Labels
  imports Hardware
begin

text \<open>
  How the driver learns what TPU the node has (util.go): the canonical labels and their platform
  aliases, the parsers of the metadata formats, the sources in order of precedence, and the
  completion from the probed hardware.
\<close>

section \<open>Labels and aliases\<close>

definition DriverName :: string where
  "DriverName = ''tpu.google.com''"

definition AcceleratorLabel :: string where
  "AcceleratorLabel = DriverName @ ''/accelerator''"

definition AcceleratorCountLabel :: string where
  "AcceleratorCountLabel = DriverName @ ''/chip-count''"

definition TopologyLabel :: string where
  "TopologyLabel = DriverName @ ''/topology''"

definition ICIResiliency :: string where
  "ICIResiliency = DriverName @ ''/ici-resiliency''"

text \<open>The map literal \<open>canonicalLabelAliases\<close>; its keys are distinct.\<close>

definition canonicalLabelAliases :: "(string \<times> string list) list" where
  "canonicalLabelAliases =
     [(AcceleratorLabel, [''cloud.google.com/gke-tpu-accelerator'']),
      (AcceleratorCountLabel, [''cloud.google.com/gke-accelerator-count'']),
      (TopologyLabel, [''cloud.google.com/gke-tpu-topology'']),
      (ICIResiliency, [''cloud.google.com/gke-tpu-ici-resiliency''])]"

text \<open>The inner loop of \<open>normalizeTPULabels\<close>: the first key with a value, then \<open>break\<close>.\<close>

fun first_value :: "strmap \<Rightarrow> string list \<Rightarrow> string option" where
  "first_value labels [] = None"
| "first_value labels (key # keys) =
     (if get labels key \<noteq> [] then Some (get labels key) else first_value labels keys)"

text \<open>
  \<open>range\<close> over a Go map visits its entries in an unspecified order: the order is an argument of
  \<open>normalize_in\<close>, and \<open>normalizeTPULabels\<close> is the run in the order of the literal.
\<close>

definition normalize_in :: "(string \<times> string list) list \<Rightarrow> strmap \<Rightarrow> strmap" where
  "normalize_in order labels =
     foldl (\<lambda>normalized (canonical, aliases).
        case first_value labels (canonical # aliases) of
          None \<Rightarrow> normalized
        | Some value \<Rightarrow> normalized(canonical \<mapsto> value)) Map.empty order"

definition normalizeTPULabels :: "strmap \<Rightarrow> strmap" where
  "normalizeTPULabels labels = normalize_in canonicalLabelAliases labels"

section \<open>Parsers of the metadata formats\<close>

definition parseKubeLabels :: "string \<Rightarrow> strmap" where
  "parseKubeLabels raw =
     foldl (\<lambda>labels pair.
        case split_on CHR ''='' pair of
          [k, v] \<Rightarrow> labels(k \<mapsto> v)
        | _ \<Rightarrow> labels) Map.empty (split_on CHR '','' raw)"

definition parseTpuEnv :: "string \<Rightarrow> strmap" where
  "parseTpuEnv raw =
     foldl (\<lambda>envMap line.
        let line = TrimSpace line in
        if line = [] then envMap
        else (case split_first CHR '':'' line of
            [k, v] \<Rightarrow> envMap(TrimSpace k \<mapsto> Trim (TrimSpace v) [CHR 0x27, CHR 0x22])
          | _ \<Rightarrow> envMap)) Map.empty (split_on CHR 0x0A raw)"

text \<open>The product of the parts of \<open>CHIPS_PER_HOST_BOUNDS\<close> that are numbers; it wraps at 64 bits.\<close>

definition bounds_product :: "string \<Rightarrow> i64" where
  "bounds_product chipsBounds =
     foldl (\<lambda>product part. case Atoi (TrimSpace part) of Inl _ \<Rightarrow> product | Inr val \<Rightarrow> product * val)
       1 (split_on CHR '','' chipsBounds)"

text \<open>The \<open>switch\<close> from the accelerator type of tpu-env to the naming used by the labels.\<close>

definition accelerator_of_type :: "string \<Rightarrow> string" where
  "accelerator_of_type accelTypeLower =
     (if HasPrefix accelTypeLower ''v5litepod'' then ''tpu-v5-lite-podslice''
      else if HasPrefix accelTypeLower ''v5lite'' then ''tpu-v5-lite-device''
      else if HasPrefix accelTypeLower ''v5p'' then ''tpu-v5p-slice''
      else if HasPrefix accelTypeLower ''v6e'' then ''tpu-v6e-slice''
      else if HasPrefix accelTypeLower ''v4'' then ''tpu-v4-podslice''
      else if HasPrefix accelTypeLower ''v3'' then ''tpu-v3-device''
      else accelTypeLower)"

text \<open>\<open>None\<close> is the \<open>nil\<close> map.\<close>

definition mapTpuEnvToLabels :: "strmap \<Rightarrow> strmap option" where
  "mapTpuEnvToLabels envMap =
     (let accelType = get envMap ''ACCELERATOR_TYPE'';
          accelType = (if accelType = [] then get envMap ''TYPE'' else accelType)
      in if accelType = [] then None
         else (let accelerator = accelerator_of_type (ToLower accelType);
                   chipCount = (case envMap ''CHIPS_PER_HOST_BOUNDS'' of
                                  None \<Rightarrow> ''4''
                                | Some chipsBounds \<Rightarrow> Itoa (bounds_product chipsBounds));
                   topology = (if get envMap ''TOPOLOGY'' = [] then ''2x2'' else get envMap ''TOPOLOGY'')
               in Some [AcceleratorLabel \<mapsto> accelerator, AcceleratorCountLabel \<mapsto> chipCount,
                        TopologyLabel \<mapsto> topology, ICIResiliency \<mapsto> get envMap ''ENABLE_ICI_RESILIENCY'']))"

text \<open>Reading a \<open>nil\<close> map is reading an empty one.\<close>

definition of_nil :: "strmap option \<Rightarrow> strmap" where
  "of_nil m = (case m of None \<Rightarrow> Map.empty | Some l \<Rightarrow> l)"

section \<open>The sources\<close>

record Flags =
  nodeName :: string
  cdiRoot :: string
  kubeletPluginsDirectoryPath :: string
  consumableShares :: string
  tpuAccelerator :: string
  tpuChipCount :: string
  tpuTopology :: string
  tpuICIResiliency :: string
  tpuEnvFilePath :: string

text \<open>
  The metadata server as the driver meets it: whether the host is a GCE instance, and what the two
  queries of each polling attempt return until the 15 second limit ends the polling.
\<close>

record metadata_server =
  OnGCE :: bool
  attempts :: "(string option \<times> string option) list"   \<comment> \<open>kube-labels, tpu-env\<close>

text \<open>\<open>coreclient\<close>: reading the labels of a Node object, or no client.\<close>

record Config =
  flags :: Flags
  coreclient :: "(string \<Rightarrow> strmap result) option"

definition labelsFromConfig :: "Flags \<Rightarrow> strmap result" where
  "labelsFromConfig f =
     (let labels = normalizeTPULabels
            [AcceleratorLabel \<mapsto> tpuAccelerator f, AcceleratorCountLabel \<mapsto> tpuChipCount f,
             TopologyLabel \<mapsto> tpuTopology f, ICIResiliency \<mapsto> tpuICIResiliency f]
      in if get labels AcceleratorLabel = [] then Inl (Errorf ''TPU accelerator not configured'' [])
         else Inr labels)"

definition labelsFromTPUEnvFile :: "hostfs \<Rightarrow> string \<Rightarrow> strmap result" where
  "labelsFromTPUEnvFile fs path =
     (if path = [] then Inl (Errorf ''no tpu-env file configured'' [])
      else (case ReadFile fs path of
          None \<Rightarrow> Inl (ErrIO path)
        | Some raw \<Rightarrow>
            (let labels = mapTpuEnvToLabels (parseTpuEnv raw)
             in if get (of_nil labels) AcceleratorLabel = []
                then Inl (Errorf ''%s does not describe a TPU'' [path])
                else Inr (of_nil labels))))"

text \<open>One polling attempt: \<open>Some labels\<close> is \<open>done\<close>.\<close>

definition metadata_attempt :: "string option \<Rightarrow> string option \<Rightarrow> strmap option" where
  "metadata_attempt kubeLabelsRaw tpuEnvRaw =
     (let parsed = (case kubeLabelsRaw of
                      None \<Rightarrow> Map.empty
                    | Some raw \<Rightarrow> normalizeTPULabels (parseKubeLabels raw))
      in if get parsed AcceleratorLabel \<noteq> [] then Some parsed
         else (case tpuEnvRaw of
             None \<Rightarrow> None
           | Some raw \<Rightarrow>
               (case mapTpuEnvToLabels (parseTpuEnv raw) of
                  None \<Rightarrow> None
                | Some mapped \<Rightarrow> if get mapped AcceleratorLabel \<noteq> [] then Some mapped else None)))"

fun metadata_poll :: "(string option \<times> string option) list \<Rightarrow> strmap result" where
  "metadata_poll [] = Inl (ErrWrap ''failed to get node labels from metadata server: %w'' []
                             (Errorf ''context deadline exceeded'' []))"
| "metadata_poll ((kube, tpuenv) # rest) =
     (case metadata_attempt kube tpuenv of
        Some labels \<Rightarrow> Inr labels
      | None \<Rightarrow> metadata_poll rest)"

definition getNodeLabelsFromMetadata :: "metadata_server \<Rightarrow> strmap result" where
  "getNodeLabelsFromMetadata mds =
     (if \<not> OnGCE mds then Inl (Errorf ''not running on a GCE instance'' [])
      else metadata_poll (attempts mds))"

definition labelsFromNode :: "Config \<Rightarrow> strmap result" where
  "labelsFromNode config =
     (case coreclient config of
        None \<Rightarrow> Inl (Errorf ''no Kubernetes client available'' [])
      | Some getNode \<Rightarrow>
          if nodeName (flags config) = [] then Inl (Errorf ''no Kubernetes client available'' [])
          else (case getNode (nodeName (flags config)) of
              Inl e \<Rightarrow> Inl e
            | Inr nodeLabels \<Rightarrow> Inr (normalizeTPULabels nodeLabels)))"

text \<open>A source is its name and what it returns; the four sources in order of precedence.\<close>

type_synonym tpuLabelSource = "string \<times> strmap result"

definition defaultTPULabelSources :: "hostfs \<Rightarrow> metadata_server \<Rightarrow> Config \<Rightarrow> tpuLabelSource list" where
  "defaultTPULabelSources fs mds config =
     [(''driver configuration'', labelsFromConfig (flags config)),
      (''tpu-env file'', labelsFromTPUEnvFile fs (tpuEnvFilePath (flags config))),
      (''GCE metadata server'', getNodeLabelsFromMetadata mds),
      (''Kubernetes node object'', labelsFromNode config)]"

section \<open>Completion from the hardware\<close>

definition completeLabelsFromHardware :: "strmap \<Rightarrow> tpuHardware \<Rightarrow> strmap" where
  "completeLabelsFromHardware labels hardware =
     (let chipCount = nat_digits (hwChipCount hardware);
          labels = (if get labels AcceleratorCountLabel = []
                    then labels(AcceleratorCountLabel \<mapsto> chipCount) else labels)
      in if get labels TopologyLabel = []
         then (let topology = singleHostTopology (of_nat (hwChipCount hardware))
               in if topology \<noteq> [] then labels(TopologyLabel \<mapsto> topology) else labels)
         else labels)"

fun find_source :: "tpuLabelSource list \<Rightarrow> strmap" where
  "find_source [] = Map.empty"
| "find_source ((name, found) # rest) =
     (case found of
        Inl _ \<Rightarrow> find_source rest
      | Inr labels \<Rightarrow> if get labels AcceleratorLabel = [] then find_source rest else labels)"

definition getTPUNodeLabelsFromSources :: "tpuLabelSource list \<Rightarrow> tpuHardware \<Rightarrow> strmap result" where
  "getTPUNodeLabelsFromSources sources hardware =
     (let labels = completeLabelsFromHardware (find_source sources) hardware
      in if get labels AcceleratorLabel = []
         then Inl (Errorf ''found %d TPU chips%s in %s but no source knows their type, set --tpu-accelerator or the %s node label''
                     [nat_digits (hwChipCount hardware), hwGeneration hardware, hwDevDirectory hardware, AcceleratorLabel])
         else Inr labels)"

definition getTPUNodeLabels ::
  "hostfs \<Rightarrow> metadata_server \<Rightarrow> Config \<Rightarrow> tpuHardware \<Rightarrow> strmap result" where
  "getTPUNodeLabels fs mds config hardware =
     getTPUNodeLabelsFromSources (defaultTPULabelSources fs mds config) hardware"

section \<open>Normalization\<close>

lemmas label_defs = AcceleratorLabel_def AcceleratorCountLabel_def TopologyLabel_def ICIResiliency_def
  DriverName_def

lemma labels_distinct [simp]:
  "AcceleratorLabel \<noteq> AcceleratorCountLabel" "AcceleratorCountLabel \<noteq> AcceleratorLabel"
  "AcceleratorLabel \<noteq> TopologyLabel" "TopologyLabel \<noteq> AcceleratorLabel"
  "AcceleratorLabel \<noteq> ICIResiliency" "ICIResiliency \<noteq> AcceleratorLabel"
  "AcceleratorCountLabel \<noteq> TopologyLabel" "TopologyLabel \<noteq> AcceleratorCountLabel"
  "AcceleratorCountLabel \<noteq> ICIResiliency" "ICIResiliency \<noteq> AcceleratorCountLabel"
  "TopologyLabel \<noteq> ICIResiliency" "ICIResiliency \<noteq> TopologyLabel"
  by (simp_all add: label_defs)

lemma canonicalLabelAliases_distinct: "distinct (map fst canonicalLabelAliases)"
  by (simp add: canonicalLabelAliases_def)

lemma normalize_in_lookup:
  assumes "set order \<subseteq> set canonicalLabelAliases"
  shows "normalize_in order labels k =
    (case map_of canonicalLabelAliases k of
       None \<Rightarrow> None
     | Some as \<Rightarrow> if (k, as) \<in> set order then first_value labels (k # as) else None)"
  using assms
proof (induction order rule: rev_induct)
  case Nil
  then show ?case by (simp add: normalize_in_def split: option.split)
next
  case (snoc p order)
  obtain c as where p: "p = (c, as)" by (cases p)
  with snoc.prems have mo: "map_of canonicalLabelAliases c = Some as"
    using canonicalLabelAliases_distinct by simp
  have step: "normalize_in (order @ [p]) labels =
    (case first_value labels (c # as) of None \<Rightarrow> normalize_in order labels
     | Some v \<Rightarrow> (normalize_in order labels)(c \<mapsto> v))"
    unfolding normalize_in_def by (simp add: p del: first_value.simps)
  have IH: "normalize_in order labels k = (case map_of canonicalLabelAliases k of None \<Rightarrow> None
     | Some as \<Rightarrow> if (k, as) \<in> set order then first_value labels (k # as) else None)"
    using snoc by simp
  show ?case
  proof (cases "k = c")
    case True
    then show ?thesis unfolding step using IH mo p
      by (auto split: option.splits)
  next
    case False
    then show ?thesis unfolding step using IH p by (auto split: option.splits)
  qed
qed

lemma normalize_lookup:
  "normalizeTPULabels labels k =
    (case map_of canonicalLabelAliases k of None \<Rightarrow> None | Some as \<Rightarrow> first_value labels (k # as))"
  unfolding normalizeTPULabels_def
  by (subst normalize_in_lookup) (auto split: option.splits dest: map_of_SomeD)

lemma normalize_simps:
  "normalizeTPULabels labels AcceleratorLabel =
     first_value labels [AcceleratorLabel, ''cloud.google.com/gke-tpu-accelerator'']"
  "normalizeTPULabels labels AcceleratorCountLabel =
     first_value labels [AcceleratorCountLabel, ''cloud.google.com/gke-accelerator-count'']"
  "normalizeTPULabels labels TopologyLabel =
     first_value labels [TopologyLabel, ''cloud.google.com/gke-tpu-topology'']"
  "normalizeTPULabels labels ICIResiliency =
     first_value labels [ICIResiliency, ''cloud.google.com/gke-tpu-ici-resiliency'']"
  by (simp_all add: normalize_lookup canonicalLabelAliases_def del: first_value.simps)

lemma first_value_Some: "first_value labels ks = Some v \<Longrightarrow> v \<noteq> [] \<and> v \<in> get labels ` set ks"
  by (induction ks) (auto split: if_splits)

lemma first_value_head: "get labels k \<noteq> [] \<Longrightarrow> first_value labels (k # ks) = Some (get labels k)"
  by simp

lemma first_value_get_normalized:
  assumes "map_of canonicalLabelAliases k = Some as"
  shows "first_value (normalizeTPULabels labels) (k # as) = normalizeTPULabels labels k"
proof -
  have other: "map_of canonicalLabelAliases a = None" if "a \<in> set as" for a
  proof -
    have "\<forall>(k, as) \<in> set canonicalLabelAliases. \<forall>a\<in>set as. map_of canonicalLabelAliases a = None"
      by code_simp
    then show ?thesis using map_of_SomeD [OF assms] that by blast
  qed
  have none: "first_value (normalizeTPULabels labels) as = None"
  proof -
    have "\<forall>a\<in>set as. get (normalizeTPULabels labels) a = []"
      using other by (simp add: get_def normalize_lookup)
    then show ?thesis by (induction as) auto
  qed
  show ?thesis
  proof (cases "normalizeTPULabels labels k")
    case None
    then show ?thesis using none by (simp add: get_def)
  next
    case (Some v)
    moreover from Some have "v \<noteq> []"
      using assms first_value_Some [of labels "k # as" v] by (simp add: normalize_lookup)
    ultimately show ?thesis by (simp add: get_def)
  qed
qed

lemma normalize_idem: "normalizeTPULabels (normalizeTPULabels labels) = normalizeTPULabels labels"
proof
  fix k
  show "normalizeTPULabels (normalizeTPULabels labels) k = normalizeTPULabels labels k"
    using first_value_get_normalized [of k _ labels]
    by (cases "map_of canonicalLabelAliases k") (simp_all add: normalize_lookup)
qed

section \<open>Precedence of the sources\<close>

lemma get_complete_accelerator [simp]:
  "get (completeLabelsFromHardware labels hw) AcceleratorLabel = get labels AcceleratorLabel"
  by (simp add: completeLabelsFromHardware_def Let_def)

lemma find_source_first:
  assumes "sources = skipped @ (name, Inr l) # rest" and "get l AcceleratorLabel \<noteq> []"
    and "\<forall>(_, found) \<in> set skipped. case found of Inl _ \<Rightarrow> True | Inr l \<Rightarrow> get l AcceleratorLabel = []"
  shows "find_source sources = l"
  using assms
  by (induction skipped arbitrary: sources) (auto split: sum.splits)

lemma find_source_known:
  "get (find_source sources) AcceleratorLabel \<noteq> [] \<longleftrightarrow>
     (\<exists>name l. (name, Inr l) \<in> set sources \<and> get l AcceleratorLabel \<noteq> [])"
  by (induction sources rule: find_source.induct) (auto split: sum.splits)

section \<open>Chip counts and types from tpu-env\<close>

lemma accelerator_of_type_known:
  "p \<in> set [''v5lite'', ''v5p'', ''v6e'', ''v4'', ''v3''] \<Longrightarrow> HasPrefix t p \<Longrightarrow>
     accelerator_of_type t \<in> set [''tpu-v5-lite-podslice'', ''tpu-v5-lite-device'', ''tpu-v5p-slice'',
       ''tpu-v6e-slice'', ''tpu-v4-podslice'', ''tpu-v3-device'']"
  unfolding accelerator_of_type_def by auto

lemma known_accelerators_accepted:
  "\<forall>a \<in> set [''tpu-v5-lite-podslice'', ''tpu-v5-lite-device'', ''tpu-v5p-slice'',
     ''tpu-v6e-slice'', ''tpu-v4-podslice'', ''tpu-v3-device'']. is_ok (AcceleratorGen a)"
  by code_simp

lemma unknown_type_unchanged:
  "\<forall>p \<in> set [''v5lite'', ''v5p'', ''v6e'', ''v4'', ''v3'']. \<not> HasPrefix t p \<Longrightarrow> accelerator_of_type t = t"
  unfolding accelerator_of_type_def by (auto simp: prefix_def)

section \<open>The kube-labels format\<close>

lemma split_on_pair:
  "c \<notin> set k \<Longrightarrow> c \<notin> set v \<Longrightarrow> split_on c (k @ c # v) = [k, v]"
  by (simp add: split_on_append split_on_absent)

lemma foldl_map_of_rev: "foldl (\<lambda>m (k, v). m(k \<mapsto> v)) m0 kvs = m0 ++ map_of (rev kvs)"
  by (induction kvs arbitrary: m0) (auto simp: map_add_def fun_eq_iff split: option.splits)

lemma parseKubeLabels_print:
  assumes "kvs \<noteq> []" and "\<forall>(k, v) \<in> set kvs. {CHR ''='', CHR '',''} \<inter> (set k \<union> set v) = {}"
  shows "parseKubeLabels (join '','' (map (\<lambda>(k, v). k @ ''='' @ v) kvs)) = map_of (rev kvs)"
proof -
  have "split_on CHR '','' (join '','' (map (\<lambda>(k, v). k @ ''='' @ v) kvs)) = map (\<lambda>(k, v). k @ ''='' @ v) kvs"
    using assms by (intro split_on_join) auto
  moreover have "foldl (\<lambda>labels pair. case split_on CHR ''='' pair of [k, v] \<Rightarrow> labels(k \<mapsto> v) | _ \<Rightarrow> labels)
      m (map (\<lambda>(k, v). k @ ''='' @ v) kvs) = foldl (\<lambda>m (k, v). m(k \<mapsto> v)) m kvs" for m
    using assms(2)
    by (induction kvs arbitrary: m) (auto simp: split_on_pair split: list.splits)
  ultimately show ?thesis by (simp add: parseKubeLabels_def foldl_map_of_rev)
qed

section \<open>Properties\<close>

text \<open>A normalized label has a value exactly when the canonical key or, failing
  that, its platform alias has a nonempty one, the canonical key winning; labels that are not
  TPU labels are dropped and no label has an empty value.\<close>

theorem normalizeTPULabels_value:
  "normalizeTPULabels labels k = Some v \<longleftrightarrow>
     v \<noteq> [] \<and>
     (\<exists>alias. (k, [alias]) \<in> set canonicalLabelAliases \<and>
        v = (if get labels k \<noteq> [] then get labels k else get labels alias))"
proof -
  have mem: "(k, as) \<in> set canonicalLabelAliases \<longleftrightarrow> map_of canonicalLabelAliases k = Some as" for as
    using canonicalLabelAliases_distinct by simp
  have one: "\<exists>alias. as = [alias]" if "map_of canonicalLabelAliases k = Some as" for as
    using map_of_SomeD [OF that] by (auto simp: canonicalLabelAliases_def)
  show ?thesis
  proof (cases "map_of canonicalLabelAliases k")
    case None
    then show ?thesis by (simp add: normalize_lookup mem)
  next
    case (Some as)
    with one obtain key where "as = [key]" by blast
    with Some show ?thesis by (auto simp: normalize_lookup mem)
  qed
qed

text \<open>The result of \<open>normalizeTPULabels\<close> does not depend on the order in which
  Go's \<open>range\<close> visits the alias map, however often an entry is visited.\<close>

theorem normalize_order_irrelevant:
  assumes "set order = set canonicalLabelAliases"
  shows "normalize_in order labels = normalizeTPULabels labels"
proof
  fix k
  show "normalize_in order labels k = normalizeTPULabels labels k"
    using assms map_of_SomeD [of canonicalLabelAliases k]
    by (subst normalize_in_lookup) (auto simp: normalize_lookup split: option.split)
qed

lemma normalize_order_irrelevant_witness:
  "normalize_in (rev canonicalLabelAliases) [''cloud.google.com/gke-tpu-topology'' \<mapsto> ''2x4''] =
     normalizeTPULabels [''cloud.google.com/gke-tpu-topology'' \<mapsto> ''2x4'']"
  by (rule normalize_order_irrelevant) simp

text \<open>Normalizing normalized labels changes nothing: labels may pass through
  \<open>normalizeTPULabels\<close> any number of times.\<close>

theorem normalizeTPULabels_idempotent:
  "normalizeTPULabels (normalizeTPULabels labels) = normalizeTPULabels labels"
  by (rule normalize_idem)

text \<open>C40 (functional). The first source that knows the accelerator decides: its labels are used,
  completed from the hardware, whatever the earlier sources failed with and whatever the later
  sources say.\<close>

theorem first_knowing_source_wins:
  assumes "\<forall>(_, found) \<in> set skipped. case found of Inl _ \<Rightarrow> True | Inr l \<Rightarrow> get l AcceleratorLabel = []"
    and "get l AcceleratorLabel \<noteq> []"
  shows "getTPUNodeLabelsFromSources (skipped @ (name, Inr l) # rest) hw = Inr (completeLabelsFromHardware l hw)"
  using assms find_source_first [OF refl assms(2,1)]
  by (simp add: getTPUNodeLabelsFromSources_def)

lemma first_knowing_source_wins_witness:
  "getTPUNodeLabelsFromSources
     ([(''a'', Inl (ErrIO ''x'')), (''b'', Inr Map.empty)] @ (''c'', Inr [AcceleratorLabel \<mapsto> ''tpu-v6e-slice'']) # [])
     \<lparr>hwDevDirectory = ''/dev/vfio'', hwDeviceRegex = vfioGroupRegex, hwChipCount = 8, hwGeneration = ''v6e''\<rparr> =
   Inr (completeLabelsFromHardware [AcceleratorLabel \<mapsto> ''tpu-v6e-slice'']
     \<lparr>hwDevDirectory = ''/dev/vfio'', hwDeviceRegex = vfioGroupRegex, hwChipCount = 8, hwGeneration = ''v6e''\<rparr>)"
  by (rule first_knowing_source_wins) auto

text \<open>Node labels are found exactly when some source knows the accelerator; labels that
  are returned have an accelerator that some source gave, and a chip count.\<close>

theorem getTPUNodeLabelsFromSources_outcome:
  "(case getTPUNodeLabelsFromSources sources hw of
      Inl _ \<Rightarrow> \<not> (\<exists>name l. (name, Inr l) \<in> set sources \<and> get l AcceleratorLabel \<noteq> [])
    | Inr labels \<Rightarrow> get labels AcceleratorCountLabel \<noteq> [] \<and> get labels AcceleratorLabel \<noteq> [] \<and>
        (\<exists>name l. (name, Inr l) \<in> set sources \<and> get l AcceleratorLabel \<noteq> []))"
proof -
  have "get (completeLabelsFromHardware l hw) AcceleratorCountLabel \<noteq> []" for l
    by (simp add: completeLabelsFromHardware_def Let_def)
  then show ?thesis
    using find_source_known [of sources]
    by (auto simp: getTPUNodeLabelsFromSources_def)
qed

text \<open>An explicit \<open>--tpu-accelerator\<close> always wins over discovery: with the flag set,
  labels are found whatever the file, the metadata server and the Node object hold, and the
  accelerator is the flag's value.\<close>

theorem configured_accelerator_wins:
  assumes "tpuAccelerator (flags config) \<noteq> []"
  shows "\<exists>labels. getTPUNodeLabels fs mds config hw = Inr labels \<and>
    get labels AcceleratorLabel = tpuAccelerator (flags config)"
proof -
  obtain l where l: "labelsFromConfig (flags config) = Inr l"
    and acc: "get l AcceleratorLabel = tpuAccelerator (flags config)"
    using assms by (simp add: labelsFromConfig_def get_def [of "normalizeTPULabels _"] normalize_simps)
  have "find_source (defaultTPULabelSources fs mds config) = l"
    using assms l acc by (simp add: defaultTPULabelSources_def)
  then show ?thesis
    using assms acc by (simp add: getTPUNodeLabels_def getTPUNodeLabelsFromSources_def)
qed

definition example_flags :: Flags where
  "example_flags = \<lparr>nodeName = ''node-1'', cdiRoot = ''/etc/cdi'',
     kubeletPluginsDirectoryPath = ''/var/lib/kubelet/plugins'', consumableShares = ''4'',
     tpuAccelerator = ''tpu-v6e-slice'', tpuChipCount = [], tpuTopology = [], tpuICIResiliency = [],
     tpuEnvFilePath = ''/etc/tpu/tpu-env''\<rparr>"

lemma configured_accelerator_wins_witness:
  "\<exists>labels. getTPUNodeLabels example_host \<lparr>OnGCE = False, attempts = []\<rparr>
      \<lparr>flags = example_flags, coreclient = None\<rparr>
      \<lparr>hwDevDirectory = ''/dev/vfio'', hwDeviceRegex = vfioGroupRegex, hwChipCount = 1, hwGeneration = ''v6e''\<rparr> =
      Inr labels \<and> get labels AcceleratorLabel = ''tpu-v6e-slice''"
  using configured_accelerator_wins [of "\<lparr>flags = example_flags, coreclient = None\<rparr>"]
  by (simp add: example_flags_def)

text \<open>The accelerator derived from tpu-env is accepted by \<open>AcceleratorGen\<close> exactly
  when the lower-cased type starts with a known generation, or is itself an accepted label (the
  fallback branch).\<close>

theorem accelerator_of_type_accepted:
  "is_ok (AcceleratorGen (accelerator_of_type t)) \<longleftrightarrow>
     (\<exists>p \<in> set [''v5lite'', ''v5p'', ''v6e'', ''v4'', ''v3'']. HasPrefix t p) \<or> is_ok (AcceleratorGen t)"
proof (cases "\<exists>p \<in> set [''v5lite'', ''v5p'', ''v6e'', ''v4'', ''v3'']. HasPrefix t p")
  case True
  then obtain p where "p \<in> set [''v5lite'', ''v5p'', ''v6e'', ''v4'', ''v3'']" "HasPrefix t p" by blast
  from accelerator_of_type_known [OF this] known_accelerators_accepted True show ?thesis by blast
next
  case False
  then show ?thesis using unknown_type_unchanged by metis
qed

text \<open>Labels printed in the \<open>k=v,k=v\<close> format of the metadata server are parsed back,
  the last value of a repeated key winning, when no key or value holds a separator.\<close>

theorem parseKubeLabels_roundtrip:
  assumes "kvs \<noteq> []" and "\<forall>(k, v) \<in> set kvs. {CHR ''='', CHR '',''} \<inter> (set k \<union> set v) = {}"
  shows "parseKubeLabels (join '','' (map (\<lambda>(k, v). k @ ''='' @ v) kvs)) = map_of (rev kvs)"
  using assms by (rule parseKubeLabels_print)

lemma parseKubeLabels_roundtrip_witness:
  "parseKubeLabels (join '','' (map (\<lambda>(k, v). k @ ''='' @ v)
     [(''cloud.google.com/gke-tpu-topology'', ''2x4''), (''zone'', ''a'')])) =
   map_of (rev [(''cloud.google.com/gke-tpu-topology'', ''2x4''), (''zone'', ''a'')])"
  by (rule parseKubeLabels_roundtrip) auto

end
