(* ===== verification/Shares.thy ===== *)
theory Shares
  imports Labels
begin

text \<open>
  Consumable shares (consumable_shares.go, and \<open>isSingleHostNode\<close> of util.go): whether several
  claims may share the chips of the node, and how a published device says so. The state of the
  \<open>ConsumableShares\<close> feature gate is the argument \<open>gate\<close>.
\<close>

definition consumableSharesDisabled :: string where
  "consumableSharesDisabled = ''disabled''"

definition consumableSharesUnlimited :: string where
  "consumableSharesUnlimited = ''unlimited''"

definition sharesCapacityName :: string where
  "sharesCapacityName = ''shares''"

record consumableSharesPolicy =
  enabled :: bool
  unlimited :: bool
  shares :: i64

text \<open>\<open>consumableSharesPolicy{}\<close>\<close>

definition noShares :: consumableSharesPolicy where
  "noShares = \<lparr>enabled = False, unlimited = False, shares = 0\<rparr>"

definition isSingleHostNode :: "strmap \<Rightarrow> bool" where
  "isSingleHostNode nodeLabels =
     (if \<not> isPodslice (get nodeLabels AcceleratorLabel) then True
      else (let topology = get nodeLabels TopologyLabel in
        if topology = [] then False
        else (case getTopologyDims topology of
            Inl _ \<Rightarrow> False
          | Inr topologyDims \<Rightarrow>
              (case ChipCount (get nodeLabels AcceleratorCountLabel) of
                 Inl _ \<Rightarrow> False
               | Inr chipCount \<Rightarrow>
                   (case isSingleHost chipCount topologyDims of
                      Inl _ \<Rightarrow> False
                    | Inr singleHost \<Rightarrow> singleHost)))))"

definition resolveConsumableShares :: "bool \<Rightarrow> string \<Rightarrow> strmap \<Rightarrow> consumableSharesPolicy" where
  "resolveConsumableShares gate flag nodeLabels =
     (if \<not> gate then noShares
      else (let flag = TrimSpace flag in
        if flag = [] \<or> flag = consumableSharesDisabled then noShares
        else if \<not> isSingleHostNode nodeLabels then noShares
        else if flag = consumableSharesUnlimited then noShares\<lparr>enabled := True, unlimited := True\<rparr>
        else (case Atoi flag of
            Inl _ \<Rightarrow> noShares
          | Inr n \<Rightarrow> if sint n \<le> 0 then noShares else noShares\<lparr>enabled := True, shares := n\<rparr>)))"

text \<open>A Go function that returns only an error: \<open>None\<close> is \<open>nil\<close>.\<close>

definition validateConsumableShares :: "bool \<Rightarrow> string \<Rightarrow> go_error option" where
  "validateConsumableShares gate flag =
     (let flag = TrimSpace flag in
      if flag = [] \<or> flag = consumableSharesDisabled then None
      else if \<not> gate
      then Some (Errorf ''--consumable-shares=%q requires feature gate %s (enable it via --feature-gates=%s=true)''
                   [flag, ''ConsumableShares'', ''ConsumableShares''])
      else if flag = consumableSharesUnlimited then None
      else (let bad = Errorf ''invalid value for --consumable-shares: %q (must be %q, %q, or a positive integer)''
                        [flag, consumableSharesDisabled, consumableSharesUnlimited]
            in case Atoi flag of
                 Inl _ \<Rightarrow> Some bad
               | Inr n \<Rightarrow> if sint n \<le> 0 then Some bad else None))"

section \<open>Published devices\<close>

text \<open>The part of the API's \<open>Device\<close> the driver fills; an attribute is an integer or a string.\<close>

datatype DeviceAttribute = IntValue i64 | StringValue string

record CapacityRequestPolicyRange =
  Min :: i64
  Max :: i64
  Step :: i64

record DeviceCapacity =
  Value :: i64
  Default :: i64
  ValidRange :: CapacityRequestPolicyRange

record Device =
  DevName :: string
  Attributes :: "string \<rightharpoonup> DeviceAttribute"
  AllowMultipleAllocations :: "bool option"
  Capacity :: "(string \<rightharpoonup> DeviceCapacity) option"    \<comment> \<open>\<open>None\<close> is the \<open>nil\<close> map\<close>

definition applyConsumableShares :: "Device \<Rightarrow> consumableSharesPolicy \<Rightarrow> Device" where
  "applyConsumableShares dev policy =
     (if \<not> enabled policy then dev
      else (let dev = dev\<lparr>AllowMultipleAllocations := Some True\<rparr> in
        if unlimited policy then dev
        else (let capacity = (case Capacity dev of None \<Rightarrow> Map.empty | Some c \<Rightarrow> c)
              in dev\<lparr>Capacity := Some (capacity(sharesCapacityName \<mapsto>
                   \<lparr>Value = shares policy, Default = 1,
                    ValidRange = \<lparr>Min = 1, Max = shares policy, Step = 1\<rparr>\<rparr>))\<rparr>)))"

section \<open>Lemmas\<close>

lemma ChipCount_Inr_iff: "ChipCount s = Inr n \<longleftrightarrow> Atoi s = Inr n \<and> 0 < sint n"
  by (auto simp: ChipCount_def split: sum.splits)

lemma isSingleHostNode_podslice:
  "isPodslice (get nodeLabels AcceleratorLabel) \<Longrightarrow>
     isSingleHostNode nodeLabels \<longleftrightarrow>
       (\<exists>ds n. getTopologyDims (get nodeLabels TopologyLabel) = Inr ds \<and>
          Atoi (get nodeLabels AcceleratorCountLabel) = Inr n \<and> dims_prod ds \<le> 2 ^ 20 \<and> sint n = dims_prod ds)"
proof -
  assume p: "isPodslice (get nodeLabels AcceleratorLabel)"
  have "isSingleHostNode nodeLabels \<longleftrightarrow>
      (\<exists>ds n. getTopologyDims (get nodeLabels TopologyLabel) = Inr ds \<and>
         ChipCount (get nodeLabels AcceleratorCountLabel) = Inr n \<and> isSingleHost n ds = Inr True)"
    using p by (auto simp: isSingleHostNode_def Let_def getTopologyDims_empty split: sum.splits)
  also have "\<dots> \<longleftrightarrow> (\<exists>ds n. getTopologyDims (get nodeLabels TopologyLabel) = Inr ds \<and>
      Atoi (get nodeLabels AcceleratorCountLabel) = Inr n \<and> dims_prod ds \<le> 2 ^ 20 \<and> sint n = dims_prod ds)"
    using getTopologyDims_shape dims_prod_pos
    by (auto simp: ChipCount_Inr_iff isSingleHost_True_iff list_all_iff) force
  finally show ?thesis .
qed

lemma isSingleHostNode_device:
  "\<not> isPodslice (get nodeLabels AcceleratorLabel) \<Longrightarrow> isSingleHostNode nodeLabels"
  by (simp add: isSingleHostNode_def)

lemma resolve_enabled_iff:
  "enabled (resolveConsumableShares gate flag nodeLabels) \<longleftrightarrow>
     gate \<and> isSingleHostNode nodeLabels \<and>
     (TrimSpace flag = consumableSharesUnlimited \<or> (\<exists>n. Atoi (TrimSpace flag) = Inr n \<and> 0 < sint n))"
proof -
  have "Atoi consumableSharesDisabled = Inr n \<longleftrightarrow> False" for n
    by (simp add: consumableSharesDisabled_def Atoi_def is_digit_of_char)
  then show ?thesis
    by (auto simp: resolveConsumableShares_def Let_def noShares_def consumableSharesUnlimited_def
        consumableSharesDisabled_def split: sum.splits)
qed

lemma validate_None_iff:
  "validateConsumableShares gate flag = None \<longleftrightarrow>
     TrimSpace flag = [] \<or> TrimSpace flag = consumableSharesDisabled \<or>
     gate \<and> (TrimSpace flag = consumableSharesUnlimited \<or> (\<exists>n. Atoi (TrimSpace flag) = Inr n \<and> 0 < sint n))"
  by (auto simp: validateConsumableShares_def Let_def split: sum.splits)

text \<open>The number the driver reads back from a label it completed from the hardware.\<close>

lemma Atoi_nat_digits: "n < 2 ^ 63 \<Longrightarrow> Atoi (nat_digits n) = Inr (of_nat n)"
  using nat_digits_all by (simp add: Atoi_digits)

section \<open>The abstract meaning of the capacity\<close>

text \<open>
  What the API (api/resource/v1/types.go) documents for a device with a capacity that may be allocated
  several times. A claim asks for an amount of the capacity or has no entry for it. Without an
  entry it consumes the default; an amount below the range is rounded up to its minimum, one
  between two steps to the next; an amount above the range cannot be had. A device that does not
  publish the capacity is not for claims that ask for it.
\<close>

definition consumed :: "DeviceCapacity \<Rightarrow> int option \<Rightarrow> int option" where
  "consumed c r =
     (case r of
        None \<Rightarrow> Some (sint (Default c))
      | Some q \<Rightarrow>
          let low = sint (Min (ValidRange c)); step = sint (Step (ValidRange c));
              amount = (if q \<le> low then low else low + ((q - low + step - 1) div step) * step)
          in if amount \<le> sint (Max (ValidRange c)) then Some amount else None)"

definition co_allocatable :: "Device \<Rightarrow> int option list \<Rightarrow> bool" where
  "co_allocatable dev requests =
     ((AllowMultipleAllocations dev \<noteq> Some True \<longrightarrow> length requests \<le> 1) \<and>
      (case (case Capacity dev of None \<Rightarrow> None | Some c \<Rightarrow> c sharesCapacityName) of
         None \<Rightarrow> list_all (\<lambda>r. r = None) requests
       | Some c \<Rightarrow> list_all (\<lambda>r. consumed c r \<noteq> None) requests \<and>
                   sum_list (map (\<lambda>r. the (consumed c r)) requests) \<le> sint (Value c)))"

text \<open>The rules the API documents for a range and its default.\<close>

definition range_valid :: "DeviceCapacity \<Rightarrow> bool" where
  "range_valid c \<longleftrightarrow>
     (let low = sint (Min (ValidRange c)); high = sint (Max (ValidRange c)); step = sint (Step (ValidRange c));
          dflt = sint (Default c) in
      0 \<le> low \<and> low \<le> dflt \<and> dflt \<le> high \<and> high \<le> sint (Value c) \<and>
      step dvd high \<and> step dvd dflt \<and> low + step \<le> sint (Value c))"

section \<open>Properties\<close>

text \<open>A slice node counts as a single host exactly when its topology and chip count
  labels parse and the product of the dimensions, computed without wrapping, is the chip count;
  any other accelerator is a single host by definition.\<close>

theorem isSingleHostNode_iff:
  "isSingleHostNode nodeLabels \<longleftrightarrow>
     (if isPodslice (get nodeLabels AcceleratorLabel)
      then \<exists>ds n. getTopologyDims (get nodeLabels TopologyLabel) = Inr ds \<and>
        Atoi (get nodeLabels AcceleratorCountLabel) = Inr n \<and> dims_prod ds \<le> 2 ^ 20 \<and> sint n = dims_prod ds
      else True)"
  using isSingleHostNode_podslice isSingleHostNode_device by simp

text \<open>Sharing is never enabled on a node that is not a single host or without the feature
  gate, and an enabled policy is either unlimited or has a positive number of shares.\<close>

theorem sharing_only_on_single_hosts:
  assumes "enabled (resolveConsumableShares gate flag nodeLabels)"
  shows "gate \<and> isSingleHostNode nodeLabels \<and>
    (unlimited (resolveConsumableShares gate flag nodeLabels) \<or>
     0 < sint (shares (resolveConsumableShares gate flag nodeLabels)))"
  using assms resolve_enabled_iff [of gate flag nodeLabels]
  by (auto simp: resolveConsumableShares_def Let_def noShares_def split: sum.splits if_splits)

lemma sharing_only_on_single_hosts_witness:
  "isSingleHostNode [AcceleratorLabel \<mapsto> ''tpu-v3-device''] \<and>
   0 < sint (shares (resolveConsumableShares True '' 4 '' [AcceleratorLabel \<mapsto> ''tpu-v3-device'']))"
proof -
  have r: "resolveConsumableShares True '' 4 '' [AcceleratorLabel \<mapsto> ''tpu-v3-device''] =
      \<lparr>enabled = True, unlimited = False, shares = 4\<rparr>"
    by code_simp
  then have "enabled (resolveConsumableShares True '' 4 '' [AcceleratorLabel \<mapsto> ''tpu-v3-device''])" by simp
  from sharing_only_on_single_hosts [OF this] r show ?thesis by simp
qed

text \<open>The startup check and the policy agree: a flag value that passes
  \<open>validateConsumableShares\<close> is only ever ignored because the node is not a single host, so the
  silent fallbacks of \<open>resolveConsumableShares\<close> on a bad number or a closed gate are unreachable.\<close>

theorem validated_flag_is_honoured:
  assumes "validateConsumableShares gate flag = None"
  shows "enabled (resolveConsumableShares gate flag nodeLabels) \<longleftrightarrow>
    TrimSpace flag \<notin> {[], consumableSharesDisabled} \<and> isSingleHostNode nodeLabels"
proof -
  have "Atoi consumableSharesDisabled = Inr n \<longleftrightarrow> False" for n
    by (simp add: consumableSharesDisabled_def Atoi_def is_digit_of_char)
  then show ?thesis
    using assms unfolding resolve_enabled_iff validate_None_iff
    by (auto simp: consumableSharesUnlimited_def consumableSharesDisabled_def)
qed

lemma validated_flag_is_honoured_witness:
  "enabled (resolveConsumableShares True ''unlimited'' [AcceleratorLabel \<mapsto> ''tpu-v3-device''])"
proof -
  have "validateConsumableShares True ''unlimited'' = None" by code_simp
  from validated_flag_is_honoured [OF this, of "[AcceleratorLabel \<mapsto> ''tpu-v3-device'']"]
  show ?thesis by (simp add: TrimSpace_def trim_by_def is_space_def consumableSharesDisabled_def
        isSingleHostNode_def isPodslice_def suffix_def)
qed

text \<open>A node whose chip count and topology no source knew, and whose chips are 1, 2, 4 or
  8, is a single host once its labels are completed from the hardware.\<close>

theorem completed_labels_are_single_host:
  assumes "get labels AcceleratorCountLabel = []" and "get labels TopologyLabel = []"
    and "hwChipCount hw \<in> {1, 2, 4, 8}"
  shows "isSingleHostNode (completeLabelsFromHardware labels hw)"
proof -
  let ?l = "completeLabelsFromHardware labels hw" and ?n = "of_nat (hwChipCount hw) :: i64"
  have "requestedChipCountToChipsPerDimNumaAligned ?n \<noteq> None"
    using assms(3) by (auto simp: requestedChipCountToChipsPerDimNumaAligned_def)
  then obtain ds where ds: "requestedChipCountToChipsPerDimNumaAligned ?n = Some ds" by blast
  then have ne: "singleHostTopology ?n \<noteq> []" by (simp add: singleHostTopology_empty_iff)
  have t: "get ?l TopologyLabel = singleHostTopology ?n"
    using assms ne by (simp add: completeLabelsFromHardware_def Let_def)
  have c: "get ?l AcceleratorCountLabel = nat_digits (hwChipCount hw)"
    using assms by (simp add: completeLabelsFromHardware_def Let_def)
  have "Atoi (nat_digits (hwChipCount hw)) = Inr ?n" using assms(3) by (intro Atoi_nat_digits) auto
  moreover have "dims_prod ds = sint ?n" "dims_prod ds \<le> 2 ^ 20"
    using chips_table_prod [OF ds] assms(3) by auto
  ultimately have "\<exists>ds n. getTopologyDims (get ?l TopologyLabel) = Inr ds \<and>
      Atoi (get ?l AcceleratorCountLabel) = Inr n \<and> dims_prod ds \<le> 2 ^ 20 \<and> sint n = dims_prod ds"
    using getTopologyDims_singleHostTopology [OF ds] t c by auto
  then show ?thesis
    by (cases "isPodslice (get ?l AcceleratorLabel)")
      (simp_all add: isSingleHostNode_podslice isSingleHostNode_device)
qed

lemma completed_labels_are_single_host_witness:
  "isSingleHostNode (completeLabelsFromHardware [AcceleratorLabel \<mapsto> ''tpu-v6e-slice'']
     \<lparr>hwDevDirectory = ''/dev/vfio'', hwDeviceRegex = vfioGroupRegex, hwChipCount = 8, hwGeneration = ''v6e''\<rparr>)"
  by (rule completed_labels_are_single_host) simp_all

text \<open>C36 (refinement). The published capacity means what the flag says. With \<open>n\<close> shares, claims can hold a device
  together iff none asks for more than \<open>n\<close> and the shares they take are at most \<open>n\<close>, where a claim that
  does not ask takes exactly one and any other what it asks for, at least one. An unlimited policy
  allows any number of claims and a disabled one a single claim, none of which may ask for shares.\<close>

theorem published_shares_cap_the_claims:
  assumes "AllowMultipleAllocations dev = None" and "Capacity dev = None"
    and "enabled policy \<and> \<not> unlimited policy \<longrightarrow> 0 < sint (shares policy)"
  shows "co_allocatable (applyConsumableShares dev policy) requests \<longleftrightarrow>
    (if enabled policy \<and> \<not> unlimited policy then
       (\<forall>q. Some q \<in> set requests \<longrightarrow> q \<le> sint (shares policy)) \<and>
       (\<Sum>r\<leftarrow>requests. case r of None \<Rightarrow> 1 | Some q \<Rightarrow> max 1 q) \<le> sint (shares policy)
     else (enabled policy \<or> length requests \<le> 1) \<and> (\<forall>q. Some q \<notin> set requests))"
proof (cases "enabled policy \<and> \<not> unlimited policy")
  case True
  let ?n = "sint (shares policy)"
  let ?c = "\<lparr>Value = shares policy, Default = 1, ValidRange = \<lparr>Min = 1, Max = shares policy, Step = 1\<rparr>\<rparr>"
  have n: "0 < ?n" using assms(3) True by blast
  have take: "consumed ?c r = (case r of None \<Rightarrow> Some 1 | Some q \<Rightarrow> if q \<le> ?n then Some (max 1 q) else None)" for r
    using n by (auto simp: consumed_def Let_def max_def split: option.splits)
  have amounts: "map (\<lambda>r. the (consumed ?c r)) requests = map (\<lambda>r. case r of None \<Rightarrow> 1 | Some q \<Rightarrow> max 1 q) requests"
    if "\<forall>q. Some q \<in> set requests \<longrightarrow> q \<le> ?n"
    using that by (auto simp: take split: option.splits)
  have known: "list_all (\<lambda>r. consumed ?c r \<noteq> None) requests \<longleftrightarrow> (\<forall>q. Some q \<in> set requests \<longrightarrow> q \<le> ?n)"
    by (auto simp: take list_all_iff split: option.splits)
  have "co_allocatable (applyConsumableShares dev policy) requests \<longleftrightarrow>
      list_all (\<lambda>r. consumed ?c r \<noteq> None) requests \<and> sum_list (map (\<lambda>r. the (consumed ?c r)) requests) \<le> ?n"
    using True assms(2) by (simp add: co_allocatable_def applyConsumableShares_def Let_def)
  then show ?thesis
    using True by (simp only: known amounts if_True simp_thms cong: conj_cong)
next
  case False
  then have plain: "Capacity (applyConsumableShares dev policy) = None"
    "AllowMultipleAllocations (applyConsumableShares dev policy) = (if enabled policy then Some True else None)"
    using assms(1,2) by (auto simp: applyConsumableShares_def Let_def)
  have "list_all (\<lambda>r. r = None) requests \<longleftrightarrow> (\<forall>q. Some q \<notin> set requests)"
    unfolding list_all_iff by (metis not_None_eq)
  then show ?thesis unfolding co_allocatable_def plain using False by (simp split: if_splits)
qed

lemma published_shares_cap_the_claims_witness:
  "co_allocatable (applyConsumableShares
      \<lparr>DevName = ''accel0'', Attributes = Map.empty, AllowMultipleAllocations = None, Capacity = None\<rparr>
      \<lparr>enabled = True, unlimited = False, shares = 4\<rparr>) [None, Some 2, None] \<and>
   \<not> co_allocatable (applyConsumableShares
      \<lparr>DevName = ''accel0'', Attributes = Map.empty, AllowMultipleAllocations = None, Capacity = None\<rparr>
      \<lparr>enabled = True, unlimited = False, shares = 4\<rparr>) [None, None, None, None, None]"
  by (simp add: published_shares_cap_the_claims)

text \<open>The capacity keeps the API's rules except for a single share, where the minimum and one step
  exceed the value: \<open>--consumable-shares=1\<close> passes the startup check all the same.\<close>

theorem single_share_breaks_the_range_rules:
  assumes "enabled policy" and "\<not> unlimited policy" and "0 < sint (shares policy)"
  shows "\<exists>caps c. Capacity (applyConsumableShares dev policy) = Some caps \<and> caps sharesCapacityName = Some c \<and>
    (range_valid c \<longleftrightarrow> sint (shares policy) \<noteq> 1)"
  using assms by (auto simp: applyConsumableShares_def Let_def range_valid_def)

lemma single_share_breaks_the_range_rules_witness:
  "validateConsumableShares True ''1'' = None \<and>
   \<not> range_valid (the (the (Capacity (applyConsumableShares
      \<lparr>DevName = ''accel0'', Attributes = Map.empty, AllowMultipleAllocations = None, Capacity = None\<rparr>
      (resolveConsumableShares True ''1'' [AcceleratorLabel \<mapsto> ''tpu-v3-device'']))) sharesCapacityName))"
proof -
  have r: "resolveConsumableShares True ''1'' [AcceleratorLabel \<mapsto> ''tpu-v3-device''] =
      \<lparr>enabled = True, unlimited = False, shares = 1\<rparr>" and "validateConsumableShares True ''1'' = None"
    by code_simp+
  with single_share_breaks_the_range_rules [of "\<lparr>enabled = True, unlimited = False, shares = 1\<rparr>"
      "\<lparr>DevName = ''accel0'', Attributes = Map.empty, AllowMultipleAllocations = None, Capacity = None\<rparr>"]
  show ?thesis unfolding r by auto
qed

end
