(* ===== verification/GoRunes.thy ===== *)
theory GoRunes
  imports GoNumbers
begin

text \<open>
  \<open>for _, c := range s\<close>: Go decodes the bytes of a string as UTF-8. A valid sequence of one to
  four bytes gives its code point, any other byte gives \<open>U+FFFD\<close> and is skipped alone; overlong
  forms, surrogates and code points above \<open>U+10FFFF\<close> are invalid.
\<close>

definition byte :: "char \<Rightarrow> int" where
  "byte c = of_char c"

definition cont :: "int \<Rightarrow> bool" where
  "cont b \<longleftrightarrow> 0x80 \<le> b \<and> b \<le> 0xBF"

text \<open>The code point at the head of a byte sequence, and its width.\<close>

fun decode_rune :: "int list \<Rightarrow> int \<times> nat" where
  "decode_rune [] = (0xFFFD, 1)"
| "decode_rune (a # bs) =
     (if a < 0x80 then (a, 1)
      else (case bs of
          [] \<Rightarrow> (0xFFFD, 1)
        | b # bs' \<Rightarrow>
            if 0xC2 \<le> a \<and> a \<le> 0xDF
            then if cont b then ((a - 0xC0) * 64 + (b - 0x80), 2) else (0xFFFD, 1)
            else (case bs' of
                [] \<Rightarrow> (0xFFFD, 1)
              | c # bs'' \<Rightarrow>
                  if 0xE0 \<le> a \<and> a \<le> 0xEF
                  then if (if a = 0xE0 then 0xA0 else 0x80) \<le> b \<and> b \<le> (if a = 0xED then 0x9F else 0xBF) \<and> cont c
                       then ((a - 0xE0) * 4096 + (b - 0x80) * 64 + (c - 0x80), 3) else (0xFFFD, 1)
                  else (case bs'' of
                      [] \<Rightarrow> (0xFFFD, 1)
                    | d # _ \<Rightarrow>
                        if 0xF0 \<le> a \<and> a \<le> 0xF4 \<and>
                           (if a = 0xF0 then 0x90 else 0x80) \<le> b \<and> b \<le> (if a = 0xF4 then 0x8F else 0xBF) \<and>
                           cont c \<and> cont d
                        then ((a - 0xF0) * 262144 + (b - 0x80) * 4096 + (c - 0x80) * 64 + (d - 0x80), 4)
                        else (0xFFFD, 1)))))"

lemma decode_rune_width: "0 < snd (decode_rune bs)"
  by (induction bs rule: decode_rune.induct) (auto split: list.splits)

function runes_of :: "int list \<Rightarrow> int list" where
  "runes_of [] = []"
| "runes_of (b # bs) = fst (decode_rune (b # bs)) # runes_of (drop (snd (decode_rune (b # bs)) - 1) bs)"
  by pat_completeness auto
termination
  by (relation "measure length") auto

definition runes :: "string \<Rightarrow> int list" where
  "runes s = runes_of (map byte s)"

text \<open>A string of ASCII bytes is its own sequence of runes, and no rune reaches into ASCII bytes.\<close>

definition ascii :: "string \<Rightarrow> bool" where
  "ascii s \<longleftrightarrow> list_all (\<lambda>c. byte c < 0x80) s"

lemma runes_of_ascii: "list_all (\<lambda>b. b < 0x80) bs \<Longrightarrow> runes_of bs = bs"
  by (induction bs) simp_all

lemma decode_rune_ascii_append:
  "list_all (\<lambda>b. b < 0x80) ts \<Longrightarrow> decode_rune ((b # bs) @ ts) = decode_rune (b # bs)"
  by (cases ts; cases bs; cases "tl bs"; cases "tl (tl bs)")
    (auto simp: cont_def split: list.splits)

lemma decode_rune_width_le: "snd (decode_rune (b # bs)) \<le> length (b # bs)"
  by (auto split: list.splits)

lemma runes_of_append_ascii:
  "list_all (\<lambda>b. b < 0x80) ts \<Longrightarrow> runes_of (bs @ ts) = runes_of bs @ ts"
proof (induction bs rule: runes_of.induct)
  case 1
  then show ?case by (simp add: runes_of_ascii)
next
  case (2 b bs)
  let ?w = "snd (decode_rune (b # bs)) - 1"
  have "decode_rune (b # bs @ ts) = decode_rune (b # bs)"
    using decode_rune_ascii_append [OF 2(2), of b bs] by simp
  moreover have "drop ?w (bs @ ts) = drop ?w bs @ ts"
    using decode_rune_width_le [of b bs] by simp
  ultimately show ?case using 2 by simp
qed

lemma runes_append_ascii: "ascii t \<Longrightarrow> runes (s @ t) = runes s @ map byte t"
  by (simp add: runes_def ascii_def runes_of_append_ascii list_all_iff)

lemma runes_ascii: "ascii s \<Longrightarrow> runes s = map byte s"
  using runes_append_ascii [of s "[]"] by (simp add: runes_def)

lemma runes_examples:
  "runes ''n/0'' = [110, 47, 48]"
  "runes [CHR 0xC3, CHR 0xA9] = [0xE9]" "runes [CHR 0xE2, CHR 0x82, CHR 0xAC] = [0x20AC]"
  "runes [CHR 0xF0, CHR 0x9F, CHR 0x98, CHR 0x80] = [0x1F600]"
  "runes [CHR 0xC0, CHR 0x80] = [0xFFFD, 0xFFFD]" "runes [CHR 0xED, CHR 0xA0, CHR 0x80] = [0xFFFD, 0xFFFD, 0xFFFD]"
  by code_simp+

end
