(* ===== verification/Manager.thy ===== *)
theory Manager
  imports Envs Hardware Labels Shares GoRunes
begin

text \<open>
  The TPU manager of manager.go: the devices of the node, found by walking the device directory;
  the UUID each chip is given; the device nodes a claim's CDI specification grants; and the
  device published for a chip.

  \<open>math/rand\<close> and \<open>uuid.FromBytes\<close> are a parameter \<open>uuid_of_seed\<close>: the text the generator
  produces for a seed (the generator's table is data of the Go runtime). What the driver itself
  computes, the seed and its hash, is modelled. A \<open>map\<close> of devices is a finite map.
\<close>

definition tpuV4DeviceRegex :: regex where
  "tpuV4DeviceRegex = Seq (Lit ''accel'') (Many digit_class)"

definition tpuDeviceNumericalRegex :: regex where
  "tpuDeviceNumericalRegex = Many1 digit_class"

definition defaultDeviceID :: string where
  "defaultDeviceID = ''vfio''"

definition libtpuLogDir :: string where
  "libtpuLogDir = ''/tmp/tpu_logs''"

definition DevicePluginPath :: string where
  "DevicePluginPath = ''/var/lib/kubelet/plugins/tpu.google.com''"

definition LogDir :: string where
  "LogDir = DevicePluginPath @ ''/logs''"

record AllocatableDevice =
  UUID :: string
  adName :: string
  index :: i64
  adTpuGen :: string
  brand :: string
  driverVersion :: string
  allocatable :: bool
  accelerator :: string
  chipCount :: i64
  topology :: string

type_synonym AllocatableDevices = "(string, AllocatableDevice) fmap"

text \<open>The parts of the CDI specification types the driver fills.\<close>

record Mount =
  mntHostPath :: string
  mntContainerPath :: string
  mntOptions :: "string list"

record DeviceNode =
  dnPath :: string
  dnHostPath :: string
  dnPermissions :: string

record tpuManager =
  DevDirectory :: string
  tpuGen :: string
  devices :: AllocatableDevices
  tpuChipCount :: i64
  nodeLabels :: strmap
  envs :: strmap
  commonMounts :: "Mount list"
  tpuLogDir :: string

definition NewTPUManager :: "strmap \<Rightarrow> strmap \<Rightarrow> string \<Rightarrow> tpuManager result" where
  "NewTPUManager environ labels devDir =
     (let accel = get labels AcceleratorLabel;
          acceleratorCount = get labels AcceleratorCountLabel;
          topo = get labels TopologyLabel;
          enableICIResiliency = get labels ICIResiliency in
      case AcceleratorGen (get labels AcceleratorLabel) of
        Inl e \<Rightarrow> Inl e
      | Inr gen \<Rightarrow>
     (case ChipCount acceleratorCount of
        Inl e \<Rightarrow> Inl (ErrWrap ''cannot determine the number of TPU chips of the node, set --tpu-chip-count or the %s label: %w''
                         [AcceleratorCountLabel] e)
      | Inr n \<Rightarrow>
     (case InitEnvs environ \<lparr>Accelerator = accel, Topology_opt = topo, EnableICIResiliency = enableICIResiliency,
              ChipCount_opt = n, AcceleratorCount = n, RequestedChipCount = n, SubSliceTopology = [],
              IsPriviledged = False, VisibleChipIds = [], EnableDeviceSpreading = False, NumaNodeIds = []\<rparr> of
        Inl e \<Rightarrow> Inl (ErrWrap ''error initializing environment variables: %w'' [] e)
      | Inr vars \<Rightarrow>
          Inr \<lparr>DevDirectory = devDir, tpuGen = gen, devices = fmempty, tpuChipCount = n,
               nodeLabels = labels, envs = vars,
               commonMounts = [\<lparr>mntHostPath = libtpuLogDir, mntContainerPath = libtpuLogDir,
                                 mntOptions = [''rw'', ''nosuid'', ''nodev'', ''bind'']\<rparr>],
               tpuLogDir = libtpuLogDir\<rparr>)))"

definition GetDevice :: "AllocatableDevice \<Rightarrow> Device" where
  "GetDevice d =
     (let attrs = [''index'' \<mapsto> IntValue (index d), ''uuid'' \<mapsto> StringValue (UUID d),
                   ''tpuGen'' \<mapsto> StringValue (adTpuGen d), ''brand'' \<mapsto> StringValue (brand d),
                   ''accelerator'' \<mapsto> StringValue (accelerator d), ''chipCount'' \<mapsto> IntValue (chipCount d)]
      in \<lparr>DevName = adName d,
          Attributes = (if topology d \<noteq> [] then attrs(''topology'' \<mapsto> StringValue (topology d)) else attrs),
          AllowMultipleAllocations = None, Capacity = None\<rparr>)"

definition deviceUUIDSeed :: "string \<Rightarrow> string \<Rightarrow> string" where
  "deviceUUIDSeed node deviceName = node @ ''/'' @ deviceName"

definition hash :: "string \<Rightarrow> i64" where
  "hash s = foldl (\<lambda>h c. 31 * h + i64_of c) 0 (runes s)"

definition generateUUIDs :: "(i64 \<Rightarrow> string) \<Rightarrow> string \<Rightarrow> string" where
  "generateUUIDs uuid_of_seed seed = ''tpu-'' @ uuid_of_seed (hash seed)"

definition getTpuInfo :: "(i64 \<Rightarrow> string) \<Rightarrow> strmap \<Rightarrow> tpuManager \<Rightarrow> i64 \<Rightarrow> dirent \<Rightarrow> AllocatableDevice" where
  "getTpuInfo uuid_of_seed environ tm i f =
     \<lparr>UUID = generateUUIDs uuid_of_seed (deviceUUIDSeed (get environ ''NODE_NAME'') (Name f)),
      adName = Name f, index = i, adTpuGen = tpuGen tm, brand = ''Google'', driverVersion = ''1.0.0'',
      allocatable = True, accelerator = get (nodeLabels tm) AcceleratorLabel,
      chipCount = tpuChipCount tm, topology = get (nodeLabels tm) TopologyLabel\<rparr>"

text \<open>The body of the loop over the directory; the locals \<open>num_devices\<close> and \<open>allocatableDevices\<close>.\<close>

definition enumerate_step :: "(i64 \<Rightarrow> string) \<Rightarrow> strmap \<Rightarrow> tpuManager \<Rightarrow> regex \<Rightarrow>
    i64 \<times> AllocatableDevices \<Rightarrow> dirent \<Rightarrow> i64 \<times> AllocatableDevices" where
  "enumerate_step uuid_of_seed environ tm reg st f =
     (case st of (num_devices, allocatableDevices) \<Rightarrow>
        if IsDir f then st
        else if MatchString reg (Name f)
        then (let device = getTpuInfo uuid_of_seed environ tm num_devices f
              in (num_devices + 1, fmupd (adName device) device allocatableDevices))
        else st)"

definition deviceRegex :: "tpuManager \<Rightarrow> regex" where
  "deviceRegex tm = (if DevDirectory tm = devDirectoryVfio then tpuDeviceNumericalRegex else tpuV4DeviceRegex)"

definition enumerateAllPossibleTpuDevices ::
  "(i64 \<Rightarrow> string) \<Rightarrow> strmap \<Rightarrow> hostfs \<Rightarrow> tpuManager \<Rightarrow> (AllocatableDevices \<times> tpuManager) result" where
  "enumerateAllPossibleTpuDevices uuid_of_seed environ fs tm =
     (let reg = deviceRegex tm in
      case ReadDir fs (DevDirectory tm) of
        None \<Rightarrow> Inl (ErrIO (DevDirectory tm))
      | Some files \<Rightarrow>
          (case foldl (enumerate_step uuid_of_seed environ tm reg) (0, fmempty) files of
             (num_devices, allocatableDevices) \<Rightarrow>
               if num_devices \<noteq> tpuChipCount tm
               then Inl (Errorf ''found %d TPU devices in %s, the node is expected to have %d chips''
                           [Itoa num_devices, DevDirectory tm, Itoa (tpuChipCount tm)])
               else Inr (allocatableDevices, tm\<lparr>devices := allocatableDevices\<rparr>)))"

definition DeviceNodeContainerEdits :: "tpuManager \<Rightarrow> string \<Rightarrow> DeviceNode list" where
  "DeviceNodeContainerEdits tm deviceID =
     (let deviceNodes = [\<lparr>dnPath = path_join [DevDirectory tm, deviceID],
                          dnHostPath = path_join [DevDirectory tm, deviceID], dnPermissions = ''mrw''\<rparr>]
      in if HasPrefix (tpuGen tm) ''v5'' \<or> HasPrefix (tpuGen tm) ''v6e''
         then deviceNodes @ [\<lparr>dnPath = path_join [DevDirectory tm, defaultDeviceID],
                              dnHostPath = path_join [DevDirectory tm, defaultDeviceID], dnPermissions = ''mrw''\<rparr>]
         else deviceNodes)"

definition ValidateTpuRequest :: "tpuManager \<Rightarrow> string list \<Rightarrow> go_error option" where
  "ValidateTpuRequest tm requestDeviceIds =
     (if i64_of (int (length requestDeviceIds)) \<noteq> tpuChipCount tm
      then Some (Errorf ''invalid TPU chip count request, you must request all %d chips on this node together''
                   [Itoa (tpuChipCount tm)])
      else None)"

section \<open>Hashing\<close>

text \<open>The hash over the integers, before it wraps.\<close>

definition poly :: "int list \<Rightarrow> int" where
  "poly cs = foldl (\<lambda>h c. 31 * h + c) 0 cs"

lemma foldl_poly: "foldl (\<lambda>h c. 31 * h + c) h cs = 31 ^ length cs * h + poly cs" for h :: int
proof (induction cs arbitrary: h)
  case Nil
  then show ?case by (simp add: poly_def)
next
  case (Cons c cs)
  have "poly (c # cs) = 31 ^ length cs * c + poly cs"
    using Cons.IH [of "31 * 0 + c"] by (simp add: poly_def)
  with Cons.IH [of "31 * h + c"] show ?case by (simp add: algebra_simps)
qed

lemma poly_Cons: "poly (c # cs) = 31 ^ length cs * c + poly cs"
  using foldl_poly [of "31 * 0 + c" cs] by (simp add: poly_def)

lemma poly_append: "poly (as @ bs) = 31 ^ length bs * poly as + poly bs"
  using foldl_poly [of "poly as" bs] by (simp add: poly_def)

lemma hash_poly: "hash s = i64_of (poly (runes s))"
proof -
  have "foldl (\<lambda>h c. 31 * h + i64_of c) (i64_of h) cs = i64_of (foldl (\<lambda>h c. 31 * h + c) h cs)" for h cs
  proof (induction cs arbitrary: h)
    case (Cons c cs)
    show ?case using Cons.IH [of "31 * h + c"] by simp
  qed simp
  from this [of 0] show ?thesis by (simp add: hash_def poly_def)
qed

lemma byte_int: "byte c = int (of_char c)"
  by (simp add: byte_def of_nat_of_char)

lemma digit_byte: "is_digit c \<Longrightarrow> 48 \<le> byte c \<and> byte c \<le> 57"
  unfolding is_digit_of_char byte_int by linarith

lemma digits_ascii: "list_all is_digit ds \<Longrightarrow> ascii ds"
  using digit_byte by (fastforce simp: ascii_def list_all_iff)

lemma byte_inject: "byte a = byte b \<longleftrightarrow> a = b"
  by (simp add: byte_def)

text \<open>Digits weigh less than one unit of the next place, so equally long digit strings do not collide.\<close>

lemma poly_digits_diff:
  "length ds = length es \<Longrightarrow> list_all is_digit ds \<Longrightarrow> list_all is_digit es \<Longrightarrow>
     30 * \<bar>poly (map byte ds) - poly (map byte es)\<bar> \<le> 9 * (31 ^ length ds - 1)"
proof (induction ds es rule: list_induct2)
  case Nil
  then show ?case by simp
next
  case (Cons d ds e es)
  have "\<bar>byte d - byte e\<bar> \<le> 9" using digit_byte [of d] digit_byte [of e] Cons.prems by simp linarith
  then have "\<bar>31 ^ length ds * (byte d - byte e)\<bar> \<le> 31 ^ length ds * 9"
    by (simp add: abs_mult)
  moreover have "poly (map byte (d # ds)) - poly (map byte (e # es)) =
      31 ^ length ds * (byte d - byte e) + (poly (map byte ds) - poly (map byte es))"
    using Cons.hyps by (simp add: poly_Cons algebra_simps)
  ultimately show ?case using Cons.IH Cons.prems
    abs_triangle_ineq [of "31 ^ length ds * (byte d - byte e)" "poly (map byte ds) - poly (map byte es)"]
    by simp
qed

lemma small_quotient: "x < 1" if "30 * (k * x) \<le> 9 * (k - 1)" and "0 < k" for k x :: int
proof (rule ccontr)
  assume "\<not> x < 1"
  then have le: "k \<le> k * x" using that by simp
  have no: "30 * y \<le> 9 * k - 9 \<Longrightarrow> 0 < k \<Longrightarrow> k \<le> y \<Longrightarrow> False" for y by linarith
  show False using that by (intro no [OF _ _ le]) (simp_all add: right_diff_distrib)
qed

lemma poly_digits_inject:
  "length ds = length es \<Longrightarrow> list_all is_digit ds \<Longrightarrow> list_all is_digit es \<Longrightarrow>
     poly (map byte ds) = poly (map byte es) \<Longrightarrow> ds = es"
proof (induction ds es rule: list_induct2)
  case Nil
  then show ?case by simp
next
  case (Cons d ds e es)
  let ?k = "31 ^ length ds :: int"
  have "?k * (byte d - byte e) = - (poly (map byte ds) - poly (map byte es))"
    using Cons.hyps Cons.prems by (simp add: poly_Cons algebra_simps)
  then have "\<bar>?k * (byte d - byte e)\<bar> = \<bar>poly (map byte ds) - poly (map byte es)\<bar>" by linarith
  then have "30 * (?k * \<bar>byte d - byte e\<bar>) \<le> 9 * (?k - 1)"
    using poly_digits_diff [of ds es] Cons.hyps Cons.prems by (simp add: abs_mult)
  then have "\<bar>byte d - byte e\<bar> < 1" by (rule small_quotient) simp
  then have "d = e" by (simp flip: byte_inject)
  with Cons show ?case by (simp add: poly_Cons)
qed

lemma i64_of_eq_near:
  assumes "\<bar>a - b\<bar> < 2 ^ 64"
  shows "i64_of a = i64_of b \<longleftrightarrow> a = b"
proof
  assume "i64_of a = i64_of b"
  then have "2 ^ 64 dvd a - b" by (simp add: word_of_int_eq_iff take_bit_eq_mod mod_eq_dvd_iff)
  with assms show "a = b" using zdvd_imp_le [of "2 ^ 64" "a - b"] zdvd_imp_le [of "2 ^ 64" "b - a"]
    by (cases a b rule: linorder_cases) (auto simp: dvd_diff_commute)
qed simp

section \<open>Enumeration\<close>

lemma length_filter_conj_le: "length (filter (\<lambda>x. P x \<and> Q x) xs) \<le> length (filter P xs)"
  by (induction xs) auto

lemma length_filter_conj_eq:
  "length (filter P xs) = length (filter (\<lambda>x. P x \<and> Q x) xs) \<longleftrightarrow> (\<forall>x\<in>set xs. P x \<longrightarrow> Q x)"
proof (induction xs)
  case (Cons x xs)
  with length_filter_conj_le [of P Q xs] show ?case by auto
qed simp

text \<open>The names the walk accepts, in directory order.\<close>

definition tpu_files :: "regex \<Rightarrow> dirent list \<Rightarrow> string list" where
  "tpu_files reg files = map Name (filter (\<lambda>f. \<not> IsDir f \<and> MatchString reg (Name f)) files)"

text \<open>The devices the walk finds in \<open>names\<close>, from index \<open>i\<close> on.\<close>

lemma enumerate_loop:
  assumes "foldl (enumerate_step u environ tm reg) (i, m) files = (n, devs)"
    and "distinct (map Name files)" and "fset (fmdom m) \<inter> set (map Name files) = {}"
  shows "n = i + of_nat (length (tpu_files reg files)) \<and>
    fset (fmdom devs) = fset (fmdom m) \<union> set (tpu_files reg files) \<and>
    (\<forall>k. k \<notin> set (tpu_files reg files) \<longrightarrow> fmlookup devs k = fmlookup m k) \<and>
    (\<forall>j < length (tpu_files reg files). \<exists>f. Name f = tpu_files reg files ! j \<and>
       fmlookup devs (tpu_files reg files ! j) = Some (getTpuInfo u environ tm (i + of_nat j) f))"
  using assms
proof (induction files arbitrary: i m)
  case Nil
  then show ?case by (simp add: tpu_files_def)
next
  case (Cons f files)
  show ?case
  proof (cases "\<not> IsDir f \<and> MatchString reg (Name f)")
    case False
    then have "enumerate_step u environ tm reg (i, m) f = (i, m)" by (auto simp: enumerate_step_def)
    with Cons.prems(1) have "foldl (enumerate_step u environ tm reg) (i, m) files = (n, devs)" by simp
    moreover have "tpu_files reg (f # files) = tpu_files reg files" using False by (simp add: tpu_files_def)
    ultimately show ?thesis using Cons.IH [of i m] Cons.prems by auto
  next
    case True
    let ?m = "fmupd (Name f) (getTpuInfo u environ tm i f) m" and ?ns = "tpu_files reg files"
    have "enumerate_step u environ tm reg (i, m) f = (i + 1, ?m)"
      using True by (simp add: enumerate_step_def getTpuInfo_def Let_def)
    with Cons.prems(1) have fold: "foldl (enumerate_step u environ tm reg) (i + 1, ?m) files = (n, devs)"
      by (simp only: foldl_Cons)
    have names: "tpu_files reg (f # files) = Name f # ?ns" using True by (simp add: tpu_files_def)
    have fresh: "Name f \<notin> set ?ns" using Cons.prems(2) by (auto simp: tpu_files_def)
    note ih = Cons.IH [OF fold]
    have "n = i + 1 + of_nat (length ?ns) \<and>
      fset (fmdom devs) = fset (fmdom ?m) \<union> set ?ns \<and>
      (\<forall>k. k \<notin> set ?ns \<longrightarrow> fmlookup devs k = fmlookup ?m k) \<and>
      (\<forall>j < length ?ns. \<exists>f. Name f = ?ns ! j \<and>
         fmlookup devs (?ns ! j) = Some (getTpuInfo u environ tm (i + 1 + of_nat j) f))"
      using Cons.prems by (intro ih) auto
    then show ?thesis unfolding names using fresh
      by (auto simp: nth_Cons less_Suc_eq_0_disj algebra_simps split: nat.splits)
  qed
qed

lemma enumerate_count:
  "fst (foldl (enumerate_step u environ tm reg) (i, m) files) = i + of_nat (length (tpu_files reg files))"
  by (induction files arbitrary: i m) (auto simp: tpu_files_def enumerate_step_def Let_def)

lemma enumerate_ok_iff:
  "ReadDir fs (DevDirectory tm) = Some files \<Longrightarrow>
   is_ok (enumerateAllPossibleTpuDevices u environ fs tm) \<longleftrightarrow>
     of_nat (length (tpu_files (deviceRegex tm) files)) = tpuChipCount tm"
  using enumerate_count [of u environ tm "deviceRegex tm" 0 fmempty files]
  by (auto simp: enumerateAllPossibleTpuDevices_def Let_def split: prod.splits)

lemma enumerate_Inr_iff:
  "enumerateAllPossibleTpuDevices u environ fs tm = Inr (devs, tm') \<longleftrightarrow>
     (\<exists>files. ReadDir fs (DevDirectory tm) = Some files \<and>
        foldl (enumerate_step u environ tm (deviceRegex tm)) (0, fmempty) files = (tpuChipCount tm, devs) \<and>
        tm' = tm\<lparr>devices := devs\<rparr>)"
  by (auto simp: enumerateAllPossibleTpuDevices_def Let_def split: option.splits prod.splits if_splits)

text \<open>What later components need of an enumeration: only healthy devices, each under its own name.\<close>

lemma enumerate_devices_wf:
  assumes "foldl (enumerate_step u environ tm reg) (i, m) files = (n, devs)"
    and "\<And>k d. fmlookup m k = Some d \<Longrightarrow> allocatable d \<and> adName d = k"
  shows "fmlookup devs k = Some d \<Longrightarrow> allocatable d \<and> adName d = k"
  using assms
proof (induction files arbitrary: i m)
  case (Cons f files)
  show ?case
  proof (cases "\<not> IsDir f \<and> MatchString reg (Name f)")
    case False
    then have "enumerate_step u environ tm reg (i, m) f = (i, m)" by (auto simp: enumerate_step_def)
    with Cons show ?thesis by simp
  next
    case True
    then have "enumerate_step u environ tm reg (i, m) f =
        (i + 1, fmupd (Name f) (getTpuInfo u environ tm i f) m)"
      by (simp add: enumerate_step_def getTpuInfo_def Let_def)
    with Cons.prems(2) have fold: "foldl (enumerate_step u environ tm reg)
        (i + 1, fmupd (Name f) (getTpuInfo u environ tm i f) m) files = (n, devs)"
      by (simp only: foldl_Cons)
    show ?thesis
      using Cons.prems(3) by (intro Cons.IH [OF Cons.prems(1) fold]) (auto simp: getTpuInfo_def split: if_splits)
  qed
qed simp

lemma NewTPUManager_Inr:
  assumes "NewTPUManager environ labels devDir = Inr tm"
  shows "0 < sint (tpuChipCount tm) \<and> ChipCount (get labels AcceleratorCountLabel) = Inr (tpuChipCount tm) \<and>
    AcceleratorGen (get labels AcceleratorLabel) = Inr (tpuGen tm) \<and> DevDirectory tm = devDir \<and>
    nodeLabels tm = labels \<and> tpuLogDir tm = libtpuLogDir \<and>
    (\<forall>m\<in>set (commonMounts tm). mntHostPath m = libtpuLogDir \<and> mntContainerPath m = libtpuLogDir)"
  using assms by (auto simp: NewTPUManager_def Let_def ChipCount_Inr_iff split: sum.splits)

text \<open>A manager of a one-chip vfio node, and an accel node of two chips, for the witnesses.\<close>

definition example_uuid :: "i64 \<Rightarrow> string" where
  "example_uuid seed = Itoa seed"

definition example_tm :: tpuManager where
  "example_tm = \<lparr>DevDirectory = ''/dev/vfio'', tpuGen = ''v6e'', devices = fmempty, tpuChipCount = 1,
     nodeLabels = Map.empty, envs = Map.empty, commonMounts = [], tpuLogDir = libtpuLogDir\<rparr>"

definition accel_files :: "dirent list" where
  "accel_files = [\<lparr>Name = ''accel0'', IsDir = False\<rparr>, \<lparr>Name = ''accel1'', IsDir = False\<rparr>, \<lparr>Name = ''null'', IsDir = False\<rparr>]"

definition accel_host :: hostfs where
  "accel_host = \<lparr>ReadDir = [''/dev'' \<mapsto> accel_files], ReadFile = Map.empty\<rparr>"

definition accel_tm :: tpuManager where
  "accel_tm = example_tm\<lparr>DevDirectory := ''/dev'', tpuGen := ''v4'', tpuChipCount := 2\<rparr>"

lemma accel_tpu_files: "tpu_files (deviceRegex accel_tm) accel_files = [''accel0'', ''accel1'']"
  by code_simp

lemma accel_enumerates: "is_ok (enumerateAllPossibleTpuDevices u environ accel_host accel_tm)"
  using enumerate_ok_iff [of accel_host accel_tm accel_files] accel_tpu_files
  by (simp add: accel_host_def accel_tm_def example_tm_def)

section \<open>Properties\<close>

text \<open>A successful enumeration holds exactly the non-directories of the device directory whose
  names match the naming scheme of the interface, the expected number of them, and the device at
  position \<open>j\<close> of the directory has index \<open>j\<close>, its own name, the UUID of its name and is healthy.\<close>

theorem enumerated_devices:
  assumes "enumerateAllPossibleTpuDevices u environ fs tm = Inr (devs, tm')"
    and "ReadDir fs (DevDirectory tm) = Some files" and "distinct (map Name files)"
  shows "fset (fmdom devs) = set (tpu_files (deviceRegex tm) files) \<and>
    of_nat (card (fset (fmdom devs))) = tpuChipCount tm \<and> devices tm' = devs \<and>
    (\<forall>j < length (tpu_files (deviceRegex tm) files). \<exists>d.
       fmlookup devs (tpu_files (deviceRegex tm) files ! j) = Some d \<and>
       adName d = tpu_files (deviceRegex tm) files ! j \<and> index d = of_nat j \<and> allocatable d \<and>
       UUID d = ''tpu-'' @ u (hash (get environ ''NODE_NAME'' @ ''/'' @ adName d)))"
proof -
  from assms(1,2) have fold:
    "foldl (enumerate_step u environ tm (deviceRegex tm)) (0, fmempty) files = (tpuChipCount tm, devs)"
    "tm' = tm\<lparr>devices := devs\<rparr>" by (auto simp: enumerate_Inr_iff)
  have "distinct (tpu_files (deviceRegex tm) files)"
    using assms(3) by (simp add: tpu_files_def distinct_map_filter)
  then show ?thesis
    using enumerate_loop [OF fold(1) assms(3)] fold(2)
    by (fastforce simp: distinct_card getTpuInfo_def generateUUIDs_def deviceUUIDSeed_def)
qed

lemma enumerated_devices_witness:
  "\<exists>devs tm'. enumerateAllPossibleTpuDevices example_uuid Map.empty accel_host accel_tm = Inr (devs, tm') \<and>
     fset (fmdom devs) = {''accel0'', ''accel1''}"
proof -
  obtain devs tm' where e: "enumerateAllPossibleTpuDevices example_uuid Map.empty accel_host accel_tm = Inr (devs, tm')"
    using accel_enumerates [of example_uuid Map.empty] by (auto simp: result_simps)
  have "ReadDir accel_host (DevDirectory accel_tm) = Some accel_files" "distinct (map Name accel_files)"
    by (simp_all add: accel_host_def accel_tm_def accel_files_def)
  from enumerated_devices [OF e this] e show ?thesis by (auto simp: accel_tpu_files)
qed

text \<open>C35 (safety). On a vfio host whose chip count is the one the probe reports, the driver comes up
  only if every numbered group under \<open>/dev/vfio\<close> is a TPU group: the enumeration does not apply
  the PCI filter the probe applies, so one passed-through NIC makes it fail.\<close>

theorem vfio_enumeration_needs_tpu_only_groups:
  assumes "ReadDir fs devDirectoryVfio = Some files" and "int (length files) < 2 ^ 63"
    and "DevDirectory tm = devDirectoryVfio"
    and "countVfioTPUDevices fs ''/'' = (n, gen)" and "tpuChipCount tm = of_nat n"
  shows "is_ok (enumerateAllPossibleTpuDevices u environ fs tm) \<longleftrightarrow>
    (\<forall>f\<in>set files. \<not> IsDir f \<and> MatchString vfioGroupRegex (Name f) \<longrightarrow>
       tpuGenerationOfIOMMUGroup fs ''/'' (Name f) \<noteq> None)"
proof -
  have path: "path_join [''/'', devDirectoryVfio] = devDirectoryVfio" by code_simp
  have n: "n = length (tpu_groups fs ''/'' files)"
    using countVfioTPUDevices_eq [of fs "''/''" files] assms(1,4) path by (simp add: Let_def)
  let ?num = "\<lambda>f. \<not> IsDir f \<and> MatchString vfioGroupRegex (Name f)"
  let ?tpu = "\<lambda>f. tpuGenerationOfIOMMUGroup fs ''/'' (Name f) \<noteq> None"
  have n': "n = length (filter (\<lambda>f. ?num f \<and> ?tpu f) files)"
    unfolding n tpu_groups_def by (induction files) (auto simp: List.map_filter_def split: option.splits)
  have "deviceRegex tm = vfioGroupRegex"
    by (simp add: deviceRegex_def assms(3) tpuDeviceNumericalRegex_def vfioGroupRegex_def)
  then have "is_ok (enumerateAllPossibleTpuDevices u environ fs tm) \<longleftrightarrow>
      (of_nat (length (filter ?num files)) :: i64) = of_nat n"
    using enumerate_ok_iff [of fs tm files u environ] assms by (simp add: tpu_files_def)
  also have "\<dots> \<longleftrightarrow> length (filter ?num files) = n"
  proof -
    have "n \<le> length (filter ?num files)"
      unfolding n' by (rule length_filter_conj_le)
    moreover have "length (filter ?num files) < 2 ^ 64"
      by (rule order.strict_trans1 [OF length_filter_le]) (use assms(2) in simp)
    ultimately have "take_bit 64 n = n" "take_bit 64 (length (filter ?num files)) = length (filter ?num files)"
      by (simp_all add: take_bit_nat_eq_self_iff)
    then show ?thesis by (simp add: word_of_nat_eq_iff)
  qed
  also note n'
  also have "length (filter ?num files) = length (filter (\<lambda>f. ?num f \<and> ?tpu f) files) \<longleftrightarrow>
      (\<forall>f\<in>set files. ?num f \<longrightarrow> ?tpu f)"
    by (rule length_filter_conj_eq)
  finally show ?thesis .
qed

lemma vfio_enumeration_needs_tpu_only_groups_witness:
  "\<not> is_ok (enumerateAllPossibleTpuDevices example_uuid Map.empty example_host example_tm)"
proof -
  have files: "ReadDir example_host devDirectoryVfio =
      Some [\<lparr>Name = ''5'', IsDir = False\<rparr>, \<lparr>Name = ''7'', IsDir = False\<rparr>, \<lparr>Name = ''vfio'', IsDir = False\<rparr>]"
    by code_simp
  have probe: "countVfioTPUDevices example_host ''/'' = (1, ''v6e'')" by code_simp
  have nic: "MatchString vfioGroupRegex ''7''" "tpuGenerationOfIOMMUGroup example_host ''/'' ''7'' = None"
    by code_simp+
  show ?thesis
    using vfio_enumeration_needs_tpu_only_groups [OF files _ _ probe, of example_tm example_uuid Map.empty] nic
    by (simp add: example_tm_def devDirectoryVfio_def)
qed

text \<open>On an accel host the two walks agree, a bare \<open>/dev/accel\<close> apart: the enumeration succeeds
  exactly when the node's chip count is the number of accel devices the probe counts.\<close>

theorem accel_enumeration_agrees_with_probe:
  assumes "ReadDir fs devDirectory = Some files" and "DevDirectory tm = devDirectory"
    and "\<forall>f\<in>set files. Name f \<noteq> ''accel''"
  shows "is_ok (enumerateAllPossibleTpuDevices u environ fs tm) \<longleftrightarrow>
    of_nat (countAccelDevices fs devDirectory) = tpuChipCount tm"
proof -
  have m: "MatchString tpuV4DeviceRegex (Name f) = MatchString accelDeviceRegex (Name f)" if "f \<in> set files" for f
    using assms(3) that
    by (auto simp: MatchString_lang tpuV4DeviceRegex_def accelDeviceRegex_def)
  have "deviceRegex tm = tpuV4DeviceRegex"
    using assms(2) by (simp add: deviceRegex_def devDirectory_def devDirectoryVfio_def)
  moreover have "filter (\<lambda>f. \<not> IsDir f \<and> MatchString tpuV4DeviceRegex (Name f)) files =
      filter (\<lambda>f. \<not> IsDir f \<and> MatchString accelDeviceRegex (Name f)) files"
    using m by (intro filter_cong) auto
  ultimately show ?thesis
    using enumerate_ok_iff [of fs tm files u environ] assms(1,2)
    by (simp add: tpu_files_def countAccelDevices_def)
qed

lemma accel_enumeration_agrees_with_probe_witness:
  "countAccelDevices accel_host devDirectory = 2 \<and>
   is_ok (enumerateAllPossibleTpuDevices example_uuid Map.empty accel_host accel_tm)"
proof -
  have "countAccelDevices accel_host devDirectory = 2" by code_simp
  then show ?thesis
    using accel_enumeration_agrees_with_probe [of accel_host accel_files accel_tm example_uuid Map.empty]
    by (simp add: accel_host_def accel_tm_def accel_files_def devDirectory_def)
qed

text \<open>Two chips of a node whose names share a prefix and end in equally many digits (up to
  twelve) hash to different seeds, whatever the node's name: the 64-bit hash wraps, but not
  between them.\<close>

theorem hash_distinguishes_chips:
  assumes "list_all is_digit ds" and "list_all is_digit es" and "length ds = length es" and "length ds \<le> 12"
  shows "hash (deviceUUIDSeed node (pre @ ds)) = hash (deviceUUIDSeed node (pre @ es)) \<longleftrightarrow> ds = es"
proof -
  let ?p = "node @ ''/'' @ pre"
  have seed: "hash (deviceUUIDSeed node (pre @ xs)) = i64_of (31 ^ length xs * poly (runes ?p) + poly (map byte xs))"
    if "list_all is_digit xs" for xs
    using runes_append_ascii [OF digits_ascii [OF that], of ?p]
    by (simp add: deviceUUIDSeed_def hash_poly poly_append)
  have "(31 :: int) ^ length ds \<le> 31 ^ 12" using assms(4) by (intro power_increasing) auto
  then have "\<bar>poly (map byte ds) - poly (map byte es)\<bar> < 2 ^ 64"
    using poly_digits_diff [OF assms(3,1,2)] by simp
  then have "hash (deviceUUIDSeed node (pre @ ds)) = hash (deviceUUIDSeed node (pre @ es)) \<longleftrightarrow>
      poly (map byte ds) = poly (map byte es)"
    by (simp add: seed assms i64_of_eq_near del: of_int_add of_int_mult)
  with poly_digits_inject [OF assms(3,1,2)] show ?thesis by auto
qed

lemma hash_distinguishes_chips_witness:
  "hash (deviceUUIDSeed ''node-1'' ''accel0'') \<noteq> hash (deviceUUIDSeed ''node-1'' ''accel1'')"
  using hash_distinguishes_chips [of "''0''" "''1''" "''node-1''" "''accel''"]
  by (simp add: is_digit_of_char)

end
