(* ===== verification/ClaimData.thy ===== *)
theory ClaimData
  imports Manager
begin

text \<open>
  The data a claim is prepared into (state.go, checkpoint.go and the parts of the kubelet plugin
  and CDI types the driver fills), and the record of outside operations the driver calls.

  A slice that Go distinguishes from \<open>nil\<close> is a \<open>list option\<close>; where the JSON encoding omits an
  empty slice either way (\<open>omitempty\<close>) a plain list says as much. Fields the driver never sets
  (hooks, GIDs, device metadata and the like) are left out.
\<close>

section \<open>CDI specifications\<close>

record ContainerEdits =
  Env :: "string list"
  DeviceNodes :: "DeviceNode list"
  Mounts :: "Mount list"

record CdiDevice =
  cdName :: string
  cdEdits :: ContainerEdits

record Spec =
  Version :: string
  Kind :: string
  Devices :: "CdiDevice list"

section \<open>Prepared devices\<close>

text \<open>\<open>kubeletplugin.Device\<close>\<close>

record kubeletDevice =
  Requests :: "string list option"
  PoolName :: string
  DeviceName :: string
  CDIDeviceIDs :: "string list option"
  ShareID :: "string option"

text \<open>
  \<open>*cdiapi.ContainerEdits\<close> wraps a pointer to the edits, so there are two ways to hold none: a
  \<open>nil\<close> wrapper (\<open>None\<close>) and a wrapper around \<open>nil\<close> (\<open>Some None\<close>).
\<close>

record PreparedDevice =
  pdDevice :: kubeletDevice
  pdContainerEdits :: "ContainerEdits option option"

type_synonym PreparedDevices = "PreparedDevice list option"
type_synonym PreparedClaims = "(string, PreparedDevices) fmap"

definition GetDevices :: "PreparedDevices \<Rightarrow> kubeletDevice list" where
  "GetDevices pds = (case pds of None \<Rightarrow> [] | Some ds \<Rightarrow> map pdDevice ds)"

text \<open>Indexing a Go map: \<open>nil\<close> for a key that is missing, and for a claim stored with \<open>nil\<close> devices.\<close>

definition claim_entry :: "PreparedClaims \<Rightarrow> string \<Rightarrow> PreparedDevices" where
  "claim_entry m uid = (case fmlookup m uid of None \<Rightarrow> None | Some pds \<Rightarrow> pds)"

lemma claim_entry_upd [simp]:
  "claim_entry (fmupd u p m) v = (if v = u then p else claim_entry m v)"
  by (simp add: claim_entry_def)

lemma claim_entry_drop [simp]:
  "claim_entry (fmdrop u m) v = (if v = u then None else claim_entry m v)"
  by (simp add: claim_entry_def)

lemma claim_entry_empty [simp]: "claim_entry fmempty v = None"
  by (simp add: claim_entry_def)

lemma claim_entry_SomeD: "claim_entry m u = Some ds \<Longrightarrow> fmlookup m u = Some (Some ds)"
  by (simp add: claim_entry_def split: option.splits)

section \<open>The checkpoint\<close>

record CheckpointV1 =
  cvPreparedClaims :: "PreparedClaims option"      \<comment> \<open>\<open>None\<close> is the \<open>nil\<close> map\<close>

record Checkpoint =
  Checksum :: "64 word"
  V1 :: "CheckpointV1 option"

definition newCheckpoint :: Checkpoint where
  "newCheckpoint = \<lparr>Checksum = 0, V1 = Some \<lparr>cvPreparedClaims = Some fmempty\<rparr>\<rparr>"

text \<open>A checkpoint of given claims, the only form the driver writes.\<close>

definition checkpoint_of :: "PreparedClaims \<Rightarrow> Checkpoint" where
  "checkpoint_of m = \<lparr>Checksum = 0, V1 = Some \<lparr>cvPreparedClaims = Some m\<rparr>\<rparr>"

lemma newCheckpoint_of: "newCheckpoint = checkpoint_of fmempty"
  by (simp add: newCheckpoint_def checkpoint_of_def)

section \<open>Claims\<close>

record DeviceRequestAllocationResult =
  Request :: string
  Driver :: string
  Pool :: string
  resDevice :: string

record ResourceClaim =
  claimUID :: string
  claimName :: string
  Allocation :: "DeviceRequestAllocationResult list option"

section \<open>Outside operations\<close>

text \<open>
  What the driver calls on the node, whose state has type \<open>'n\<close>: the checkpoint manager, the CDI
  cache and the operating system's directory calls. Each is the call of the source; a failing
  call returns the state it leaves behind. \<open>svReadDir\<close> is \<open>os.ReadDir\<close>: the names it could read, and
  the error that cut the reading short.
\<close>

record 'n services =
  svGetCheckpoint :: "string \<Rightarrow> Checkpoint \<Rightarrow> 'n \<Rightarrow> Checkpoint result"
  svCreateCheckpoint :: "string \<Rightarrow> Checkpoint \<Rightarrow> 'n \<Rightarrow> 'n \<times> go_error option"
  svListCheckpoints :: "'n \<Rightarrow> string list result"
  svWriteSpec :: "Spec \<Rightarrow> string \<Rightarrow> 'n \<Rightarrow> 'n \<times> go_error option"
  svRemoveSpec :: "string \<Rightarrow> 'n \<Rightarrow> 'n \<times> go_error option"
  svReadDir :: "string \<Rightarrow> 'n \<Rightarrow> string list \<times> go_error option"
  svRemoveAll :: "string \<Rightarrow> 'n \<Rightarrow> 'n \<times> go_error option"

text \<open>
  \<open>RemoveDirContents\<close> (util.go): the first entry that cannot be removed ends the loop. The error of
  \<open>os.ReadDir\<close> is dropped (\<open>dir, _ := os.ReadDir(dirPath)\<close>), so entries it did not list stay.
\<close>

fun remove_entries :: "'n services \<Rightarrow> string \<Rightarrow> string list \<Rightarrow> 'n \<Rightarrow> 'n \<times> go_error option" where
  "remove_entries sv dirPath [] n = (n, None)"
| "remove_entries sv dirPath (d # ds) n =
     (case svRemoveAll sv (path_join [dirPath, d]) n of
        (n, Some e) \<Rightarrow> (n, Some (ErrWrap ''failed deleting: %s, error %w'' [d] e))
      | (n, None) \<Rightarrow> remove_entries sv dirPath ds n)"

definition RemoveDirContents :: "'n services \<Rightarrow> string \<Rightarrow> 'n \<Rightarrow> 'n \<times> go_error option" where
  "RemoveDirContents sv dirPath n =
     (case svReadDir sv dirPath n of (dir, _) \<Rightarrow> remove_entries sv dirPath dir n)"

end
