(* ===== verification/Json.thy ===== *)
theory Json
  imports ClaimData
begin

text \<open>
  \<open>encoding/json\<close> on the checkpoint's types: \<open>Marshal\<close> to a tree and \<open>Unmarshal\<close> of a tree into
  values that may already be set. The struct tags of the source and of the kubelet plugin and CDI
  types decide the names and what is omitted; maps are written in the order of their keys. The
  text of a tree is not modelled: a file holds a tree. A \<open>null\<close> element of a slice of pointers,
  which the driver never writes, is an error here; Go panics when the element is used.
\<close>

datatype json =
    JNull
  | JBool bool
  | JNum int
  | JStr string
  | JArr "json list"
  | JObj "(string \<times> json) list"

section \<open>Marshal\<close>

definition omit_string :: "string \<Rightarrow> string \<Rightarrow> (string \<times> json) list" where
  "omit_string k s = (if s = [] then [] else [(k, JStr s)])"

definition omit_slice :: "string \<Rightarrow> json list \<Rightarrow> (string \<times> json) list" where
  "omit_slice k xs = (if xs = [] then [] else [(k, JArr xs)])"

definition enc_strings :: "string list option \<Rightarrow> json" where
  "enc_strings xs = (case xs of None \<Rightarrow> JNull | Some ss \<Rightarrow> JArr (map JStr ss))"

definition enc_DeviceNode :: "DeviceNode \<Rightarrow> json" where
  "enc_DeviceNode d =
     JObj ([(''path'', JStr (dnPath d))] @ omit_string ''hostPath'' (dnHostPath d) @
           omit_string ''permissions'' (dnPermissions d))"

definition enc_Mount :: "Mount \<Rightarrow> json" where
  "enc_Mount m =
     JObj ([(''hostPath'', JStr (mntHostPath m)), (''containerPath'', JStr (mntContainerPath m))] @
           omit_slice ''options'' (map JStr (mntOptions m)))"

definition enc_ContainerEdits :: "ContainerEdits option option \<Rightarrow> json" where
  "enc_ContainerEdits ed =
     (case ed of
        None \<Rightarrow> JNull
      | Some None \<Rightarrow> JObj []
      | Some (Some e) \<Rightarrow> JObj (omit_slice ''env'' (map JStr (Env e)) @
                               omit_slice ''deviceNodes'' (map enc_DeviceNode (DeviceNodes e)) @
                               omit_slice ''mounts'' (map enc_Mount (Mounts e))))"

definition enc_PreparedDevice :: "PreparedDevice \<Rightarrow> json" where
  "enc_PreparedDevice pd =
     JObj [(''Requests'', enc_strings (Requests (pdDevice pd))),
           (''PoolName'', JStr (PoolName (pdDevice pd))),
           (''DeviceName'', JStr (DeviceName (pdDevice pd))),
           (''CDIDeviceIDs'', enc_strings (CDIDeviceIDs (pdDevice pd))),
           (''ShareID'', (case ShareID (pdDevice pd) of None \<Rightarrow> JNull | Some s \<Rightarrow> JStr s)),
           (''Metadata'', JNull),
           (''ContainerEdits'', enc_ContainerEdits (pdContainerEdits pd))]"

definition enc_PreparedDevices :: "PreparedDevices \<Rightarrow> json" where
  "enc_PreparedDevices pds = (case pds of None \<Rightarrow> JNull | Some ds \<Rightarrow> JArr (map enc_PreparedDevice ds))"

definition claim_keys :: "PreparedClaims \<Rightarrow> string list" where
  "claim_keys m = sorted_list_of_fset (fmdom m)"

definition enc_PreparedClaims :: "PreparedClaims option \<Rightarrow> (string \<times> json) list" where
  "enc_PreparedClaims pcs =
     (case pcs of
        None \<Rightarrow> []
      | Some m \<Rightarrow> (if m = fmempty then []
          else [(''preparedClaims'', JObj (map (\<lambda>k. (k, enc_PreparedDevices (claim_entry m k))) (claim_keys m)))]))"

definition enc_Checkpoint :: "Checkpoint \<Rightarrow> json" where
  "enc_Checkpoint cp =
     JObj ([(''checksum'', JNum (uint (Checksum cp)))] @
           (case V1 cp of None \<Rightarrow> [] | Some v \<Rightarrow> [(''v1'', JObj (enc_PreparedClaims (cvPreparedClaims v)))]))"

section \<open>Unmarshal\<close>

definition bad_json :: go_error where
  "bad_json = Errorf ''json: cannot unmarshal value'' []"

text \<open>The last of several values of one key counts.\<close>

definition field :: "(string \<times> json) list \<Rightarrow> string \<Rightarrow> json option" where
  "field kvs k = map_of (rev kvs) k"

text \<open>A missing key or a \<open>null\<close> leaves a string as it was.\<close>

fun dec_string :: "string \<Rightarrow> json option \<Rightarrow> string result" where
  "dec_string cur (Some (JStr s)) = Inr s"
| "dec_string cur None = Inr cur"
| "dec_string cur (Some JNull) = Inr cur"
| "dec_string cur (Some _) = Inl bad_json"

fun dec_slice :: "(json \<Rightarrow> 'a result) \<Rightarrow> json option \<Rightarrow> 'a list option result" where
  "dec_slice f (Some (JArr xs)) = rbind (rtraverse f xs) (\<lambda>ys. Inr (Some ys))"
| "dec_slice f None = Inr None"
| "dec_slice f (Some JNull) = Inr None"
| "dec_slice f (Some _) = Inl bad_json"

definition dec_element :: "json \<Rightarrow> string result" where
  "dec_element j = dec_string [] (Some j)"

definition elements :: "'a list option \<Rightarrow> 'a list" where
  "elements xs = (case xs of None \<Rightarrow> [] | Some ys \<Rightarrow> ys)"

fun dec_DeviceNode :: "json \<Rightarrow> DeviceNode result" where
  "dec_DeviceNode (JObj kvs) =
     rbind (dec_string [] (field kvs ''path'')) (\<lambda>path.
     rbind (dec_string [] (field kvs ''hostPath'')) (\<lambda>host.
     rbind (dec_string [] (field kvs ''permissions'')) (\<lambda>perm.
       Inr \<lparr>dnPath = path, dnHostPath = host, dnPermissions = perm\<rparr>)))"
| "dec_DeviceNode _ = Inl bad_json"

fun dec_Mount :: "json \<Rightarrow> Mount result" where
  "dec_Mount (JObj kvs) =
     rbind (dec_string [] (field kvs ''hostPath'')) (\<lambda>host.
     rbind (dec_string [] (field kvs ''containerPath'')) (\<lambda>container.
     rbind (dec_slice dec_element (field kvs ''options'')) (\<lambda>options.
       Inr \<lparr>mntHostPath = host, mntContainerPath = container, mntOptions = elements options\<rparr>)))"
| "dec_Mount _ = Inl bad_json"

text \<open>An embedded pointer is allocated as soon as one of its fields is present.\<close>

fun dec_ContainerEdits :: "json option \<Rightarrow> ContainerEdits option option result" where
  "dec_ContainerEdits (Some (JObj kvs)) =
     rbind (dec_slice dec_element (field kvs ''env'')) (\<lambda>env.
     rbind (dec_slice dec_DeviceNode (field kvs ''deviceNodes'')) (\<lambda>nodes.
     rbind (dec_slice dec_Mount (field kvs ''mounts'')) (\<lambda>mounts.
       Inr (Some (if list_all (\<lambda>k. field kvs k = None) [''env'', ''deviceNodes'', ''mounts''] then None
                  else Some \<lparr>Env = elements env, DeviceNodes = elements nodes, Mounts = elements mounts\<rparr>)))))"
| "dec_ContainerEdits None = Inr None"
| "dec_ContainerEdits (Some JNull) = Inr None"
| "dec_ContainerEdits (Some _) = Inl bad_json"

fun dec_ShareID :: "json option \<Rightarrow> string option result" where
  "dec_ShareID (Some (JStr s)) = Inr (Some s)"
| "dec_ShareID None = Inr None"
| "dec_ShareID (Some JNull) = Inr None"
| "dec_ShareID (Some _) = Inl bad_json"

fun dec_PreparedDevice :: "json \<Rightarrow> PreparedDevice result" where
  "dec_PreparedDevice (JObj kvs) =
     rbind (dec_slice dec_element (field kvs ''Requests'')) (\<lambda>requests.
     rbind (dec_string [] (field kvs ''PoolName'')) (\<lambda>pool.
     rbind (dec_string [] (field kvs ''DeviceName'')) (\<lambda>name.
     rbind (dec_slice dec_element (field kvs ''CDIDeviceIDs'')) (\<lambda>ids.
     rbind (dec_ShareID (field kvs ''ShareID'')) (\<lambda>share.
     rbind (dec_ContainerEdits (field kvs ''ContainerEdits'')) (\<lambda>edits.
       Inr \<lparr>pdDevice = \<lparr>Requests = requests, PoolName = pool, DeviceName = name,
                         CDIDeviceIDs = ids, ShareID = share\<rparr>,
            pdContainerEdits = edits\<rparr>))))))"
| "dec_PreparedDevice _ = Inl bad_json"

definition dec_PreparedDevices :: "json \<Rightarrow> PreparedDevices result" where
  "dec_PreparedDevices j = dec_slice dec_PreparedDevice (Some j)"

text \<open>Entries are added to the map the field already holds; \<open>null\<close> makes it \<open>nil\<close>.\<close>

fun dec_entries :: "(string \<times> json) list \<Rightarrow> PreparedClaims \<Rightarrow> PreparedClaims result" where
  "dec_entries [] m = Inr m"
| "dec_entries ((k, j) # kvs) m = rbind (dec_PreparedDevices j) (\<lambda>pds. dec_entries kvs (fmupd k pds m))"

fun dec_PreparedClaims :: "PreparedClaims option \<Rightarrow> json option \<Rightarrow> PreparedClaims option result" where
  "dec_PreparedClaims cur (Some (JObj kvs)) =
     rbind (dec_entries kvs (case cur of None \<Rightarrow> fmempty | Some m \<Rightarrow> m)) (\<lambda>m. Inr (Some m))"
| "dec_PreparedClaims cur None = Inr cur"
| "dec_PreparedClaims cur (Some JNull) = Inr None"
| "dec_PreparedClaims cur (Some _) = Inl bad_json"

fun dec_V1 :: "CheckpointV1 option \<Rightarrow> json option \<Rightarrow> CheckpointV1 option result" where
  "dec_V1 cur (Some (JObj kvs)) =
     rbind (dec_PreparedClaims (case cur of None \<Rightarrow> None | Some v \<Rightarrow> cvPreparedClaims v)
              (field kvs ''preparedClaims'')) (\<lambda>pcs. Inr (Some \<lparr>cvPreparedClaims = pcs\<rparr>))"
| "dec_V1 cur None = Inr cur"
| "dec_V1 cur (Some JNull) = Inr None"
| "dec_V1 cur (Some _) = Inl bad_json"

fun dec_checksum :: "64 word \<Rightarrow> json option \<Rightarrow> 64 word result" where
  "dec_checksum cur (Some (JNum n)) = (if 0 \<le> n \<and> n < 2 ^ 64 then Inr (word_of_int n) else Inl bad_json)"
| "dec_checksum cur None = Inr cur"
| "dec_checksum cur (Some JNull) = Inr cur"
| "dec_checksum cur (Some _) = Inl bad_json"

fun dec_Checkpoint :: "json \<Rightarrow> Checkpoint \<Rightarrow> Checkpoint result" where
  "dec_Checkpoint (JObj kvs) cp =
     rbind (dec_checksum (Checksum cp) (field kvs ''checksum'')) (\<lambda>c.
     rbind (dec_V1 (V1 cp) (field kvs ''v1'')) (\<lambda>v. Inr \<lparr>Checksum = c, V1 = v\<rparr>))"
| "dec_Checkpoint JNull cp = Inr cp"
| "dec_Checkpoint _ cp = Inl bad_json"

section \<open>Round trips\<close>

named_theorems dec_enc \<open>decoding of encoded values\<close>

lemma rtraverse_strings [dec_enc]: "rtraverse dec_element (map JStr ss) = Inr ss"
  by (induction ss) (auto simp: dec_element_def)

lemma dec_enc_strings [dec_enc]: "dec_slice dec_element (Some (enc_strings xs)) = Inr xs"
  by (cases xs) (simp_all add: enc_strings_def dec_enc)

lemma dec_enc_DeviceNode [dec_enc]: "dec_DeviceNode (enc_DeviceNode d) = Inr d"
  by (cases d) (simp add: enc_DeviceNode_def omit_string_def field_def)

lemma dec_enc_Mount [dec_enc]: "dec_Mount (enc_Mount m) = Inr m"
  by (cases m) (simp add: enc_Mount_def omit_slice_def field_def elements_def dec_enc)

lemma rtraverse_inverse: "(\<And>x. dec (enc x) = Inr x) \<Longrightarrow> rtraverse dec (map enc xs) = Inr xs"
  using rtraverse_map [of xs dec enc id] by simp

text \<open>Empty edits are written as no edits at all.\<close>

definition edits_normal :: "ContainerEdits option option \<Rightarrow> bool" where
  "edits_normal ed \<longleftrightarrow> (\<forall>e. ed = Some (Some e) \<longrightarrow> Env e \<noteq> [] \<or> DeviceNodes e \<noteq> [] \<or> Mounts e \<noteq> [])"

lemma dec_enc_ContainerEdits [dec_enc]:
  assumes "edits_normal ed"
  shows "dec_ContainerEdits (Some (enc_ContainerEdits ed)) = Inr ed"
proof (cases "\<exists>e. ed = Some (Some e)")
  case True
  then obtain e where ed: "ed = Some (Some e)" by blast
  have env: "rtraverse dec_element (map JStr (Env e)) = Inr (Env e)" by (simp add: dec_enc)
  have nodes: "rtraverse dec_DeviceNode (map enc_DeviceNode (DeviceNodes e)) = Inr (DeviceNodes e)"
    by (rule rtraverse_inverse) (rule dec_enc_DeviceNode)
  have mounts: "rtraverse dec_Mount (map enc_Mount (Mounts e)) = Inr (Mounts e)"
    by (rule rtraverse_inverse) (rule dec_enc_Mount)
  from assms ed have "Env e \<noteq> [] \<or> DeviceNodes e \<noteq> [] \<or> Mounts e \<noteq> []"
    by (simp add: edits_normal_def)
  then show ?thesis using env nodes mounts
    by (cases e) (auto simp: ed enc_ContainerEdits_def omit_slice_def field_def elements_def)
next
  case False
  then have "ed = None \<or> ed = Some None" by (cases ed) auto
  then show ?thesis by (auto simp: enc_ContainerEdits_def field_def)
qed

definition claims_normal :: "PreparedClaims \<Rightarrow> bool" where
  "claims_normal m \<longleftrightarrow>
     (\<forall>k ds. fmlookup m k = Some (Some ds) \<longrightarrow> list_all (\<lambda>pd. edits_normal (pdContainerEdits pd)) ds)"

lemma claims_normal_empty [simp]: "claims_normal fmempty"
  by (simp add: claims_normal_def)

lemma claims_normal_upd:
  "claims_normal m \<Longrightarrow> list_all (\<lambda>pd. edits_normal (pdContainerEdits pd)) ds \<Longrightarrow>
     claims_normal (fmupd k (Some ds) m)"
  by (simp add: claims_normal_def)

lemma claims_normal_drop: "claims_normal m \<Longrightarrow> claims_normal (fmdrop k m)"
  by (simp add: claims_normal_def)

lemma dec_enc_PreparedDevice:
  "edits_normal (pdContainerEdits pd) \<Longrightarrow> dec_PreparedDevice (enc_PreparedDevice pd) = Inr pd"
  by (cases pd; cases "pdDevice pd"; cases "ShareID (pdDevice pd)")
    (auto simp: enc_PreparedDevice_def field_def dec_enc)

lemma dec_enc_PreparedDevices:
  "(\<And>ds. pds = Some ds \<Longrightarrow> list_all (\<lambda>pd. edits_normal (pdContainerEdits pd)) ds) \<Longrightarrow>
     dec_PreparedDevices (enc_PreparedDevices pds) = Inr pds"
  using rtraverse_map [of "elements pds" dec_PreparedDevice enc_PreparedDevice id]
  by (cases pds)
    (auto simp: dec_PreparedDevices_def enc_PreparedDevices_def elements_def list_all_iff dec_enc_PreparedDevice)

lemma dec_entries_map:
  "(\<And>k. k \<in> set ks \<Longrightarrow> dec_PreparedDevices (enc (f k)) = Inr (f k)) \<Longrightarrow>
     dec_entries (map (\<lambda>k. (k, enc (f k))) ks) m = Inr (foldl (\<lambda>m k. fmupd k (f k) m) m ks)"
  by (induction ks arbitrary: m) auto

lemma foldl_fmupd_lookup:
  "fmlookup (foldl (\<lambda>m k. fmupd k (f k) m) m ks) k = (if k \<in> set ks then Some (f k) else fmlookup m k)"
  by (induction ks arbitrary: m) auto

lemma set_claim_keys [simp]: "set (claim_keys m) = fset (fmdom m)"
  by (simp add: claim_keys_def)

lemma claim_entries_rebuild:
  "foldl (\<lambda>m k. fmupd k (f k) m) fmempty (claim_keys m) = m" if "\<And>k. k |\<in>| fmdom m \<Longrightarrow> fmlookup m k = Some (f k)"
  using that by (intro fmap_ext) (auto simp: foldl_fmupd_lookup fmlookup_dom_iff)

lemma dec_enc_PreparedClaims:
  assumes "claims_normal m"
  shows "dec_PreparedClaims (Some fmempty) (field (enc_PreparedClaims (Some m)) ''preparedClaims'') = Inr (Some m)"
proof (cases "m = fmempty")
  case True
  then show ?thesis by (simp add: enc_PreparedClaims_def field_def)
next
  case False
  have "dec_PreparedDevices (enc_PreparedDevices (claim_entry m k)) = Inr (claim_entry m k)" for k
    using assms by (intro dec_enc_PreparedDevices) (auto simp: claims_normal_def dest: claim_entry_SomeD)
  moreover have "foldl (\<lambda>n k. fmupd k (claim_entry m k) n) fmempty (claim_keys m) = m"
    by (rule claim_entries_rebuild) (auto simp: claim_entry_def fmlookup_dom_iff)
  ultimately have "dec_entries (map (\<lambda>k. (k, enc_PreparedDevices (claim_entry m k))) (claim_keys m)) fmempty = Inr m"
    by (simp add: dec_entries_map)
  with False show ?thesis by (simp add: enc_PreparedClaims_def field_def)
qed

lemma dec_enc_Checkpoint:
  assumes "claims_normal m"
  shows "dec_Checkpoint (enc_Checkpoint \<lparr>Checksum = c, V1 = Some \<lparr>cvPreparedClaims = Some m\<rparr>\<rparr>) newCheckpoint =
    Inr \<lparr>Checksum = c, V1 = Some \<lparr>cvPreparedClaims = Some m\<rparr>\<rparr>"
proof -
  have "uint c < 2 ^ 64" using uint_lt2p [of c] by simp
  with dec_enc_PreparedClaims [OF assms] show ?thesis
    by (simp add: enc_Checkpoint_def newCheckpoint_def field_def)
qed

text \<open>Different claims have different encodings.\<close>

lemma enc_Checkpoint_inject:
  assumes "claims_normal m" and "claims_normal m'"
    and "enc_Checkpoint \<lparr>Checksum = c, V1 = Some \<lparr>cvPreparedClaims = Some m\<rparr>\<rparr> =
         enc_Checkpoint \<lparr>Checksum = c, V1 = Some \<lparr>cvPreparedClaims = Some m'\<rparr>\<rparr>"
  shows "m = m'"
proof -
  from dec_enc_Checkpoint [OF assms(1), of c] dec_enc_Checkpoint [OF assms(2), of c]
  have "(Inr \<lparr>Checksum = c, V1 = Some \<lparr>cvPreparedClaims = Some m\<rparr>\<rparr> :: Checkpoint result) =
      Inr \<lparr>Checksum = c, V1 = Some \<lparr>cvPreparedClaims = Some m'\<rparr>\<rparr>"
    unfolding assms(3) by (rule trans [OF sym])
  then show ?thesis by simp
qed

end
