(* ===== verification/Cdi.thy ===== *)
theory Cdi
  imports ClaimData
begin

text \<open>
  The CDI handler of cdi.go: the specification file with the variables and mounts every claim
  gets, the file of one claim, and the qualified device names the kubelet hands to the runtime.

  The version of a specification and the syntax of names are those of the CDI library, as far as
  the fields the driver fills reach. The runtime's iteration over the variables map is an
  arbitrary order, the argument \<open>order\<close>.
\<close>

definition cdiVendor :: string where
  "cdiVendor = ''k8s.'' @ DriverName"

definition cdiClass :: string where
  "cdiClass = ''tpu''"

definition cdiKind :: string where
  "cdiKind = cdiVendor @ ''/'' @ cdiClass"

definition cdiCommonDeviceName :: string where
  "cdiCommonDeviceName = ''common''"

section \<open>The library's names\<close>

definition QualifiedName :: "string \<Rightarrow> string \<Rightarrow> string \<Rightarrow> string" where
  "QualifiedName vendor class name = vendor @ ''/'' @ class @ ''='' @ name"

text \<open>\<open>GenerateTransientSpecName\<close>: slashes of the id become underscores.\<close>

definition GenerateTransientSpecName :: "string \<Rightarrow> string \<Rightarrow> string \<Rightarrow> string" where
  "GenerateTransientSpecName vendor class transientID =
     vendor @ ''-'' @ class @ ''_'' @ map (\<lambda>c. if c = CHR ''/'' then CHR ''_'' else c) transientID"

text \<open>\<open>MinimumRequiredVersion\<close>: a host path, or a device name starting with a digit, needs 0.5.0.\<close>

definition requiresV050 :: "Spec \<Rightarrow> bool" where
  "requiresV050 spec \<longleftrightarrow>
     list_ex (\<lambda>d. (cdName d \<noteq> [] \<and> is_digit (hd (cdName d))) \<or>
                  list_ex (\<lambda>dn. dnHostPath dn \<noteq> []) (DeviceNodes (cdEdits d))) (Devices spec)"

definition MinimumRequiredVersion :: "Spec \<Rightarrow> string" where
  "MinimumRequiredVersion spec = (if requiresV050 spec then ''0.5.0'' else ''0.3.0'')"

section \<open>The handler\<close>

text \<open>\<open>ContainerEdits.Append\<close> on the fields that are modelled; appending nothing changes nothing.\<close>

definition Append :: "ContainerEdits \<Rightarrow> ContainerEdits option option \<Rightarrow> ContainerEdits" where
  "Append e ed =
     (case ed of Some (Some x) \<Rightarrow> \<lparr>Env = Env e @ Env x, DeviceNodes = DeviceNodes e @ DeviceNodes x,
                                   Mounts = Mounts e @ Mounts x\<rparr>
      | _ \<Rightarrow> e)"

text \<open>\<open>NewCDIHandler\<close>, of what the library's \<open>NewCache\<close> returns.\<close>

definition NewCDIHandler :: "go_error option \<Rightarrow> go_error option" where
  "NewCDIHandler cacheErr =
     (case cacheErr of
        Some e \<Rightarrow> Some (ErrWrap ''unable to create a new CDI cache: %w'' [] e)
      | None \<Rightarrow> None)"

lemma case_NewCDIHandler [simp]:
  "(case NewCDIHandler cacheErr of None \<Rightarrow> x | Some e \<Rightarrow> f e) =
     (case cacheErr of None \<Rightarrow> x | Some e \<Rightarrow> f (ErrWrap ''unable to create a new CDI cache: %w'' [] e))"
  by (cases cacheErr) (simp_all add: NewCDIHandler_def)

definition commonSpec :: "strmap \<Rightarrow> string list \<Rightarrow> strmap \<Rightarrow> Mount list \<Rightarrow> Spec" where
  "commonSpec environ order vars mounts =
     (let commonEnv = [''KUBERNETES_NODE_NAME='' @ get environ ''NODE_NAME'',
                       ''DRA_RESOURCE_DRIVER_NAME='' @ DriverName] @
                      map (\<lambda>env. env @ ''='' @ get vars env) order;
          spec = \<lparr>Version = [], Kind = cdiKind, Devices =
            [\<lparr>cdName = cdiCommonDeviceName,
              cdEdits = \<lparr>Env = commonEnv, DeviceNodes = [], Mounts = mounts\<rparr>\<rparr>]\<rparr>
      in spec\<lparr>Version := MinimumRequiredVersion spec\<rparr>)"

definition CreateCommonSpecFile ::
  "'n services \<Rightarrow> strmap \<Rightarrow> string list \<Rightarrow> strmap \<Rightarrow> Mount list \<Rightarrow> 'n \<Rightarrow> 'n \<times> go_error option" where
  "CreateCommonSpecFile sv environ order vars mounts =
     svWriteSpec sv (commonSpec environ order vars mounts)
       (GenerateTransientSpecName cdiVendor cdiClass cdiCommonDeviceName)"

definition claimDeviceName :: "string \<Rightarrow> string \<Rightarrow> string" where
  "claimDeviceName uid device = uid @ ''-'' @ device"

definition claimDevice :: "string \<Rightarrow> PreparedDevice \<Rightarrow> CdiDevice" where
  "claimDevice uid device =
     (let name = DeviceName (pdDevice device);
          claimEdits = \<lparr>Env = [''TPU_DEVICE_'' @ name @ ''_RESOURCE_CLAIM='' @ uid],
                        DeviceNodes = [], Mounts = []\<rparr>
      in \<lparr>cdName = claimDeviceName uid name, cdEdits = Append claimEdits (pdContainerEdits device)\<rparr>)"

definition claimSpec :: "string \<Rightarrow> PreparedDevices \<Rightarrow> Spec" where
  "claimSpec uid pds =
     (let spec = \<lparr>Version = [], Kind = cdiKind,
                  Devices = (case pds of None \<Rightarrow> [] | Some ds \<Rightarrow> map (claimDevice uid) ds)\<rparr>
      in spec\<lparr>Version := MinimumRequiredVersion spec\<rparr>)"

definition claimSpecName :: "string \<Rightarrow> string" where
  "claimSpecName uid = GenerateTransientSpecName cdiVendor cdiClass uid"

definition CreateClaimSpecFile ::
  "'n services \<Rightarrow> string \<Rightarrow> PreparedDevices \<Rightarrow> 'n \<Rightarrow> 'n \<times> go_error option" where
  "CreateClaimSpecFile sv uid pds = svWriteSpec sv (claimSpec uid pds) (claimSpecName uid)"

definition DeleteClaimSpecFile :: "'n services \<Rightarrow> string \<Rightarrow> 'n \<Rightarrow> 'n \<times> go_error option" where
  "DeleteClaimSpecFile sv uid = svRemoveSpec sv (claimSpecName uid)"

definition GetClaimDevices :: "string \<Rightarrow> string list \<Rightarrow> string list" where
  "GetClaimDevices uid ds =
     QualifiedName cdiVendor cdiClass cdiCommonDeviceName #
     map (\<lambda>device. QualifiedName cdiVendor cdiClass (claimDeviceName uid device)) ds"

section \<open>Names\<close>

text \<open>The qualified names a specification file defines.\<close>

definition spec_ids :: "Spec \<Rightarrow> string list" where
  "spec_ids spec = map (\<lambda>d. Kind spec @ ''='' @ cdName d) (Devices spec)"

lemma spec_ids_claim:
  "spec_ids (claimSpec uid (Some pds)) =
     map (\<lambda>pd. QualifiedName cdiVendor cdiClass (claimDeviceName uid (DeviceName (pdDevice pd)))) pds"
  by (simp add: spec_ids_def claimSpec_def claimDevice_def Let_def QualifiedName_def cdiKind_def)

lemma spec_ids_common:
  "spec_ids (commonSpec environ order vars mounts) = [QualifiedName cdiVendor cdiClass cdiCommonDeviceName]"
  by (simp add: spec_ids_def commonSpec_def Let_def QualifiedName_def cdiKind_def)

text \<open>A device name without a dash can be read back from the CDI name of a claim.\<close>

lemma claimDeviceName_inject:
  assumes "CHR ''-'' \<notin> set d" and "CHR ''-'' \<notin> set d'"
  shows "claimDeviceName u d = claimDeviceName u' d' \<longleftrightarrow> u = u' \<and> d = d'"
proof
  assume eq: "claimDeviceName u d = claimDeviceName u' d'"
  have tw: "takeWhile (\<lambda>c. c \<noteq> CHR ''-'') (rev (claimDeviceName v e)) = rev e"
    if "CHR ''-'' \<notin> set e" for v e
    using that by (auto simp: claimDeviceName_def takeWhile_append)
  have "rev d = rev d'" using tw [OF assms(1), of u] tw [OF assms(2), of u'] eq by simp
  with eq show "u = u' \<and> d = d'" by (simp add: claimDeviceName_def)
qed simp

lemma QualifiedName_inject:
  "QualifiedName cdiVendor cdiClass a = QualifiedName cdiVendor cdiClass b \<longleftrightarrow> a = b"
  by (simp add: QualifiedName_def)

end
