(* ===== verification/DeviceState.thy ===== *)
theory DeviceState
  imports Cdi
begin

text \<open>
  The device state of state.go: preparing and unpreparing claims against the checkpoint, the CDI
  files and the log directory, and the health of the devices. The operations run under the
  state's mutex, so each is one step. They are given the outside operations as the record \<open>sv\<close>
  and the node's state, and return the state they leave with their result.

  A nil pointer dereference or an assignment to a nil map is the error \<open>Panic\<close>.
\<close>

definition DriverPluginCheckpointFile :: string where
  "DriverPluginCheckpointFile = ''checkpoint.json''"

record DeviceState =
  dsAllocatable :: AllocatableDevices
  dsTm :: "tpuManager option"
  dsSharesPolicy :: consumableSharesPolicy
  dsTpuLogDir :: string

definition logDir :: "DeviceState \<Rightarrow> string" where
  "logDir s =
     (if dsTpuLogDir s \<noteq> [] then dsTpuLogDir s
      else (case dsTm s of
          Some tm \<Rightarrow> if tpuLogDir tm \<noteq> [] then tpuLogDir tm else libtpuLogDir
        | None \<Rightarrow> libtpuLogDir))"

section \<open>Start\<close>

text \<open>\<open>NewDeviceState\<close>; \<open>cacheErr\<close> and \<open>managerErr\<close> are what \<open>NewCache\<close> and \<open>NewCheckpointManager\<close> return.\<close>

definition NewDeviceState ::
  "'n services \<Rightarrow> (i64 \<Rightarrow> string) \<Rightarrow> strmap \<Rightarrow> hostfs \<Rightarrow> string list \<Rightarrow> go_error option \<Rightarrow> go_error option \<Rightarrow>
   strmap \<Rightarrow> string \<Rightarrow> consumableSharesPolicy \<Rightarrow> 'n \<Rightarrow> 'n \<times> DeviceState result" where
  "NewDeviceState sv u environ fs order cacheErr managerErr labels devDir policy n =
     (case NewTPUManager environ labels devDir of
        Inl e \<Rightarrow> (n, Inl (ErrWrap ''error creating the TPU manager: %w'' [] e))
      | Inr tm \<Rightarrow>
     (case enumerateAllPossibleTpuDevices u environ fs tm of
        Inl e \<Rightarrow> (n, Inl (ErrText ''error enumerating all possible devices: %v'' [] e))
      | Inr (devs, tm) \<Rightarrow>
     (case NewCDIHandler cacheErr of
        Some e \<Rightarrow> (n, Inl (ErrText ''unable to create CDI handler: %v'' [] e))
      | None \<Rightarrow>
     (case CreateCommonSpecFile sv environ order (envs tm) (commonMounts tm) n of
        (n, Some e) \<Rightarrow> (n, Inl (ErrText ''unable to create CDI spec file for common edits: %v'' [] e))
      | (n, None) \<Rightarrow>
     (case managerErr of
        Some e \<Rightarrow> (n, Inl (ErrText ''unable to create checkpoint manager: %v'' [] e))
      | None \<Rightarrow>
     (let state = \<lparr>dsAllocatable = devs, dsTm = Some tm, dsSharesPolicy = policy, dsTpuLogDir = tpuLogDir tm\<rparr> in
      case svListCheckpoints sv n of
        Inl e \<Rightarrow> (n, Inl (ErrText ''unable to list checkpoints: %v'' [] e))
      | Inr checkpoints \<Rightarrow>
          if DriverPluginCheckpointFile \<in> set checkpoints then (n, Inr state)
          else (case svCreateCheckpoint sv DriverPluginCheckpointFile newCheckpoint n of
              (n, Some e) \<Rightarrow> (n, Inl (ErrText ''unable to sync to checkpoint: %v'' [] e))
            | (n, None) \<Rightarrow> (n, Inr state))))))))"

section \<open>Preparing devices\<close>

definition getDeviceContainerEdits ::
  "tpuManager \<Rightarrow> DeviceRequestAllocationResult list \<Rightarrow> (string, ContainerEdits) fmap" where
  "getDeviceContainerEdits tm results =
     foldl (\<lambda>m r. fmupd (resDevice r)
              \<lparr>Env = [], DeviceNodes = DeviceNodeContainerEdits tm (resDevice r), Mounts = []\<rparr> m) fmempty results"

definition ownResults :: "DeviceRequestAllocationResult list \<Rightarrow> DeviceRequestAllocationResult list" where
  "ownResults rs = filter (\<lambda>r. Driver r = DriverName) rs"

definition preparedDevice ::
  "string \<Rightarrow> (string, ContainerEdits) fmap \<Rightarrow> DeviceRequestAllocationResult \<Rightarrow> PreparedDevice" where
  "preparedDevice uid edits r =
     \<lparr>pdDevice = \<lparr>Requests = Some [Request r], PoolName = Pool r, DeviceName = resDevice r,
                   CDIDeviceIDs = Some (GetClaimDevices uid [resDevice r]), ShareID = None\<rparr>,
      pdContainerEdits = map_option Some (fmlookup edits (resDevice r))\<rparr>"

definition prepareDevices :: "DeviceState \<Rightarrow> ResourceClaim \<Rightarrow> PreparedDevices result" where
  "prepareDevices s claim =
     (case Allocation claim of
        None \<Rightarrow> Inl (Errorf ''claim not yet allocated'' [])
      | Some allocated \<Rightarrow>
     (let results = ownResults allocated in
      case dsTm s of
        None \<Rightarrow> Inl (Panic ''nil tpuManager'')
      | Some tm \<Rightarrow>
          if i64_of (int (length results)) \<noteq> tpuChipCount tm
          then Inl (Errorf ''invalid tpu resourceClaim, claim requests partial tpu devices (%d), only requests for all tpu devices (%d) on the node are supported''
                      [Itoa (i64_of (int (length results))), Itoa (tpuChipCount tm)])
          else (case find (\<lambda>r. fmlookup (dsAllocatable s) (resDevice r) = None) results of
              Some r \<Rightarrow> Inl (Errorf ''requested TPU is not allocatable: %v'' [resDevice r])
            | None \<Rightarrow>
                (let edits = getDeviceContainerEdits tm results
                 in Inr (if results = [] then None
                         else Some (map (preparedDevice (claimUID claim) edits) results))))))"

definition Prepare :: "'n services \<Rightarrow> DeviceState \<Rightarrow> ResourceClaim \<Rightarrow> 'n \<Rightarrow> 'n \<times> kubeletDevice list result" where
  "Prepare sv s claim n =
     (let uid = claimUID claim in
      case svGetCheckpoint sv DriverPluginCheckpointFile newCheckpoint n of
        Inl e \<Rightarrow> (n, Inl (ErrText ''unable to sync from checkpoint: %v'' [] e))
      | Inr checkpoint \<Rightarrow>
     (case V1 checkpoint of
        None \<Rightarrow> (n, Inl (Panic ''nil CheckpointV1''))
      | Some v1 \<Rightarrow>
     (let preparedClaims = (case cvPreparedClaims v1 of None \<Rightarrow> fmempty | Some m \<Rightarrow> m);
          restoredDevices = claim_entry preparedClaims uid in
      if restoredDevices \<noteq> None
      then (case CreateClaimSpecFile sv uid restoredDevices n of
          (n, Some e) \<Rightarrow> (n, Inl (ErrWrap ''unable to recreate CDI spec file for claim %v from checkpoint: %w'' [uid] e))
        | (n, None) \<Rightarrow> (n, Inr (GetDevices restoredDevices)))
      else (case prepareDevices s claim of
          Inl e \<Rightarrow> (n, Inl (unless_panic (ErrText ''prepare failed for claim %v: %v'' [uid]) e))
        | Inr preparedDevices \<Rightarrow>
            (case CreateClaimSpecFile sv uid preparedDevices n of
               (n, Some e) \<Rightarrow> (n, Inl (ErrText ''unable to create CDI spec file for claim: %v'' [] e))
             | (n, None) \<Rightarrow>
                 (case cvPreparedClaims v1 of
                    None \<Rightarrow> (n, Inl (Panic ''assignment to entry in nil map''))
                  | Some m \<Rightarrow>
                      (case svCreateCheckpoint sv DriverPluginCheckpointFile
                              (checkpoint\<lparr>V1 := Some \<lparr>cvPreparedClaims = Some (fmupd uid preparedDevices m)\<rparr>\<rparr>) n of
                         (n, Some e) \<Rightarrow> (n, Inl (ErrText ''unable to sync to checkpoint: %v'' [] e))
                       | (n, None) \<Rightarrow> (n, Inr (GetDevices preparedDevices)))))))))"

section \<open>Unpreparing devices\<close>

definition hasOtherPreparedClaims :: "Checkpoint option \<Rightarrow> string \<Rightarrow> bool" where
  "hasOtherPreparedClaims checkpoint uid =
     (case checkpoint of
        None \<Rightarrow> False
      | Some cp \<Rightarrow> (case V1 cp of
          None \<Rightarrow> False
        | Some v1 \<Rightarrow> (case cvPreparedClaims v1 of
            None \<Rightarrow> False
          | Some m \<Rightarrow> fBex (fmdom m) (\<lambda>u. u \<noteq> uid))))"

definition unprepareDevices ::
  "'n services \<Rightarrow> DeviceState \<Rightarrow> string \<Rightarrow> Checkpoint \<Rightarrow> 'n \<Rightarrow> 'n \<times> go_error option" where
  "unprepareDevices sv s uid checkpoint n =
     (if enabled (dsSharesPolicy s) \<and> hasOtherPreparedClaims (Some checkpoint) uid then (n, None)
      else (case RemoveDirContents sv (logDir s) n of
          (n, Some e) \<Rightarrow> (n, Some (ErrWrap ''failed to delete files in %s: %w'' [logDir s] e))
        | (n, None) \<Rightarrow> (n, None)))"

definition Unprepare :: "'n services \<Rightarrow> DeviceState \<Rightarrow> string \<Rightarrow> 'n \<Rightarrow> 'n \<times> go_error option" where
  "Unprepare sv s uid n =
     (case svGetCheckpoint sv DriverPluginCheckpointFile newCheckpoint n of
        Inl e \<Rightarrow> (n, Some (ErrText ''unable to sync from checkpoint: %v'' [] e))
      | Inr checkpoint \<Rightarrow>
     (case V1 checkpoint of
        None \<Rightarrow> (n, Some (Panic ''nil CheckpointV1''))
      | Some v1 \<Rightarrow>
     (let preparedClaims = (case cvPreparedClaims v1 of None \<Rightarrow> fmempty | Some m \<Rightarrow> m) in
      if claim_entry preparedClaims uid = None then (n, None)
      else (case unprepareDevices sv s uid checkpoint n of
          (n, Some e) \<Rightarrow> (n, Some (ErrText ''unprepare failed for claim %v: %v'' [uid] e))
        | (n, None) \<Rightarrow>
            (case DeleteClaimSpecFile sv uid n of
               (n, Some e) \<Rightarrow> (n, Some (ErrText ''unable to delete CDI spec file for claim: %v'' [] e))
             | (n, None) \<Rightarrow>
                 (case svCreateCheckpoint sv DriverPluginCheckpointFile
                         (checkpoint\<lparr>V1 := Some \<lparr>cvPreparedClaims = Some (fmdrop uid preparedClaims)\<rparr>\<rparr>) n of
                    (n, Some e) \<Rightarrow> (n, Some (ErrText ''unable to sync to checkpoint: %v'' [] e))
                  | (n, None) \<Rightarrow> (n, None)))))))"

section \<open>Health\<close>

text \<open>\<open>UpdateHealth\<close>: the new state, and whether a signal is sent on the publish channel.\<close>

definition UpdateHealth :: "DeviceState \<Rightarrow> string \<Rightarrow> bool \<Rightarrow> (DeviceState \<times> bool) result" where
  "UpdateHealth s deviceName currentHealth =
     (case fmlookup (dsAllocatable s) deviceName of
        None \<Rightarrow> Inl (Errorf ''device name %s does not exist in DeviceState'' [deviceName])
      | Some device \<Rightarrow>
          if allocatable device \<noteq> currentHealth
          then Inr (s\<lparr>dsAllocatable := fmupd deviceName (device\<lparr>allocatable := currentHealth\<rparr>) (dsAllocatable s)\<rparr>, True)
          else Inr (s, False))"

end
