(* ===== verification/Services.thy ===== *)
theory Services
  imports Json DeviceState
begin

text \<open>
  The interfaces between the device state and the node, as locales over the record of outside
  operations: the checkpoint manager (\<open>checkpoint_store\<close>), the CDI cache (\<open>spec_files\<close>), the log
  directories (\<open>log_dirs\<close>), and the three together with the promise that none touches what
  belongs to another (\<open>claim_services\<close>). The contract of a successful and of a failing
  \<open>Prepare\<close> and \<open>Unprepare\<close> is proved here once, from those laws alone.
\<close>

section \<open>Interfaces\<close>

text \<open>
  \<open>ledger n\<close> is the map of prepared claims the driver's checkpoint file holds (\<open>None\<close> if there is
  no such file, or not one the driver wrote). A failing write leaves the file as it was.
\<close>

locale checkpoint_store =
  fixes sv :: "'n services" and ledger :: "'n \<Rightarrow> PreparedClaims option"
  assumes get_ledger: "svGetCheckpoint sv DriverPluginCheckpointFile newCheckpoint n = Inr cp \<Longrightarrow>
      ledger n = Some m \<Longrightarrow> V1 cp = Some \<lparr>cvPreparedClaims = Some m\<rparr>"
    and create_ledger: "claims_normal m \<Longrightarrow>
      svCreateCheckpoint sv DriverPluginCheckpointFile \<lparr>Checksum = c, V1 = Some \<lparr>cvPreparedClaims = Some m\<rparr>\<rparr> n = (n', None) \<Longrightarrow>
      ledger n' = Some m"
    and create_err: "svCreateCheckpoint sv k cp n = (n', Some e) \<Longrightarrow> n' = n"
    and list_ledger: "svListCheckpoints sv n = Inr ks \<Longrightarrow> ledger n \<noteq> None \<Longrightarrow> DriverPluginCheckpointFile \<in> set ks"

text \<open>
  A specification file name the CDI library completes with its own extension; two such names
  are two files.
\<close>

definition plain_name :: "string \<Rightarrow> bool" where
  "plain_name f \<longleftrightarrow> \<not> HasSuffix f ''.json'' \<and> \<not> HasSuffix f ''.yaml''"

locale spec_files =
  fixes sv :: "'n services" and spec_at :: "'n \<Rightarrow> string \<Rightarrow> Spec option"
  assumes write_spec: "plain_name f \<Longrightarrow> plain_name g \<Longrightarrow> svWriteSpec sv sp f n = (n', None) \<Longrightarrow>
      spec_at n' g = (if g = f then Some sp else spec_at n g)"
    and write_checked: "svWriteSpec sv sp f n = (n', None) \<Longrightarrow> Devices sp \<noteq> [] \<and> distinct (map cdName (Devices sp))"
    and write_err: "svWriteSpec sv sp f n = (n', Some e) \<Longrightarrow> n' = n"
    and remove_spec: "plain_name f \<Longrightarrow> plain_name g \<Longrightarrow> svRemoveSpec sv f n = (n', None) \<Longrightarrow>
      spec_at n' g = (if g = f then None else spec_at n g)"
    and remove_err: "svRemoveSpec sv f n = (n', Some e) \<Longrightarrow> n' = n"

locale log_dirs =
  fixes sv :: "'n services" and logs :: "'n \<Rightarrow> string \<Rightarrow> string list"
  assumes read_dir: "svReadDir sv d n = (names, None) \<Longrightarrow> names = logs n d"
    and remove_all: "svRemoveAll sv p n = (n', None) \<Longrightarrow> logs n' d = filter (\<lambda>x. path_join [d, x] \<noteq> p) (logs n d)"

locale claim_services =
  checkpoint_store sv ledger + spec_files sv spec_at + log_dirs sv logs
  for sv :: "'n services" and ledger and spec_at and logs +
  assumes create_frame: "svCreateCheckpoint sv k cp n = (n', r) \<Longrightarrow> spec_at n' = spec_at n \<and> logs n' = logs n"
    and write_frame: "svWriteSpec sv sp f n = (n', r) \<Longrightarrow> ledger n' = ledger n \<and> logs n' = logs n"
    and write_list: "svWriteSpec sv sp f n = (n', r) \<Longrightarrow> svListCheckpoints sv n' = svListCheckpoints sv n"
    and remove_frame: "svRemoveSpec sv f n = (n', r) \<Longrightarrow> ledger n' = ledger n \<and> logs n' = logs n"
    and remove_all_frame: "svRemoveAll sv p n = (n', r) \<Longrightarrow> ledger n' = ledger n \<and> spec_at n' = spec_at n"

section \<open>Names of claim files\<close>

text \<open>
  A claim UID as the API server makes them: letters, digits and dashes, and not the word the
  driver names its common file with.
\<close>

definition uid_char :: "char \<Rightarrow> bool" where
  "uid_char c \<longleftrightarrow> is_lower c \<or> is_upper c \<or> is_digit c \<or> c = CHR ''-''"

definition uid_ok :: "string \<Rightarrow> bool" where
  "uid_ok u \<longleftrightarrow> list_all uid_char u \<and> u \<noteq> cdiCommonDeviceName"

lemma uid_char_not: "\<not> uid_char CHR ''/''" "\<not> uid_char CHR ''_''" "\<not> uid_char CHR ''.''"
  by code_simp+

lemma uid_slash: "list_all uid_char u \<Longrightarrow> map (\<lambda>c. if c = CHR ''/'' then CHR ''_'' else c) u = u"
  using uid_char_not(1) by (induction u) auto

lemma claimSpecName_uid: "list_all uid_char u \<Longrightarrow> claimSpecName u = cdiVendor @ ''-tpu_'' @ u"
  by (simp add: claimSpecName_def GenerateTransientSpecName_def uid_slash cdiClass_def)

text \<open>The last dot of a claim's file name is the one of \<open>google.com\<close>, so no extension is recognised.\<close>

lemma suffix_dot:
  assumes "HasSuffix (p @ ''_'' @ u) (CHR ''.'' # ext)" and "list_all uid_char u" and "CHR ''_'' \<notin> set ext"
  shows False
proof -
  from assms(1) obtain q where q: "p @ CHR ''_'' # u = q @ CHR ''.'' # ext" by (auto simp: suffix_def)
  then consider (inu) "CHR ''.'' \<in> set u" | (ext) "CHR ''_'' \<in> set ext"
    by (auto simp: append_eq_append_conv2 Cons_eq_append_conv append_eq_Cons_conv)
  then show False
    using assms(2,3) uid_char_not(3) by cases (auto simp: list_all_iff)
qed

lemma plain_claimSpecName: "list_all uid_char u \<Longrightarrow> plain_name (claimSpecName u)"
  using suffix_dot [where p = "cdiVendor @ ''-tpu''" and u = u and ext = "''json''"]
    suffix_dot [where p = "cdiVendor @ ''-tpu''" and u = u and ext = "''yaml''"]
  by (auto simp: plain_name_def claimSpecName_uid)

lemma uid_ok_chars: "uid_ok u \<Longrightarrow> list_all uid_char u"
  by (simp add: uid_ok_def)

lemma claimSpecName_inject: "uid_ok u \<Longrightarrow> uid_ok v \<Longrightarrow> claimSpecName u = claimSpecName v \<longleftrightarrow> u = v"
  by (simp add: uid_ok_def claimSpecName_uid)

lemma common_chars: "list_all uid_char cdiCommonDeviceName"
  by code_simp

lemma claimSpecName_not_common: "uid_ok u \<Longrightarrow> claimSpecName u \<noteq> claimSpecName cdiCommonDeviceName"
  using common_chars by (auto simp: uid_ok_def claimSpecName_uid)

section \<open>Facts about preparing\<close>

lemma edits_lookup:
  "fmlookup (getDeviceContainerEdits tm rs) d =
     (if d \<in> resDevice ` set rs
      then Some \<lparr>Env = [], DeviceNodes = DeviceNodeContainerEdits tm d, Mounts = []\<rparr> else None)"
proof -
  have "fmlookup (foldl (\<lambda>m r. fmupd (resDevice r)
          \<lparr>Env = [], DeviceNodes = DeviceNodeContainerEdits tm (resDevice r), Mounts = []\<rparr> m) m rs) d =
      (if d \<in> resDevice ` set rs
       then Some \<lparr>Env = [], DeviceNodes = DeviceNodeContainerEdits tm d, Mounts = []\<rparr> else fmlookup m d)" for m
    by (induction rs arbitrary: m) auto
  then show ?thesis by (simp add: getDeviceContainerEdits_def)
qed

lemma DeviceNodeContainerEdits_nonempty: "DeviceNodeContainerEdits tm d \<noteq> []"
  by (simp add: DeviceNodeContainerEdits_def Let_def)

lemma find_SomeD: "find P xs = Some x \<Longrightarrow> x \<in> set xs \<and> P x"
  by (induction xs) (auto split: if_splits)

lemma prepareDevices_Inr_iff:
  "prepareDevices s claim = Inr pds \<longleftrightarrow>
     (\<exists>allocated tm. Allocation claim = Some allocated \<and> dsTm s = Some tm \<and>
        of_nat (length (ownResults allocated)) = tpuChipCount tm \<and>
        (\<forall>r\<in>set (ownResults allocated). resDevice r |\<in>| fmdom (dsAllocatable s)) \<and>
        pds = (if ownResults allocated = [] then None
               else Some (map (preparedDevice (claimUID claim)
                                 (getDeviceContainerEdits tm (ownResults allocated))) (ownResults allocated))))"
  by (auto simp: prepareDevices_def Let_def find_None_iff2 find_None_iff fmlookup_dom_iff split: option.splits
      dest!: find_SomeD)

lemma prepareDevices_normal:
  "prepareDevices s claim = Inr (Some pds) \<Longrightarrow> list_all (\<lambda>pd. edits_normal (pdContainerEdits pd)) pds"
  by (auto simp: prepareDevices_Inr_iff preparedDevice_def edits_normal_def list_all_iff edits_lookup
      DeviceNodeContainerEdits_nonempty split: if_splits)

lemma fmupd_same: "fmlookup m k = Some v \<Longrightarrow> fmupd k v m = m"
  by (rule fmap_ext) auto

lemma Checkpoint_upd: "cp\<lparr>V1 := v\<rparr> = \<lparr>Checksum = Checksum cp, V1 = v\<rparr>"
  by (cases cp) simp

text \<open>The contents of the log directory go unless sharing is on and another claim is recorded.\<close>

definition keeps_logs :: "DeviceState \<Rightarrow> PreparedClaims \<Rightarrow> string \<Rightarrow> bool" where
  "keeps_logs s m uid \<longleftrightarrow> enabled (dsSharesPolicy s) \<and> (\<exists>u. u |\<in>| fmdom m \<and> u \<noteq> uid)"

text \<open>The entries of a directory without those of the given names.\<close>

definition entries_left :: "string \<Rightarrow> string list \<Rightarrow> string list \<Rightarrow> string list" where
  "entries_left d names xs = filter (\<lambda>x. path_join [d, x] \<notin> (\<lambda>y. path_join [d, y]) ` set names) xs"

section \<open>What the services promise the device state\<close>

context claim_services
begin

lemma remove_entries_frame:
  "remove_entries sv d ds n = (n', r) \<Longrightarrow> ledger n' = ledger n \<and> spec_at n' = spec_at n"
  by (induction ds arbitrary: n) (auto split: prod.splits option.splits dest: remove_all_frame)

lemma RemoveDirContents_frame:
  "RemoveDirContents sv d n = (n', r) \<Longrightarrow> ledger n' = ledger n \<and> spec_at n' = spec_at n"
  by (auto simp: RemoveDirContents_def split: prod.splits dest: remove_entries_frame)

lemma remove_entries_gone:
  "remove_entries sv d ds n = (n', None) \<Longrightarrow> logs n' d = entries_left d ds (logs n d)"
proof (induction ds arbitrary: n)
  case (Cons x ds)
  then obtain n1 where "svRemoveAll sv (path_join [d, x]) n = (n1, None)"
    and "remove_entries sv d ds n1 = (n', None)" by (auto split: prod.splits option.splits)
  with Cons.IH [of n1] remove_all [of "path_join [d, x]" n n1 d] show ?case
    by (auto simp: entries_left_def intro!: filter_cong)
qed (simp add: entries_left_def)

text \<open>What was listed goes, so all of it when the reading had no error.\<close>

lemma RemoveDirContents_removes:
  "RemoveDirContents sv d n = (n', None) \<Longrightarrow>
     logs n' d = entries_left d (fst (svReadDir sv d n)) (logs n d) \<and> (snd (svReadDir sv d n) = None \<longrightarrow> logs n' d = [])"
  using remove_entries_gone read_dir [of d n]
  by (auto simp: RemoveDirContents_def entries_left_def filter_empty_conv split: prod.splits)

text \<open>With a readable ledger the two handlers work on the ledger's map.\<close>

lemma Prepare_unfold:
  assumes "ledger n = Some m" and "svGetCheckpoint sv DriverPluginCheckpointFile newCheckpoint n = Inr cp"
  shows "Prepare sv s claim n =
    (let uid = claimUID claim in
     case claim_entry m uid of
       Some ds \<Rightarrow> (case CreateClaimSpecFile sv uid (Some ds) n of
           (n, Some e) \<Rightarrow> (n, Inl (ErrWrap ''unable to recreate CDI spec file for claim %v from checkpoint: %w'' [uid] e))
         | (n, None) \<Rightarrow> (n, Inr (map pdDevice ds)))
     | None \<Rightarrow> (case prepareDevices s claim of
           Inl e \<Rightarrow> (n, Inl (unless_panic (ErrText ''prepare failed for claim %v: %v'' [uid]) e))
         | Inr pds \<Rightarrow> (case CreateClaimSpecFile sv uid pds n of
               (n, Some e) \<Rightarrow> (n, Inl (ErrText ''unable to create CDI spec file for claim: %v'' [] e))
             | (n, None) \<Rightarrow>
                 (case svCreateCheckpoint sv DriverPluginCheckpointFile
                         \<lparr>Checksum = Checksum cp, V1 = Some \<lparr>cvPreparedClaims = Some (fmupd uid pds m)\<rparr>\<rparr> n of
                    (n, Some e) \<Rightarrow> (n, Inl (ErrText ''unable to sync to checkpoint: %v'' [] e))
                  | (n, None) \<Rightarrow> (n, Inr (GetDevices pds))))))"
  using get_ledger [OF assms(2,1)] assms(2)
  by (cases "claim_entry m (claimUID claim)"; cases "prepareDevices s claim")
    (auto simp: Prepare_def Let_def Checkpoint_upd GetDevices_def split: prod.split option.split)

lemma Prepare_outcome:
  assumes led: "ledger n = Some m" and norm: "claims_normal m"
    and run: "Prepare sv s claim n = (n', Inr devs)"
  obtains pds where "pds \<noteq> []" and "devs = map pdDevice pds"
    and "if claim_entry m (claimUID claim) = None then prepareDevices s claim = Inr (Some pds)
         else claim_entry m (claimUID claim) = Some pds"
    and "ledger n' = Some (fmupd (claimUID claim) (Some pds) m)"
    and "claims_normal (fmupd (claimUID claim) (Some pds) m)"
    and "\<And>f. plain_name (claimSpecName (claimUID claim)) \<Longrightarrow> plain_name f \<Longrightarrow> spec_at n' f =
           (if f = claimSpecName (claimUID claim) then Some (claimSpec (claimUID claim) (Some pds)) else spec_at n f)"
    and "logs n' = logs n"
    and "distinct (map (\<lambda>pd. DeviceName (pdDevice pd)) pds)"
proof -
  let ?u = "claimUID claim"
  obtain cp where cp: "svGetCheckpoint sv DriverPluginCheckpointFile newCheckpoint n = Inr cp"
    using run by (auto simp: Prepare_def Let_def split: sum.splits)
  note unf = Prepare_unfold [OF led cp, of s claim]
  have checked: "pds \<noteq> [] \<and> distinct (map (\<lambda>pd. DeviceName (pdDevice pd)) pds)"
    if "CreateClaimSpecFile sv ?u (Some pds) k = (k', None)" for pds k k'
  proof -
    from write_checked that have "pds \<noteq> []" "distinct (map (\<lambda>pd. claimDeviceName ?u (DeviceName (pdDevice pd))) pds)"
      by (auto simp: CreateClaimSpecFile_def claimSpec_def claimDevice_def Let_def comp_def dest!: write_checked)
    then show ?thesis by (auto simp: claimDeviceName_def distinct_map inj_on_def)
  qed
  show thesis
  proof (cases "claim_entry m ?u")
    case (Some ds)
    with run unf have w: "CreateClaimSpecFile sv ?u (Some ds) n = (n', None)" and d: "devs = map pdDevice ds"
      by (auto simp: Let_def split: prod.splits option.splits)
    have same: "fmupd ?u (Some ds) m = m" using claim_entry_SomeD [OF Some] by (rule fmupd_same)
    from w have w': "svWriteSpec sv (claimSpec ?u (Some ds)) (claimSpecName ?u) n = (n', None)"
      by (simp add: CreateClaimSpecFile_def)
    show thesis
      by (rule that [of ds])
        (use checked [OF w] Some d led norm same write_frame [OF w'] write_spec [OF _ _ w'] in auto)
  next
    case None
    with run unf obtain pds n1 where p: "prepareDevices s claim = Inr pds"
      and w: "CreateClaimSpecFile sv ?u pds n = (n1, None)"
      and c: "svCreateCheckpoint sv DriverPluginCheckpointFile
          \<lparr>Checksum = Checksum cp, V1 = Some \<lparr>cvPreparedClaims = Some (fmupd ?u pds m)\<rparr>\<rparr> n1 = (n', None)"
      and d: "devs = GetDevices pds"
      by (auto simp: Let_def split: prod.splits option.splits sum.splits)
    from w have w': "svWriteSpec sv (claimSpec ?u pds) (claimSpecName ?u) n = (n1, None)"
      by (simp add: CreateClaimSpecFile_def)
    with write_checked obtain ds where ds: "pds = Some ds"
      by (fastforce simp: claimSpec_def Let_def split: option.splits)
    have norm': "claims_normal (fmupd ?u (Some ds) m)"
      using norm prepareDevices_normal p ds by (intro claims_normal_upd) auto
    show thesis
      by (rule that [of ds])
        (use checked [of ds] w None p d ds norm' create_ledger [OF _ c] create_frame [OF c] write_frame [OF w']
            write_spec [OF _ _ w'] in \<open>auto simp: GetDevices_def\<close>)
  qed
qed

lemma Prepare_error:
  assumes led: "ledger n = Some m" and run: "Prepare sv s claim n = (n', Inl e)"
  shows "ledger n' = Some m \<and> logs n' = logs n \<and>
    (\<forall>f. plain_name (claimSpecName (claimUID claim)) \<longrightarrow> plain_name f \<longrightarrow> f \<noteq> claimSpecName (claimUID claim) \<longrightarrow>
       spec_at n' f = spec_at n f)"
proof (cases "svGetCheckpoint sv DriverPluginCheckpointFile newCheckpoint n")
  case (Inl a)
  with run led show ?thesis by (simp add: Prepare_def Let_def)
next
  case (Inr cp)
  note unf = Prepare_unfold [OF led Inr, of s claim]
  have same: "n' = n \<or> (\<exists>pds. svWriteSpec sv (claimSpec (claimUID claim) pds) (claimSpecName (claimUID claim)) n = (n', None))"
    using run unf
    by (auto simp: Let_def CreateClaimSpecFile_def split: prod.splits option.splits sum.splits
        dest: write_err create_err)
  then show ?thesis
  proof
    assume "n' = n"
    with led show ?thesis by simp
  next
    assume "\<exists>pds. svWriteSpec sv (claimSpec (claimUID claim) pds) (claimSpecName (claimUID claim)) n = (n', None)"
    then obtain pds where w: "svWriteSpec sv (claimSpec (claimUID claim) pds) (claimSpecName (claimUID claim)) n = (n', None)"
      by blast
    with led write_frame [OF w] write_spec [OF _ _ w] show ?thesis by auto
  qed
qed

lemma Unprepare_unfold:
  assumes "ledger n = Some m" and "svGetCheckpoint sv DriverPluginCheckpointFile newCheckpoint n = Inr cp"
  shows "Unprepare sv s uid n =
    (if claim_entry m uid = None then (n, None)
     else (case unprepareDevices sv s uid cp n of
         (n, Some e) \<Rightarrow> (n, Some (ErrText ''unprepare failed for claim %v: %v'' [uid] e))
       | (n, None) \<Rightarrow> (case DeleteClaimSpecFile sv uid n of
             (n, Some e) \<Rightarrow> (n, Some (ErrText ''unable to delete CDI spec file for claim: %v'' [] e))
           | (n, None) \<Rightarrow> (case svCreateCheckpoint sv DriverPluginCheckpointFile
                   \<lparr>Checksum = Checksum cp, V1 = Some \<lparr>cvPreparedClaims = Some (fmdrop uid m)\<rparr>\<rparr> n of
                 (n, Some e) \<Rightarrow> (n, Some (ErrText ''unable to sync to checkpoint: %v'' [] e))
               | (n, None) \<Rightarrow> (n, None)))))"
  using get_ledger [OF assms(2,1)] assms(2)
  by (auto simp: Unprepare_def Let_def Checkpoint_upd split: prod.split option.split)

lemma unprepareDevices_cases:
  assumes "V1 cp = Some \<lparr>cvPreparedClaims = Some m\<rparr>" and "unprepareDevices sv s uid cp n = (n', r)"
  shows "if keeps_logs s m uid then n' = n \<and> r = None
    else \<exists>r'. RemoveDirContents sv (logDir s) n = (n', r') \<and> (r' = None \<longleftrightarrow> r = None)"
  using assms
  by (auto simp: unprepareDevices_def hasOtherPreparedClaims_def keeps_logs_def
      split: prod.splits option.splits if_splits)

lemma unprepareDevices_frame:
  assumes "V1 cp = Some \<lparr>cvPreparedClaims = Some m\<rparr>" and "unprepareDevices sv s uid cp n = (n', r)"
  shows "ledger n' = ledger n \<and> spec_at n' = spec_at n \<and>
    (r = None \<longrightarrow> (if keeps_logs s m uid then logs n' = logs n
       else logs n' (logDir s) = entries_left (logDir s) (fst (svReadDir sv (logDir s) n)) (logs n (logDir s)) \<and>
            (snd (svReadDir sv (logDir s) n) = None \<longrightarrow> logs n' (logDir s) = [])))"
  using unprepareDevices_cases [OF assms] RemoveDirContents_frame [of "logDir s" n n']
    RemoveDirContents_removes [of "logDir s" n n']
  by (auto split: if_splits)

lemma Unprepare_outcome:
  assumes led: "ledger n = Some m" and norm: "claims_normal m" and run: "Unprepare sv s uid n = (n', None)"
    and held: "claim_entry m uid \<noteq> None"
  shows "ledger n' = Some (fmdrop uid m) \<and> claims_normal (fmdrop uid m) \<and>
    (\<forall>f. plain_name (claimSpecName uid) \<longrightarrow> plain_name f \<longrightarrow>
       spec_at n' f = (if f = claimSpecName uid then None else spec_at n f)) \<and>
    (if keeps_logs s m uid then logs n' = logs n
     else logs n' (logDir s) = entries_left (logDir s) (fst (svReadDir sv (logDir s) n)) (logs n (logDir s)) \<and>
          (snd (svReadDir sv (logDir s) n) = None \<longrightarrow> logs n' (logDir s) = []))"
proof -
  obtain cp where cp: "svGetCheckpoint sv DriverPluginCheckpointFile newCheckpoint n = Inr cp"
    using run by (auto simp: Unprepare_def Let_def split: sum.splits)
  from run held Unprepare_unfold [OF led cp, of s uid] obtain n1 n2
    where u: "unprepareDevices sv s uid cp n = (n1, None)"
      and d: "svRemoveSpec sv (claimSpecName uid) n1 = (n2, None)"
      and c: "svCreateCheckpoint sv DriverPluginCheckpointFile
          \<lparr>Checksum = Checksum cp, V1 = Some \<lparr>cvPreparedClaims = Some (fmdrop uid m)\<rparr>\<rparr> n2 = (n', None)"
    by (auto simp: DeleteClaimSpecFile_def split: prod.splits option.splits)
  have norm': "claims_normal (fmdrop uid m)" using norm by (rule claims_normal_drop)
  from unprepareDevices_frame [OF get_ledger [OF cp led] u] remove_frame [OF d] remove_spec [OF _ _ d]
    create_frame [OF c] create_ledger [OF norm' c] norm'
  show ?thesis by auto
qed

lemma Unprepare_unknown:
  assumes "ledger n = Some m" and "claim_entry m uid = None"
  shows "fst (Unprepare sv s uid n) = n"
proof (cases "svGetCheckpoint sv DriverPluginCheckpointFile newCheckpoint n")
  case (Inr cp)
  with Unprepare_unfold [OF assms(1) Inr, of s uid] assms show ?thesis by simp
qed (simp add: Unprepare_def)

lemma Unprepare_error:
  assumes led: "ledger n = Some m" and run: "Unprepare sv s uid n = (n', Some e)"
  shows "ledger n' = Some m \<and> (\<forall>f. plain_name (claimSpecName uid) \<longrightarrow> plain_name f \<longrightarrow>
    f \<noteq> claimSpecName uid \<longrightarrow> spec_at n' f = spec_at n f)"
proof (cases "svGetCheckpoint sv DriverPluginCheckpointFile newCheckpoint n")
  case (Inl a)
  with run led show ?thesis by (simp add: Unprepare_def Let_def)
next
  case (Inr cp)
  show ?thesis
  proof (cases "claim_entry m uid = None")
    case True
    with Unprepare_unfold [OF led Inr, of s uid] run led show ?thesis by simp
  next
    case False
    obtain n1 r1 where u: "unprepareDevices sv s uid cp n = (n1, r1)" by force
    note f1 = unprepareDevices_frame [OF get_ledger [OF Inr led] u]
    obtain n2 r2 where d: "svRemoveSpec sv (claimSpecName uid) n1 = (n2, r2)" by force
    have "n' = n1 \<or> (r2 = None \<and> n' = n2)"
      using run False Unprepare_unfold [OF led Inr, of s uid] u d
      by (auto simp: DeleteClaimSpecFile_def split: prod.splits option.splits dest: remove_err create_err)
    then show ?thesis
      using f1 led d remove_frame [OF d] remove_spec [of "claimSpecName uid" _ n1 n2] by auto
  qed
qed

end

section \<open>No handler panics on a readable checkpoint\<close>

lemma is_panic_unless [simp]: "(\<And>e. \<not> is_panic (f e)) \<Longrightarrow> is_panic (unless_panic f e) \<longleftrightarrow> is_panic e"
  by (simp add: unless_panic_def)

context claim_services
begin

lemma Prepare_no_panic:
  assumes "ledger n = Some m" and "dsTm s \<noteq> None" and "Prepare sv s claim n = (n', Inl e)"
  shows "\<not> is_panic e"
proof (cases "svGetCheckpoint sv DriverPluginCheckpointFile newCheckpoint n")
  case (Inl a)
  with assms(3) show ?thesis by (auto simp: Prepare_def Let_def)
next
  case (Inr cp)
  have "\<not> is_panic e'" if "prepareDevices s claim = Inl e'" for e'
    using that assms(2) by (auto simp: prepareDevices_def Let_def split: option.splits if_splits)
  with assms(3) show ?thesis
    by (auto simp: Prepare_unfold [OF assms(1) Inr] Let_def split: prod.splits option.splits sum.splits)
qed

lemma Unprepare_no_panic:
  assumes "ledger n = Some m" and "Unprepare sv s uid n = (n', Some e)"
  shows "\<not> is_panic e"
proof (cases "svGetCheckpoint sv DriverPluginCheckpointFile newCheckpoint n")
  case (Inl a)
  with assms(2) show ?thesis by (auto simp: Unprepare_def)
next
  case (Inr cp)
  with assms(2) show ?thesis
    by (auto simp: Unprepare_unfold [OF assms(1) Inr] split: prod.splits option.splits if_splits)
qed

end

section \<open>Start\<close>

context claim_services
begin

text \<open>A start keeps the claims that are recorded, and records none where there was no checkpoint file.\<close>

lemma NewDeviceState_outcome:
  assumes "NewDeviceState sv u environ fs order cacheErr managerErr labels devDir policy n = (n', r)"
  shows "(ledger n \<noteq> None \<longrightarrow> ledger n' = ledger n) \<and> logs n' = logs n \<and>
    (\<forall>f. plain_name f \<longrightarrow> f \<noteq> claimSpecName cdiCommonDeviceName \<longrightarrow> spec_at n' f = spec_at n f)"
proof (cases "NewTPUManager environ labels devDir")
  case (Inl e)
  with assms show ?thesis by (simp add: NewDeviceState_def)
next
  case (Inr tm)
  note tm = this
  show ?thesis
  proof (cases "enumerateAllPossibleTpuDevices u environ fs tm")
    case (Inl e)
    with assms tm show ?thesis by (simp add: NewDeviceState_def)
  next
    case (Inr p)
    obtain devs tm' where e: "enumerateAllPossibleTpuDevices u environ fs tm = Inr (devs, tm')"
      using Inr by (cases p) simp
    let ?sp = "commonSpec environ order (envs tm') (commonMounts tm')"
    obtain n1 r1 where w: "svWriteSpec sv ?sp (claimSpecName cdiCommonDeviceName) n = (n1, r1)" by force
    then have w': "CreateCommonSpecFile sv environ order (envs tm') (commonMounts tm') n = (n1, r1)"
      by (simp add: CreateCommonSpecFile_def claimSpecName_def)
    have f1: "ledger n1 = ledger n \<and> logs n1 = logs n \<and>
        (\<forall>f. plain_name f \<longrightarrow> f \<noteq> claimSpecName cdiCommonDeviceName \<longrightarrow> spec_at n1 f = spec_at n f)"
      using write_frame [OF w] w write_spec [OF plain_claimSpecName [OF common_chars]]
      by (cases r1) (auto dest: write_err)
    obtain n2 r2 where c: "svCreateCheckpoint sv DriverPluginCheckpointFile newCheckpoint n1 = (n2, r2)" by force
    have "n' = n \<or> n' = n1 \<or> (n' = n2 \<and> (\<exists>ks. svListCheckpoints sv n1 = Inr ks \<and> DriverPluginCheckpointFile \<notin> set ks))"
      using assms tm e w' c
      by (auto simp: NewDeviceState_def Let_def split: option.splits sum.splits if_splits)
    then show ?thesis
    proof (elim disjE conjE exE)
      fix ks assume "n' = n2" "svListCheckpoints sv n1 = Inr ks" "DriverPluginCheckpointFile \<notin> set ks"
      moreover from this have "ledger n1 = None" using list_ledger by blast
      ultimately show ?thesis using f1 create_frame [OF c] by simp
    qed (use f1 in simp_all)
  qed
qed

lemma NewDeviceState_ok:
  assumes "NewDeviceState sv u environ fs order cacheErr managerErr labels devDir policy n = (n', Inr s)"
  obtains tm devs tm' where "NewTPUManager environ labels devDir = Inr tm"
    and "enumerateAllPossibleTpuDevices u environ fs tm = Inr (devs, tm')"
    and "s = \<lparr>dsAllocatable = devs, dsTm = Some tm', dsSharesPolicy = policy, dsTpuLogDir = tpuLogDir tm'\<rparr>"
    and "spec_at n' (claimSpecName cdiCommonDeviceName) = Some (commonSpec environ order (envs tm') (commonMounts tm'))"
    and "ledger n' = Some fmempty \<or>
      (ledger n' = ledger n \<and> (\<exists>ks. svListCheckpoints sv n = Inr ks \<and> DriverPluginCheckpointFile \<in> set ks))"
proof -
  from assms obtain tm devs tm' n1 where tm: "NewTPUManager environ labels devDir = Inr tm"
    and e: "enumerateAllPossibleTpuDevices u environ fs tm = Inr (devs, tm')"
    and w: "svWriteSpec sv (commonSpec environ order (envs tm') (commonMounts tm')) (claimSpecName cdiCommonDeviceName) n = (n1, None)"
    and s: "s = \<lparr>dsAllocatable = devs, dsTm = Some tm', dsSharesPolicy = policy, dsTpuLogDir = tpuLogDir tm'\<rparr>"
    and fin: "(n' = n1 \<and> (\<exists>ks. svListCheckpoints sv n1 = Inr ks \<and> DriverPluginCheckpointFile \<in> set ks)) \<or>
        svCreateCheckpoint sv DriverPluginCheckpointFile newCheckpoint n1 = (n', None)"
    by (auto simp: NewDeviceState_def CreateCommonSpecFile_def claimSpecName_def Let_def
        split: option.splits sum.splits prod.splits if_splits)
  have common: "spec_at n1 (claimSpecName cdiCommonDeviceName) = Some (commonSpec environ order (envs tm') (commonMounts tm'))"
    using write_spec [OF _ _ w] plain_claimSpecName [OF common_chars] by simp
  show thesis
  proof (rule that [OF tm e s])
    show "spec_at n' (claimSpecName cdiCommonDeviceName) = Some (commonSpec environ order (envs tm') (commonMounts tm'))"
      using fin common create_frame by auto
    show "ledger n' = Some fmempty \<or>
        (ledger n' = ledger n \<and> (\<exists>ks. svListCheckpoints sv n = Inr ks \<and> DriverPluginCheckpointFile \<in> set ks))"
      using fin create_ledger [of fmempty 0 n1 n'] write_frame [OF w] write_list [OF w] by (auto simp: newCheckpoint_def)
  qed
qed

end

section \<open>A node without faults\<close>

text \<open>On a node whose operations do not fail, a specification the library accepts is written.\<close>

locale reliable_services = claim_services sv ledger spec_at logs
  for sv :: "'n services" and ledger and spec_at and logs +
  fixes writable :: "Spec \<Rightarrow> bool"
  assumes get_total: "ledger n = Some m \<Longrightarrow> \<exists>cp. svGetCheckpoint sv DriverPluginCheckpointFile newCheckpoint n = Inr cp"
    and create_total: "snd (svCreateCheckpoint sv k cp n) = None"
    and write_total: "writable sp \<Longrightarrow> snd (svWriteSpec sv sp f n) = None"
    and remove_total: "snd (svRemoveSpec sv f n) = None"
    and remove_all_total: "snd (svRemoveAll sv p n) = None"

context reliable_services
begin

lemma remove_entries_total: "snd (remove_entries sv d ds n) = None"
proof (induction ds arbitrary: n)
  case (Cons x ds)
  then show ?case using remove_all_total [of "path_join [d, x]" n]
    by (cases "svRemoveAll sv (path_join [d, x]) n") auto
qed simp

lemma unprepareDevices_total: "snd (unprepareDevices sv s uid cp n) = None"
  using remove_entries_total [of "logDir s" "fst (svReadDir sv (logDir s) n)" n]
  by (auto simp: unprepareDevices_def RemoveDirContents_def split: prod.splits option.splits)

lemma Prepare_succeeds:
  assumes "ledger n = Some m" and "writable (claimSpec (claimUID claim) (Some pds))"
    and "if claim_entry m (claimUID claim) = None then prepareDevices s claim = Inr (Some pds)
         else claim_entry m (claimUID claim) = Some pds"
  shows "snd (Prepare sv s claim n) = Inr (map pdDevice pds)"
proof -
  obtain cp where "svGetCheckpoint sv DriverPluginCheckpointFile newCheckpoint n = Inr cp"
    using get_total assms(1) by blast
  note unf = Prepare_unfold [OF assms(1) this, of s claim]
  obtain n1 where w: "CreateClaimSpecFile sv (claimUID claim) (Some pds) n = (n1, None)"
    using write_total [OF assms(2), of "claimSpecName (claimUID claim)" n]
    by (cases "CreateClaimSpecFile sv (claimUID claim) (Some pds) n") (simp add: CreateClaimSpecFile_def)
  have c: "snd (svCreateCheckpoint sv DriverPluginCheckpointFile x n1) = None" for x
    by (rule create_total)
  show ?thesis
    using assms(3) c [of "\<lparr>Checksum = Checksum cp, V1 = Some \<lparr>cvPreparedClaims = Some (fmupd (claimUID claim) (Some pds) m)\<rparr>\<rparr>"] w
    by (auto simp: unf Let_def GetDevices_def split: if_splits prod.splits option.splits)
qed

lemma Prepare_error_unchanged:
  assumes "ledger n = Some m" and "Prepare sv s claim n = (n', Inl e)"
  shows "n' = n"
proof -
  obtain cp where "svGetCheckpoint sv DriverPluginCheckpointFile newCheckpoint n = Inr cp"
    using get_total assms(1) by blast
  note unf = Prepare_unfold [OF assms(1) this, of s claim]
  have "svCreateCheckpoint sv k x n1 \<noteq> (n2, Some e')" for k x n1 n2 e'
    using create_total [of k x n1] by auto
  with assms(2) show ?thesis
    by (auto simp: unf Let_def CreateClaimSpecFile_def split: prod.splits option.splits sum.splits dest: write_err)
qed

lemma Unprepare_succeeds:
  assumes "ledger n = Some m"
  shows "snd (Unprepare sv s uid n) = None"
proof -
  obtain cp where "svGetCheckpoint sv DriverPluginCheckpointFile newCheckpoint n = Inr cp"
    using get_total assms by blast
  note unf = Unprepare_unfold [OF assms this, of s uid]
  obtain n1 where u: "unprepareDevices sv s uid cp n = (n1, None)"
    using unprepareDevices_total [of s uid cp n] by (cases "unprepareDevices sv s uid cp n") simp
  obtain n2 where d: "DeleteClaimSpecFile sv uid n1 = (n2, None)"
    using remove_total [of "claimSpecName uid" n1]
    by (cases "DeleteClaimSpecFile sv uid n1") (simp add: DeleteClaimSpecFile_def)
  show ?thesis
    using create_total [of DriverPluginCheckpointFile
        "\<lparr>Checksum = Checksum cp, V1 = Some \<lparr>cvPreparedClaims = Some (fmdrop uid m)\<rparr>\<rparr>" n2] u d
    by (auto simp: unf split: prod.splits option.splits)
qed

end

end
