(* ===== verification/Checkpointing.thy ===== *)
theory Checkpointing
  imports Json
begin

text \<open>
  The checkpoint of checkpoint.go: its checksum is that of its own encoding with a zero checksum.
  The hash of the kubelet's checksum package is a parameter \<open>ck\<close> of encodings.
\<close>

text \<open>\<open>MarshalCheckpoint\<close> leaves the new checksum in the checkpoint it is called on.\<close>

definition MarshalCheckpoint :: "(json \<Rightarrow> 64 word) \<Rightarrow> Checkpoint \<Rightarrow> Checkpoint \<times> json" where
  "MarshalCheckpoint ck cp =
     (let cp = cp\<lparr>Checksum := 0\<rparr>; out = enc_Checkpoint cp; cp = cp\<lparr>Checksum := ck out\<rparr>
      in (cp, enc_Checkpoint cp))"

definition UnmarshalCheckpoint :: "json \<Rightarrow> Checkpoint \<Rightarrow> Checkpoint result" where
  "UnmarshalCheckpoint blob cp = dec_Checkpoint blob cp"

definition VerifyChecksum :: "(json \<Rightarrow> 64 word) \<Rightarrow> Checkpoint \<Rightarrow> go_error option" where
  "VerifyChecksum ck cp =
     (if Checksum cp = ck (enc_Checkpoint (cp\<lparr>Checksum := 0\<rparr>)) then None else Some ErrCorruptCheckpoint)"

lemma marshalled:
  "MarshalCheckpoint ck (checkpoint_of m) =
     (let cp = (checkpoint_of m)\<lparr>Checksum := ck (enc_Checkpoint (checkpoint_of m))\<rparr> in (cp, enc_Checkpoint cp))"
  by (simp add: MarshalCheckpoint_def checkpoint_of_def Let_def)

lemma MarshalCheckpoint_checksum_irrelevant:
  "MarshalCheckpoint ck (cp\<lparr>Checksum := c\<rparr>) = MarshalCheckpoint ck cp"
  by (simp add: MarshalCheckpoint_def)

section \<open>Properties\<close>

text \<open>C32 (roundtrip). Whatever checksum a checkpoint carries from before (the handlers marshal the one they read, with
  its claims changed), \<open>MarshalCheckpoint\<close> writes what \<open>UnmarshalCheckpoint\<close> reads back into a fresh
  checkpoint, \<open>nil\<close> device lists and absent edits included, with the claims unchanged and a checksum
  that verifies, whatever the checksum function.\<close>

theorem checkpoint_roundtrip:
  assumes "claims_normal m" and "MarshalCheckpoint ck \<lparr>Checksum = old, V1 = Some \<lparr>cvPreparedClaims = Some m\<rparr>\<rparr> = (cp, blob)"
  shows "UnmarshalCheckpoint blob newCheckpoint = Inr cp \<and> VerifyChecksum ck cp = None \<and>
    V1 cp = Some \<lparr>cvPreparedClaims = Some m\<rparr>"
proof -
  have eq: "\<lparr>Checksum = old, V1 = Some \<lparr>cvPreparedClaims = Some m\<rparr>\<rparr> = (checkpoint_of m)\<lparr>Checksum := old\<rparr>"
    by (simp add: checkpoint_of_def)
  from assms(2) have cp: "cp = \<lparr>Checksum = ck (enc_Checkpoint (checkpoint_of m)), V1 = Some \<lparr>cvPreparedClaims = Some m\<rparr>\<rparr>"
    and blob: "blob = enc_Checkpoint cp"
    unfolding eq MarshalCheckpoint_checksum_irrelevant marshalled Let_def by (auto simp: checkpoint_of_def)
  have "UnmarshalCheckpoint blob newCheckpoint = Inr cp"
    unfolding blob cp UnmarshalCheckpoint_def using assms(1) by (rule dec_enc_Checkpoint)
  then show ?thesis by (simp add: cp VerifyChecksum_def checkpoint_of_def)
qed

lemma checkpoint_roundtrip_witness:
  "\<exists>cp blob. MarshalCheckpoint (\<lambda>_. 7) \<lparr>Checksum = 5, V1 = Some \<lparr>cvPreparedClaims = Some (fmupd ''c1'' None fmempty)\<rparr>\<rparr> = (cp, blob) \<and>
     UnmarshalCheckpoint blob newCheckpoint = Inr cp \<and> VerifyChecksum (\<lambda>_. 7) cp = None"
proof -
  obtain cp blob where m: "MarshalCheckpoint (\<lambda>_. 7) \<lparr>Checksum = 5, V1 = Some \<lparr>cvPreparedClaims = Some (fmupd ''c1'' None fmempty)\<rparr>\<rparr> = (cp, blob)"
    by force
  have "claims_normal (fmupd ''c1'' None fmempty)" by (simp add: claims_normal_def)
  from checkpoint_roundtrip [OF this m] m show ?thesis by blast
qed

text \<open>C33 (safety). A checkpoint file whose claims were changed while its checksum was not is rejected, unless
  the checksum function collides on the two encodings.\<close>

theorem tampered_checkpoint_is_rejected:
  assumes "MarshalCheckpoint ck (checkpoint_of m) = (cp, blob)"
    and "V1 cp' = V1 (checkpoint_of m')" and "Checksum cp' = Checksum cp"
    and "claims_normal m" and "claims_normal m'" and "m' \<noteq> m"
    and "inj_on ck {enc_Checkpoint (checkpoint_of m), enc_Checkpoint (checkpoint_of m')}"
  shows "VerifyChecksum ck cp' = Some ErrCorruptCheckpoint"
proof -
  have zero: "cp'\<lparr>Checksum := 0\<rparr> = checkpoint_of m'"
    using assms(2) by (cases cp') (simp add: checkpoint_of_def)
  have "enc_Checkpoint (checkpoint_of m) \<noteq> enc_Checkpoint (checkpoint_of m')"
    using enc_Checkpoint_inject [OF assms(4,5)] assms(6) by (auto simp: checkpoint_of_def)
  with assms(7) have "ck (enc_Checkpoint (checkpoint_of m)) \<noteq> ck (enc_Checkpoint (checkpoint_of m'))"
    by (auto dest: inj_onD)
  moreover have "Checksum cp' = ck (enc_Checkpoint (checkpoint_of m))"
    using assms(1,3) by (auto simp: marshalled Let_def)
  ultimately show ?thesis by (simp add: VerifyChecksum_def zero)
qed

lemma tampered_checkpoint_is_rejected_witness:
  "\<exists>ck cp blob. MarshalCheckpoint ck (checkpoint_of fmempty) = (cp, blob) \<and>
     VerifyChecksum ck (cp\<lparr>V1 := V1 (checkpoint_of (fmupd ''c1'' None fmempty))\<rparr>) = Some ErrCorruptCheckpoint"
proof -
  let ?m' = "fmupd ''c1'' None fmempty :: PreparedClaims"
  let ?ck = "\<lambda>j. if j = enc_Checkpoint (checkpoint_of fmempty) then 0 else 1 :: 64 word"
  obtain cp blob where m: "MarshalCheckpoint ?ck (checkpoint_of fmempty) = (cp, blob)" by force
  have n: "claims_normal ?m'" by (simp add: claims_normal_def)
  have ne: "?m' \<noteq> fmempty" by (metis fmempty_lookup fmupd_lookup option.distinct(1))
  have "enc_Checkpoint (checkpoint_of ?m') \<noteq> enc_Checkpoint (checkpoint_of fmempty)"
    using enc_Checkpoint_inject [OF n claims_normal_empty] ne by (auto simp: checkpoint_of_def)
  then have "inj_on ?ck {enc_Checkpoint (checkpoint_of fmempty), enc_Checkpoint (checkpoint_of ?m')}"
    by simp
  from tampered_checkpoint_is_rejected [OF m _ _ claims_normal_empty n ne this,
      of "cp\<lparr>V1 := V1 (checkpoint_of ?m')\<rparr>"] m show ?thesis by auto
qed

end
