(* ===== verification/Disk.thy ===== *)
theory Disk
  imports Services Checkpointing
begin

text \<open>
  The node the driver runs on: the files of the checkpoint directory, the specification files of
  the CDI directory and the entries of the log directories. The outside operations are modelled
  as the kubelet's checkpoint manager, its file store and the CDI cache implement them, with a
  record \<open>io\<close> that says which calls the operating system fails, by what they are given and the disk
  they meet, so that one call of a handler may fail and the next succeed; writes replace a file by
  renaming, so a failed one changes nothing. The interfaces of theory \<open>Services\<close> are interpreted here.

  The contents of a checkpoint file are the JSON tree written; the CDI library's checks of a
  specification are those of the fields the driver fills (the kind is a constant it accepts).
\<close>

record disk =
  ckFiles :: "(string, json) fmap"
  cdiFiles :: "(string, Spec) fmap"
  dirEntries :: "string \<Rightarrow> string list"

record io =
  ckReadFails :: "disk \<Rightarrow> bool"
  ckListFails :: "(string, json) fmap \<Rightarrow> bool"
  ckWriteFails :: "Checkpoint \<Rightarrow> disk \<Rightarrow> bool"
  specWriteFails :: "string \<Rightarrow> disk \<Rightarrow> bool"
  specRemoveFails :: "string \<Rightarrow> disk \<Rightarrow> bool"
  rmFails :: "string \<Rightarrow> disk \<Rightarrow> bool"
  dirReadStops :: "string \<Rightarrow> disk \<Rightarrow> nat option"    \<comment> \<open>how many entries are read before an error\<close>

definition no_faults :: io where
  "no_faults = \<lparr>ckReadFails = (\<lambda>_. False), ckListFails = (\<lambda>_. False), ckWriteFails = (\<lambda>_ _. False),
     specWriteFails = (\<lambda>_ _. False), specRemoveFails = (\<lambda>_ _. False), rmFails = (\<lambda>_ _. False),
     dirReadStops = (\<lambda>_ _. None)\<rparr>"

section \<open>The CDI library's checks\<close>

definition is_alnum :: "char \<Rightarrow> bool" where
  "is_alnum c \<longleftrightarrow> is_lower c \<or> is_upper c \<or> is_digit c"

definition ValidateDeviceName :: "string \<Rightarrow> bool" where
  "ValidateDeviceName name \<longleftrightarrow>
     name \<noteq> [] \<and> is_alnum (hd name) \<and>
     (length name = 1 \<or>
        list_all (\<lambda>c. is_alnum c \<or> c \<in> set ''_-.:'') (butlast (tl name)) \<and> is_alnum (last name))"

text \<open>A variable has a name: the first \<open>=\<close> is there and not the first character.\<close>

definition ValidateEnv :: "string \<Rightarrow> bool" where
  "ValidateEnv v \<longleftrightarrow> CHR ''='' \<in> set v \<and> hd v \<noteq> CHR ''=''"

definition ValidateEdits :: "ContainerEdits \<Rightarrow> bool" where
  "ValidateEdits e \<longleftrightarrow>
     list_all ValidateEnv (Env e) \<and>
     list_all (\<lambda>d. dnPath d \<noteq> [] \<and> list_all (\<lambda>b. b \<in> set ''rwm'') (dnPermissions d)) (DeviceNodes e) \<and>
     list_all (\<lambda>m. mntHostPath m \<noteq> [] \<and> mntContainerPath m \<noteq> []) (Mounts e)"

definition ValidateSpec :: "Spec \<Rightarrow> bool" where
  "ValidateSpec spec \<longleftrightarrow>
     Devices spec \<noteq> [] \<and> distinct (map cdName (Devices spec)) \<and>
     list_all (\<lambda>d. ValidateDeviceName (cdName d) \<and>
                   (Env (cdEdits d) \<noteq> [] \<or> DeviceNodes (cdEdits d) \<noteq> [] \<or> Mounts (cdEdits d) \<noteq> []) \<and>
                   ValidateEdits (cdEdits d)) (Devices spec)"

text \<open>The file of a specification: the default extension is added unless one is there.\<close>

definition spec_file :: "string \<Rightarrow> string" where
  "spec_file name = (if HasSuffix name ''.json'' \<or> HasSuffix name ''.yaml'' then name else name @ ''.yaml'')"

lemma spec_file_plain: "plain_name f \<Longrightarrow> spec_file f = f @ ''.yaml''"
  by (simp add: spec_file_def plain_name_def)

section \<open>The operations\<close>

definition CheckpointManager_Get ::
  "(json \<Rightarrow> 64 word) \<Rightarrow> io \<Rightarrow> string \<Rightarrow> Checkpoint \<Rightarrow> disk \<Rightarrow> Checkpoint result" where
  "CheckpointManager_Get ck i key cp d =
     (if ckReadFails i d then Inl (ErrIO key)
      else (case fmlookup (ckFiles d) key of
          None \<Rightarrow> Inl ErrCheckpointNotFound
        | Some blob \<Rightarrow> rbind (UnmarshalCheckpoint blob cp) (\<lambda>cp.
            case VerifyChecksum ck cp of None \<Rightarrow> Inr cp | Some e \<Rightarrow> Inl e)))"

definition CheckpointManager_Create ::
  "(json \<Rightarrow> 64 word) \<Rightarrow> io \<Rightarrow> string \<Rightarrow> Checkpoint \<Rightarrow> disk \<Rightarrow> disk \<times> go_error option" where
  "CheckpointManager_Create ck i key cp d =
     (if ckWriteFails i cp d then (d, Some (ErrIO key))
      else (d\<lparr>ckFiles := fmupd key (snd (MarshalCheckpoint ck cp)) (ckFiles d)\<rparr>, None))"

text \<open>The store skips its own temporary files, whose names begin with a dot.\<close>

definition CheckpointManager_List :: "io \<Rightarrow> disk \<Rightarrow> string list result" where
  "CheckpointManager_List i d =
     (if ckListFails i (ckFiles d) then Inl (ErrIO ''checkpoint directory'')
      else Inr (filter (\<lambda>k. \<not> HasPrefix k ''.'') (sorted_list_of_fset (fmdom (ckFiles d)))))"

definition Cache_WriteSpec :: "io \<Rightarrow> Spec \<Rightarrow> string \<Rightarrow> disk \<Rightarrow> disk \<times> go_error option" where
  "Cache_WriteSpec i raw name d =
     (if \<not> ValidateSpec raw then (d, Some (Errorf ''invalid CDI Spec: %w'' []))
      else if specWriteFails i name d then (d, Some (ErrIO name))
      else (d\<lparr>cdiFiles := fmupd (spec_file name) raw (cdiFiles d)\<rparr>, None))"

text \<open>Removing a file that does not exist is not an error.\<close>

definition Cache_RemoveSpec :: "io \<Rightarrow> string \<Rightarrow> disk \<Rightarrow> disk \<times> go_error option" where
  "Cache_RemoveSpec i name d =
     (if specRemoveFails i name d then (d, Some (ErrIO name))
      else (d\<lparr>cdiFiles := fmdrop (spec_file name) (cdiFiles d)\<rparr>, None))"

definition os_ReadDir :: "io \<Rightarrow> string \<Rightarrow> disk \<Rightarrow> string list \<times> go_error option" where
  "os_ReadDir i dir d =
     (case dirReadStops i dir d of
        None \<Rightarrow> (dirEntries d dir, None)
      | Some k \<Rightarrow> (take k (dirEntries d dir), Some (ErrIO dir)))"

definition os_RemoveAll :: "io \<Rightarrow> string \<Rightarrow> disk \<Rightarrow> disk \<times> go_error option" where
  "os_RemoveAll i p d =
     (if rmFails i p d then (d, Some (ErrIO p))
      else (d\<lparr>dirEntries := \<lambda>dir. filter (\<lambda>x. path_join [dir, x] \<noteq> p) (dirEntries d dir)\<rparr>, None))"

definition disk_services :: "(json \<Rightarrow> 64 word) \<Rightarrow> io \<Rightarrow> disk services" where
  "disk_services ck i =
     \<lparr>svGetCheckpoint = CheckpointManager_Get ck i, svCreateCheckpoint = CheckpointManager_Create ck i,
      svListCheckpoints = CheckpointManager_List i, svWriteSpec = Cache_WriteSpec i,
      svRemoveSpec = Cache_RemoveSpec i, svReadDir = os_ReadDir i, svRemoveAll = os_RemoveAll i\<rparr>"

section \<open>What the files hold\<close>

definition disk_ledger :: "(json \<Rightarrow> 64 word) \<Rightarrow> disk \<Rightarrow> PreparedClaims option" where
  "disk_ledger ck d =
     (case fmlookup (ckFiles d) DriverPluginCheckpointFile of
        None \<Rightarrow> None
      | Some blob \<Rightarrow> (case UnmarshalCheckpoint blob newCheckpoint of
          Inl _ \<Rightarrow> None
        | Inr cp \<Rightarrow> if VerifyChecksum ck cp \<noteq> None then None
                    else (case V1 cp of None \<Rightarrow> None | Some v \<Rightarrow> cvPreparedClaims v)))"

definition disk_spec :: "disk \<Rightarrow> string \<Rightarrow> Spec option" where
  "disk_spec d f = fmlookup (cdiFiles d) (spec_file f)"

lemma disk_ledger_written:
  assumes "claims_normal m"
  shows "disk_ledger ck (d\<lparr>ckFiles := fmupd DriverPluginCheckpointFile
      (snd (MarshalCheckpoint ck \<lparr>Checksum = c, V1 = Some \<lparr>cvPreparedClaims = Some m\<rparr>\<rparr>)) (ckFiles d)\<rparr>) = Some m"
proof -
  let ?cp = "(checkpoint_of m)\<lparr>Checksum := ck (enc_Checkpoint (checkpoint_of m))\<rparr>"
  have eq: "\<lparr>Checksum = c, V1 = Some \<lparr>cvPreparedClaims = Some m\<rparr>\<rparr> = (checkpoint_of m)\<lparr>Checksum := c\<rparr>"
    by (simp add: checkpoint_of_def)
  have "snd (MarshalCheckpoint ck \<lparr>Checksum = c, V1 = Some \<lparr>cvPreparedClaims = Some m\<rparr>\<rparr>) = enc_Checkpoint ?cp"
    unfolding eq MarshalCheckpoint_checksum_irrelevant by (simp add: marshalled Let_def)
  moreover have "UnmarshalCheckpoint (enc_Checkpoint ?cp) newCheckpoint = Inr ?cp"
    using dec_enc_Checkpoint [OF assms, of "ck (enc_Checkpoint (checkpoint_of m))"]
    by (simp add: UnmarshalCheckpoint_def checkpoint_of_def)
  moreover have "VerifyChecksum ck ?cp = None" by (simp add: VerifyChecksum_def checkpoint_of_def)
  ultimately show ?thesis by (simp add: disk_ledger_def checkpoint_of_def)
qed

lemma disk_ledger_cong: "ckFiles d = ckFiles d' \<Longrightarrow> disk_ledger ck d = disk_ledger ck d'"
  by (simp add: disk_ledger_def)

lemmas disk_service_defs = disk_services_def CheckpointManager_Get_def CheckpointManager_Create_def
  Cache_WriteSpec_def Cache_RemoveSpec_def os_RemoveAll_def os_ReadDir_def

section \<open>The interfaces hold\<close>

interpretation dsk: claim_services "disk_services ck i" "disk_ledger ck" disk_spec dirEntries for ck i
proof unfold_locales
  fix n cp m
  assume "svGetCheckpoint (disk_services ck i) DriverPluginCheckpointFile newCheckpoint n = Inr cp" "disk_ledger ck n = Some m"
  then show "V1 cp = Some \<lparr>cvPreparedClaims = Some m\<rparr>"
    by (cases "V1 cp") (auto simp: disk_service_defs disk_ledger_def split: if_splits option.splits sum.splits)
next
  fix m c n n'
  assume "claims_normal m" and "svCreateCheckpoint (disk_services ck i) DriverPluginCheckpointFile
      \<lparr>Checksum = c, V1 = Some \<lparr>cvPreparedClaims = Some m\<rparr>\<rparr> n = (n', None)"
  then show "disk_ledger ck n' = Some m"
    using disk_ledger_written [where m = m and ck = ck and d = n and c = c] by (auto simp: disk_service_defs split: if_splits)
next
  fix n ks
  assume "svListCheckpoints (disk_services ck i) n = Inr ks" and "disk_ledger ck n \<noteq> None"
  then show "DriverPluginCheckpointFile \<in> set ks"
    by (auto simp: disk_services_def CheckpointManager_List_def disk_ledger_def DriverPluginCheckpointFile_def
        fmlookup_dom_iff split: if_splits option.splits)
qed (auto simp: disk_service_defs CheckpointManager_List_def disk_spec_def spec_file_plain ValidateSpec_def
    split: if_splits option.splits intro: disk_ledger_cong)

interpretation safe: reliable_services "disk_services ck no_faults" "disk_ledger ck" disk_spec dirEntries ValidateSpec for ck
proof unfold_locales
  fix n m
  assume "disk_ledger ck n = Some m"
  then show "\<exists>cp. svGetCheckpoint (disk_services ck no_faults) DriverPluginCheckpointFile newCheckpoint n = Inr cp"
    by (auto simp: disk_service_defs disk_ledger_def no_faults_def split: option.splits sum.splits if_splits)
qed (auto simp: disk_service_defs no_faults_def)

text \<open>Directories may be unreadable all the same: no handler fails for it.\<close>

interpretation torn: reliable_services "disk_services ck (no_faults\<lparr>dirReadStops := r\<rparr>)" "disk_ledger ck" disk_spec dirEntries
  ValidateSpec for ck r
proof unfold_locales
  fix n m
  assume "disk_ledger ck n = Some m"
  then show "\<exists>cp. svGetCheckpoint (disk_services ck (no_faults\<lparr>dirReadStops := r\<rparr>)) DriverPluginCheckpointFile newCheckpoint n = Inr cp"
    by (auto simp: disk_service_defs disk_ledger_def no_faults_def split: option.splits sum.splits if_splits)
qed (auto simp: disk_service_defs no_faults_def)

end
