(* ===== verification/Node.thy ===== *)
theory Node
  imports Disk
begin

text \<open>
  A node over time: the device state's handlers, restarts of the driver and whatever others do to the
  CDI files and the logs, as a labelled step relation on the disk and the device state that serves,
  each call with its own faults. A run refines a deterministic machine over the same labels that
  only knows what the kubelet was answered: the abstract ledger.
\<close>

section \<open>A well-formed device state\<close>

text \<open>A chip's name, \<open>accel<n>\<close> or a number: letters and digits.\<close>

definition chip_name :: "string \<Rightarrow> bool" where
  "chip_name k \<longleftrightarrow> k \<noteq> [] \<and> list_all is_alnum k"

definition chips :: "DeviceState \<Rightarrow> string set" where
  "chips s = fset (fmdom (dsAllocatable s))"

text \<open>What \<open>NewDeviceState\<close> establishes: as many chips as the manager counts, at least one.\<close>

definition state_ok :: "DeviceState \<Rightarrow> bool" where
  "state_ok s \<longleftrightarrow>
     (\<exists>tm. dsTm s = Some tm \<and> 0 < sint (tpuChipCount tm) \<and> of_nat (card (chips s)) = tpuChipCount tm \<and>
        DevDirectory tm \<noteq> []) \<and>
     card (chips s) < 2 ^ 63 \<and> (\<forall>k\<in>chips s. chip_name k)"

lemma chip_name_no_dash: "chip_name k \<Longrightarrow> CHR ''-'' \<notin> set k"
proof -
  have "\<not> is_alnum CHR ''-''" by code_simp
  then show "chip_name k \<Longrightarrow> ?thesis" by (auto simp: chip_name_def list_all_iff)
qed

lemma accel_name: "MatchString tpuV4DeviceRegex k \<Longrightarrow> chip_name k"
proof -
  have "list_all is_alnum ''accel''" by code_simp
  moreover have "is_alnum c" if "c \<in> set digit_class" for c
    using that by (simp add: digit_class_set is_alnum_def)
  ultimately show "MatchString tpuV4DeviceRegex k \<Longrightarrow> ?thesis"
    by (auto simp: MatchString_lang tpuV4DeviceRegex_def chip_name_def list_all_iff)
qed

lemma group_name: "MatchString tpuDeviceNumericalRegex k \<Longrightarrow> chip_name k"
  by (auto simp: MatchString_lang tpuDeviceNumericalRegex_def chip_name_def list_all_iff is_alnum_def
      digit_class_set subset_iff)

text \<open>A new state has the chips whose files the walk over the device directory accepts.\<close>

lemma NewDeviceState_chips:
  assumes run: "NewDeviceState sv u environ fs order cacheErr managerErr labels devDir policy n = (n', Inr s)"
    and sv: "claim_services sv ledger spec_at logs"
    and files: "ReadDir fs devDir = Some files" "distinct (map Name files)"
  obtains tm where "dsTm s = Some tm" and "0 < sint (tpuChipCount tm)" and "DevDirectory tm = devDir"
    and "chips s = set (tpu_files (deviceRegex tm) files)"
    and "tpuChipCount tm = of_nat (length (tpu_files (deviceRegex tm) files))"
    and "dsSharesPolicy s = policy" and "nodeLabels tm = labels"
proof -
  from claim_services.NewDeviceState_ok [OF sv run] obtain tm devs tm' where
    tm: "NewTPUManager environ labels devDir = Inr tm" and
    e: "enumerateAllPossibleTpuDevices u environ fs tm = Inr (devs, tm')" and
    s: "s = \<lparr>dsAllocatable = devs, dsTm = Some tm', dsSharesPolicy = policy, dsTpuLogDir = tpuLogDir tm'\<rparr>"
    by metis
  note t = NewTPUManager_Inr [OF tm]
  from e t files(1) have tm': "tm' = tm\<lparr>devices := devs\<rparr>"
    and fold: "foldl (enumerate_step u environ tm (deviceRegex tm)) (0, fmempty) files = (tpuChipCount tm, devs)"
    by (auto simp: enumerate_Inr_iff)
  have "deviceRegex tm' = deviceRegex tm" by (simp add: tm' deviceRegex_def)
  with enumerate_loop [OF fold files(2)] t show thesis
    by (intro that [of tm']) (auto simp: chips_def s tm')
qed

lemma NewDeviceState_state_ok:
  assumes run: "NewDeviceState sv u environ fs order cacheErr managerErr labels devDir policy n = (n', Inr s)"
    and sv: "claim_services sv ledger spec_at logs"
    and files: "ReadDir fs devDir = Some files" "distinct (map Name files)" "length files < 2 ^ 63"
    and dir: "devDir \<noteq> []"
  shows "state_ok s"
proof (rule NewDeviceState_chips [OF run sv files(1,2)])
  fix tm
  let ?names = "tpu_files (deviceRegex tm) files"
  assume tm: "dsTm s = Some tm" "0 < sint (tpuChipCount tm)" "DevDirectory tm = devDir"
    and dom: "chips s = set ?names" and cnt: "tpuChipCount tm = of_nat (length ?names)"
  have "distinct ?names" using files(2) by (simp add: tpu_files_def distinct_map_filter)
  then have card: "card (chips s) = length ?names" by (simp add: dom distinct_card)
  have "length ?names < 2 ^ 63"
    unfolding tpu_files_def length_map by (rule order.strict_trans1 [OF length_filter_le]) (rule files(3))
  moreover have "\<forall>k\<in>chips s. chip_name k"
    using accel_name group_name by (auto simp: dom tpu_files_def deviceRegex_def split: if_splits)
  ultimately show ?thesis using tm dir by (auto simp: state_ok_def card cnt)
qed

section \<open>What the ledger holds\<close>

text \<open>The record of a prepared claim: every chip once, with the common and its own CDI name and its device nodes.\<close>

definition record_ok :: "DeviceState \<Rightarrow> string \<Rightarrow> PreparedDevice list \<Rightarrow> bool" where
  "record_ok s u ds \<longleftrightarrow>
     distinct (map (\<lambda>pd. DeviceName (pdDevice pd)) ds) \<and>
     set (map (\<lambda>pd. DeviceName (pdDevice pd)) ds) = chips s \<and>
     (\<forall>pd\<in>set ds. CDIDeviceIDs (pdDevice pd) = Some (GetClaimDevices u [DeviceName (pdDevice pd)]) \<and>
        (\<exists>tm. dsTm s = Some tm \<and> pdContainerEdits pd = Some (Some
           \<lparr>Env = [], DeviceNodes = DeviceNodeContainerEdits tm (DeviceName (pdDevice pd)), Mounts = []\<rparr>)))"

definition ledger_ok :: "DeviceState \<Rightarrow> PreparedClaims \<Rightarrow> bool" where
  "ledger_ok s m \<longleftrightarrow> (\<forall>u e. fmlookup m u = Some e \<longrightarrow> (\<exists>ds. e = Some ds \<and> record_ok s u ds))"

definition node_ok :: "(json \<Rightarrow> 64 word) \<Rightarrow> DeviceState \<Rightarrow> disk \<Rightarrow> bool" where
  "node_ok ck s d \<longleftrightarrow> (\<exists>m. disk_ledger ck d = Some m \<and> claims_normal m \<and> ledger_ok s m)"

lemma card_eq_imp_all:
  assumes "distinct xs" and "set xs \<subseteq> A" and "finite A"
    and "(of_nat (length xs) :: i64) = of_nat (card A)" and "card A < 2 ^ 63"
  shows "set xs = A"
proof -
  have "length xs \<le> card A" using assms(1-3) by (metis card_mono distinct_card)
  with assms(5) have "take_bit 64 (length xs) = length xs" "take_bit 64 (card A) = card A"
    by (simp_all add: take_bit_nat_eq_self_iff)
  with assms(4) have "length xs = card A" by (simp add: word_of_nat_eq_iff)
  with assms(1-3) show ?thesis by (metis card_subset_eq distinct_card)
qed

text \<open>A fresh preparation takes every chip: it takes as many as there are, none twice, and only known ones.\<close>

lemma prepared_record_ok:
  assumes "state_ok s" and "prepareDevices s claim = Inr (Some ds)"
    and "distinct (map (\<lambda>pd. DeviceName (pdDevice pd)) ds)"
  shows "record_ok s (claimUID claim) ds"
proof -
  from assms(2) obtain allocated tm where tm: "dsTm s = Some tm"
    and n: "of_nat (length (ownResults allocated)) = tpuChipCount tm"
    and known: "\<forall>r\<in>set (ownResults allocated). resDevice r |\<in>| fmdom (dsAllocatable s)"
    and ds: "ds = map (preparedDevice (claimUID claim) (getDeviceContainerEdits tm (ownResults allocated))) (ownResults allocated)"
    by (auto simp: prepareDevices_Inr_iff split: if_splits)
  have names: "map (\<lambda>pd. DeviceName (pdDevice pd)) ds = map resDevice (ownResults allocated)"
    by (simp add: ds preparedDevice_def)
  have "set (map resDevice (ownResults allocated)) = chips s"
  proof (rule card_eq_imp_all)
    show "distinct (map resDevice (ownResults allocated))" using assms(3) names by simp
    show "set (map resDevice (ownResults allocated)) \<subseteq> chips s" using known by (auto simp: chips_def)
  qed (use assms(1) tm n in \<open>auto simp: state_ok_def chips_def\<close>)
  with names assms(3) tm show ?thesis
    by (auto simp: record_ok_def ds preparedDevice_def edits_lookup)
qed

lemma ledger_ok_upd: "ledger_ok s m \<Longrightarrow> record_ok s u ds \<Longrightarrow> ledger_ok s (fmupd u (Some ds) m)"
  by (simp add: ledger_ok_def)

lemma ledger_ok_drop: "ledger_ok s m \<Longrightarrow> ledger_ok s (fmdrop u m)"
  by (simp add: ledger_ok_def)

lemma ledger_ok_entry: "ledger_ok s m \<Longrightarrow> claim_entry m u = Some ds \<Longrightarrow> record_ok s u ds"
  by (auto simp: ledger_ok_def dest!: claim_entry_SomeD)

lemma ledger_ok_fmlookup: "ledger_ok s m \<Longrightarrow> fmlookup m u = (case claim_entry m u of None \<Rightarrow> None | Some ds \<Rightarrow> Some (Some ds))"
  by (auto simp: ledger_ok_def claim_entry_def split: option.splits)

text \<open>The one inversion the properties of \<open>Prepare\<close> start from.\<close>

lemma node_Prepare:
  assumes s: "state_ok s" and d: "disk_ledger ck d = Some m" "claims_normal m" "ledger_ok s m"
    and run: "Prepare (disk_services ck i) s claim d = (d', Inr devs)"
  obtains ds where "devs = map pdDevice ds" and "record_ok s (claimUID claim) ds"
    and "claim_entry m (claimUID claim) = None \<or> claim_entry m (claimUID claim) = Some ds"
    and "claim_entry m (claimUID claim) = None \<longrightarrow> prepareDevices s claim = Inr (Some ds)"
    and "disk_ledger ck d' = Some (fmupd (claimUID claim) (Some ds) m)"
    and "claims_normal (fmupd (claimUID claim) (Some ds) m)"
    and "ledger_ok s (fmupd (claimUID claim) (Some ds) m)"
    and "\<forall>f. plain_name (claimSpecName (claimUID claim)) \<longrightarrow> plain_name f \<longrightarrow> disk_spec d' f =
           (if f = claimSpecName (claimUID claim) then Some (claimSpec (claimUID claim) (Some ds)) else disk_spec d f)"
    and "dirEntries d' = dirEntries d"
proof (rule dsk.Prepare_outcome [OF d(1,2) run])
  fix ds
  assume a: "ds \<noteq> []" "devs = map pdDevice ds"
    "if claim_entry m (claimUID claim) = None then prepareDevices s claim = Inr (Some ds)
     else claim_entry m (claimUID claim) = Some ds"
    "disk_ledger ck d' = Some (fmupd (claimUID claim) (Some ds) m)"
    "claims_normal (fmupd (claimUID claim) (Some ds) m)"
    "\<And>f. plain_name (claimSpecName (claimUID claim)) \<Longrightarrow> plain_name f \<Longrightarrow> disk_spec d' f =
       (if f = claimSpecName (claimUID claim) then Some (claimSpec (claimUID claim) (Some ds)) else disk_spec d f)"
    "dirEntries d' = dirEntries d" "distinct (map (\<lambda>pd. DeviceName (pdDevice pd)) ds)"
  have "record_ok s (claimUID claim) ds"
    using a(3,8) prepared_record_ok [OF s] ledger_ok_entry [OF d(3)] by (auto split: if_splits)
  then show thesis
    using a(1-5,7,8) a(6) d(3) by (intro that [of ds]) (auto intro: ledger_ok_upd split: if_splits)
qed

section \<open>Claim files are accepted\<close>

lemma path_join_nonempty: "d \<noteq> [] \<Longrightarrow> path_join [d, x] \<noteq> []"
  by (simp add: path_join_def path_clean_def Let_def)

lemma record_nonempty: "state_ok s \<Longrightarrow> record_ok s u ds \<Longrightarrow> ds \<noteq> []"
  by (auto simp: state_ok_def record_ok_def)

definition uid_good :: "string \<Rightarrow> bool" where
  "uid_good u \<longleftrightarrow> uid_ok u \<and> u \<noteq> [] \<and> is_alnum (hd u)"

lemma claim_device_name_valid:
  assumes "uid_good u" and "chip_name k"
  shows "ValidateDeviceName (claimDeviceName u k)"
proof -
  have u: "is_alnum c \<or> c \<in> set ''_-.:''" if "c \<in> set u" for c
    using assms(1) that by (auto simp: uid_good_def uid_ok_def list_all_iff uid_char_def is_alnum_def)
  have k: "is_alnum c" if "c \<in> set k" for c
    using assms(2) that by (auto simp: chip_name_def list_all_iff)
  have "c \<in> set u \<or> c = CHR ''-'' \<or> c \<in> set k"
    if "c \<in> set (butlast (tl (claimDeviceName u k)))" for c
    using in_set_butlastD [OF that] assms(1) by (cases u) (auto simp: claimDeviceName_def uid_good_def)
  then have "list_all (\<lambda>c. is_alnum c \<or> c \<in> set ''_-.:'') (butlast (tl (claimDeviceName u k)))"
    using u k unfolding list_all_iff by fastforce
  moreover have "is_alnum (last (claimDeviceName u k))"
    using k assms(2) by (simp add: claimDeviceName_def chip_name_def)
  ultimately show ?thesis
    using assms(1) by (simp add: ValidateDeviceName_def claimDeviceName_def uid_good_def)
qed

lemma claimSpec_valid:
  assumes s: "state_ok s" and r: "record_ok s u ds" and u: "uid_good u"
  shows "ValidateSpec (claimSpec u (Some ds))"
proof -
  have dev: "ValidateDeviceName (cdName (claimDevice u pd)) \<and> Env (cdEdits (claimDevice u pd)) \<noteq> [] \<and>
      ValidateEdits (cdEdits (claimDevice u pd))" if "pd \<in> set ds" for pd
  proof -
    let ?k = "DeviceName (pdDevice pd)"
    from r that s obtain tm where tm: "pdContainerEdits pd = Some (Some
        \<lparr>Env = [], DeviceNodes = DeviceNodeContainerEdits tm ?k, Mounts = []\<rparr>)" "DevDirectory tm \<noteq> []"
      by (fastforce simp: record_ok_def state_ok_def)
    have "?k \<in> chips s" using r that by (auto simp: record_ok_def)
    then have "ValidateDeviceName (claimDeviceName u ?k)"
      using s u by (intro claim_device_name_valid) (auto simp: state_ok_def)
    moreover have "\<forall>d\<in>set (DeviceNodeContainerEdits tm ?k). dnPath d \<noteq> [] \<and> dnPermissions d = ''mrw''"
      using path_join_nonempty [OF tm(2)] by (auto simp: DeviceNodeContainerEdits_def Let_def)
    ultimately show ?thesis
      by (auto simp: claimDevice_def Let_def Append_def tm(1) ValidateEdits_def ValidateEnv_def list_all_iff)
  qed
  have "distinct (map (\<lambda>pd. claimDeviceName u (DeviceName (pdDevice pd))) ds)"
    using r by (auto simp: record_ok_def claimDeviceName_def distinct_map inj_on_def)
  with dev record_nonempty [OF s r] show ?thesis
    by (auto simp: ValidateSpec_def claimSpec_def Let_def claimDevice_def comp_def list_all_iff)
qed

section \<open>One call\<close>

lemma Prepare_keeps_node_ok:
  assumes "state_ok s" and "node_ok ck s d" and "Prepare (disk_services ck i) s claim d = (d', r)"
  shows "node_ok ck s d'"
proof -
  from assms(2) obtain m where m: "disk_ledger ck d = Some m" "claims_normal m" "ledger_ok s m" by (auto simp: node_ok_def)
  show ?thesis
  proof (cases r)
    case (Inl e)
    with dsk.Prepare_error [OF m(1) assms(3) [unfolded Inl]] m show ?thesis by (auto simp: node_ok_def)
  next
    case (Inr devs)
    show ?thesis by (rule node_Prepare [OF assms(1) m assms(3) [unfolded Inr]]) (auto simp: node_ok_def)
  qed
qed

text \<open>An \<open>Unprepare\<close> that fails or does not know the claim keeps the ledger.\<close>

lemma Unprepare_ledger:
  assumes "disk_ledger ck d = Some m" and "claims_normal m" and "Unprepare (disk_services ck i) s uid d = (d', e)"
  shows "disk_ledger ck d' = Some (if e = None \<and> claim_entry m uid \<noteq> None then fmdrop uid m else m)"
  using dsk.Unprepare_outcome [OF assms(1,2)] dsk.Unprepare_error [OF assms(1)] dsk.Unprepare_unknown [OF assms(1), of uid i s] assms
  by (cases e) auto

lemma Unprepare_keeps_node_ok:
  assumes "node_ok ck s d" and "Unprepare (disk_services ck i) s uid d = (d', e)"
  shows "node_ok ck s d'"
proof -
  from assms(1) obtain m where m: "disk_ledger ck d = Some m" "claims_normal m" "ledger_ok s m" by (auto simp: node_ok_def)
  from Unprepare_ledger [OF m(1,2) assms(2)] m show ?thesis
    by (auto simp: node_ok_def intro: ledger_ok_drop claims_normal_drop)
qed

section \<open>A node over time\<close>

text \<open>
  What happens to a node, with the answers given: the kubelet's calls, a restart of the driver with what
  \<open>NewDeviceState\<close> returned, and CDI files or logs written or lost by others.
\<close>

datatype node_event =
    PrepareCall ResourceClaim "kubeletDevice list result"
  | UnprepareCall string "go_error option"
  | Restarted "DeviceState result"
  | OutsideWrites

text \<open>
  The disk, and the device state of the process while one serves. A panic ends the process; a restart
  serves with the state it made, which may have other chips, or nothing serves until the next.
\<close>

type_synonym serving = "disk \<times> DeviceState option"

definition survivor :: "go_error option \<Rightarrow> DeviceState \<Rightarrow> DeviceState option" where
  "survivor err s = (case err of None \<Rightarrow> Some s | Some e \<Rightarrow> if is_panic e then None else Some s)"

definition error_of :: "'a result \<Rightarrow> go_error option" where
  "error_of r = (case r of Inl e \<Rightarrow> Some e | Inr x \<Rightarrow> None)"

definition value_of :: "'a result \<Rightarrow> 'a option" where
  "value_of r = (case r of Inl e \<Rightarrow> None | Inr x \<Rightarrow> Some x)"

text \<open>A directory the operating system can show: no name twice, and not too many of them.\<close>

definition sane_dir :: "hostfs \<Rightarrow> string \<Rightarrow> bool" where
  "sane_dir fs dir \<longleftrightarrow> dir \<noteq> [] \<and>
     (\<forall>files. ReadDir fs dir = Some files \<longrightarrow> distinct (map Name files) \<and> length files < 2 ^ 63)"

inductive node_step :: "(json \<Rightarrow> 64 word) \<Rightarrow> node_event \<Rightarrow> serving \<Rightarrow> serving \<Rightarrow> bool" for ck :: "json \<Rightarrow> 64 word" where
  prepare: "Prepare (disk_services ck i) s claim d = (d', r) \<Longrightarrow>
    node_step ck (PrepareCall claim r) (d, Some s) (d', survivor (error_of r) s)"
| unprepare: "Unprepare (disk_services ck i) s uid d = (d', e) \<Longrightarrow>
    node_step ck (UnprepareCall uid e) (d, Some s) (d', survivor e s)"
| restart: "NewDeviceState (disk_services ck i) u environ fs order cacheErr managerErr labels devDir policy d = (d', st) \<Longrightarrow>
    sane_dir fs devDir \<Longrightarrow> node_step ck (Restarted st) (d, sv) (d', value_of st)"
| outside: "node_step ck OutsideWrites (d, sv) (d\<lparr>cdiFiles := files, dirEntries := entries\<rparr>, sv)"

inductive_cases node_stepE [consumes 1, case_names prepare unprepare restart outside]: "node_step ck e (d, sv) (d', sv')"

inductive node_run :: "(json \<Rightarrow> 64 word) \<Rightarrow> node_event list \<Rightarrow> serving \<Rightarrow> serving \<Rightarrow> bool" for ck :: "json \<Rightarrow> 64 word" where
  stop: "node_run ck [] x x"
| more: "node_step ck e x y \<Longrightarrow> node_run ck es y z \<Longrightarrow> node_run ck (e # es) x z"

inductive_cases node_run_nilE: "node_run ck [] x y"
inductive_cases node_run_consE: "node_run ck (e # es) x y"

section \<open>The abstract ledger\<close>

text \<open>
  What the kubelet may rely on, as a machine over the same events that knows no files: which devices
  each claim was answered with, and the chips of the driver that serves. It takes an event or refuses it
  (\<open>None\<close>), and is left in one state by it.

  A claim it does not hold may only be answered with the whole node: the chips named by the claim's
  results for this driver, each once, every device under the request and pool of its result, with the
  common and its own CDI name. A claim it holds is answered as before. A failing call, a restart and
  whatever others write change no claim; no call panics, and none is answered where nothing serves.
\<close>

type_synonym told = "string \<Rightarrow> kubeletDevice list option"

definition whole_node :: "string set \<Rightarrow> ResourceClaim \<Rightarrow> kubeletDevice list \<Rightarrow> bool" where
  "whole_node cs claim devs =
     (case Allocation claim of
        None \<Rightarrow> False
      | Some results \<Rightarrow>
          (let own = filter (\<lambda>r. Driver r = DriverName) results in
           distinct (map resDevice own) \<and> set (map resDevice own) = cs \<and>
           devs = map (\<lambda>r. \<lparr>Requests = Some [Request r], PoolName = Pool r, DeviceName = resDevice r,
             CDIDeviceIDs = Some [QualifiedName cdiVendor cdiClass cdiCommonDeviceName,
               QualifiedName cdiVendor cdiClass (claimUID claim @ ''-'' @ resDevice r)], ShareID = None\<rparr>) own))"

fun ledger_next :: "node_event \<Rightarrow> told \<times> string set option \<Rightarrow> (told \<times> string set option) option" where
  "ledger_next (PrepareCall claim (Inr devs)) (t, Some cs) =
     (case t (claimUID claim) of
        None \<Rightarrow> if whole_node cs claim devs then Some (t(claimUID claim \<mapsto> devs), Some cs) else None
      | Some held \<Rightarrow> if devs = held then Some (t, Some cs) else None)"
| "ledger_next (PrepareCall claim (Inl e)) (t, Some cs) = (if is_panic e then None else Some (t, Some cs))"
| "ledger_next (UnprepareCall uid None) (t, Some cs) = Some (t(uid := None), Some cs)"
| "ledger_next (UnprepareCall uid (Some e)) (t, Some cs) = (if is_panic e then None else Some (t, Some cs))"
| "ledger_next (Restarted (Inr s)) (t, cs) = Some (t, Some (chips s))"
| "ledger_next (Restarted (Inl e)) (t, cs) = Some (t, None)"
| "ledger_next OutsideWrites (t, cs) = Some (t, cs)"
| "ledger_next e (t, None) = None"

fun ledger_run :: "node_event list \<Rightarrow> told \<times> string set option \<Rightarrow> (told \<times> string set option) option" where
  "ledger_run [] x = Some x"
| "ledger_run (e # es) x = (case ledger_next e x of None \<Rightarrow> None | Some y \<Rightarrow> ledger_run es y)"

text \<open>How the checkpoint stands for it.\<close>

definition told_by :: "PreparedClaims \<Rightarrow> told" where
  "told_by m u = map_option (map pdDevice) (claim_entry m u)"

lemma told_by_upd: "told_by (fmupd u (Some ds) m) = (told_by m)(u \<mapsto> map pdDevice ds)"
  by (simp add: told_by_def fun_eq_iff)

lemma told_by_drop: "told_by (fmdrop u m) = (told_by m)(u := None)"
  by (simp add: told_by_def fun_eq_iff)

lemma prepared_whole_node:
  assumes "state_ok s" and "prepareDevices s claim = Inr (Some ds)" and "distinct (map (\<lambda>pd. DeviceName (pdDevice pd)) ds)"
  shows "whole_node (chips s) claim (map pdDevice ds)"
proof -
  from assms(2) obtain rs tm where rs: "Allocation claim = Some rs"
    and ds: "ds = map (preparedDevice (claimUID claim) (getDeviceContainerEdits tm (ownResults rs))) (ownResults rs)"
    by (auto simp: prepareDevices_Inr_iff split: if_splits)
  have names: "map (\<lambda>pd. DeviceName (pdDevice pd)) ds = map resDevice (ownResults rs)" by (simp add: ds preparedDevice_def)
  have "set (map (\<lambda>pd. DeviceName (pdDevice pd)) ds) = chips s"
    using prepared_record_ok [OF assms] by (simp add: record_ok_def)
  then show ?thesis
    unfolding whole_node_def rs option.case Let_def ownResults_def [symmetric] names [symmetric]
    using assms(3) by (simp add: ds preparedDevice_def GetClaimDevices_def claimDeviceName_def)
qed

section \<open>One step\<close>

text \<open>A checkpoint whose records were made by states of \<open>S\<close>, well-formed ones.\<close>

definition recorded_by :: "DeviceState set \<Rightarrow> PreparedClaims \<Rightarrow> bool" where
  "recorded_by S m \<longleftrightarrow> (\<forall>u e. fmlookup m u = Some e \<longrightarrow> (\<exists>ds. e = Some ds \<and> (\<exists>s\<in>S. state_ok s \<and> record_ok s u ds)))"

text \<open>The states restarts served with.\<close>

definition restarted :: "node_event list \<Rightarrow> DeviceState set" where
  "restarted es = {s. Restarted (Inr s) \<in> set es}"

lemma recorded_by_mono: "recorded_by S m \<Longrightarrow> S \<subseteq> T \<Longrightarrow> recorded_by T m"
  unfolding recorded_by_def by blast

lemma recorded_by_drop: "recorded_by S m \<Longrightarrow> recorded_by S (fmdrop u m)"
  by (simp add: recorded_by_def)

lemma recorded_by_upd: "recorded_by S m \<Longrightarrow> s \<in> S \<Longrightarrow> state_ok s \<Longrightarrow> record_ok s u ds \<Longrightarrow> recorded_by S (fmupd u (Some ds) m)"
  by (auto simp: recorded_by_def)

lemma survivor_simps [simp]: "survivor None s = Some s" "\<not> is_panic e \<Longrightarrow> survivor (Some e) s = Some s"
  by (simp_all add: survivor_def)

lemma outcome_simps [simp]: "error_of (Inl e) = Some e" "error_of (Inr x) = None" "value_of (Inl e) = None" "value_of (Inr x) = Some x"
  by (simp_all add: error_of_def value_of_def)

lemma node_step_outcome:
  assumes d: "disk_ledger ck d = Some m" "claims_normal m" and sv: "\<forall>s\<in>set_option sv. state_ok s"
    and step: "node_step ck e (d, sv) (d', sv')"
  obtains m' where "disk_ledger ck d' = Some m'" and "claims_normal m'" and "\<forall>s\<in>set_option sv'. state_ok s"
    and "ledger_next e (told_by m, map_option chips sv) = Some (told_by m', map_option chips sv')"
    and "\<forall>S. recorded_by S m \<longrightarrow> set_option sv \<subseteq> S \<longrightarrow> recorded_by S m'"
    and "set_option sv' \<subseteq> set_option sv \<union> restarted [e]"
  using step
proof (cases rule: node_stepE)
  case (prepare i s claim r)
  have s: "state_ok s" using sv prepare(2) by simp
  show thesis
  proof (cases r)
    case (Inl e')
    have "\<not> is_panic e'"
      using dsk.Prepare_no_panic [OF d(1) _ prepare(4) [unfolded Inl]] s by (auto simp: state_ok_def)
    with dsk.Prepare_error [OF d(1) prepare(4) [unfolded Inl]] that [of m] d sv prepare(1-3) Inl show thesis by auto
  next
    case (Inr devs)
    let ?u = "claimUID claim"
    obtain ds where ds: "devs = map pdDevice ds" "disk_ledger ck d' = Some (fmupd ?u (Some ds) m)"
        "claims_normal (fmupd ?u (Some ds) m)" "distinct (map (\<lambda>pd. DeviceName (pdDevice pd)) ds)"
      and how: "if claim_entry m ?u = None then prepareDevices s claim = Inr (Some ds) else claim_entry m ?u = Some ds"
      by (rule dsk.Prepare_outcome [OF d prepare(4) [unfolded Inr]], rule that)
    show thesis
    proof (cases "claim_entry m ?u = None")
      case True
      with how have p: "prepareDevices s claim = Inr (Some ds)" by simp
      have "told_by m ?u = None" using True by (simp add: told_by_def)
      with prepared_whole_node [OF s p ds(4)] prepared_record_ok [OF s p ds(4)] s ds prepare(1-3) Inr show thesis
        by (intro that [of "fmupd ?u (Some ds) m"]) (auto simp: told_by_upd intro: recorded_by_upd)
    next
      case False
      with how have held: "claim_entry m ?u = Some ds" by simp
      have "told_by m ?u = Some (map pdDevice ds)" using held by (simp add: told_by_def)
      moreover have "fmupd ?u (Some ds) m = m" using claim_entry_SomeD [OF held] by (rule fmupd_same)
      ultimately show thesis using s ds prepare(1-3) Inr by (intro that [of m]) auto
    qed
  qed
next
  case (unprepare i s uid e')
  note led = Unprepare_ledger [OF d unprepare(4)]
  show thesis
  proof (cases e')
    case None
    have "told_by (if claim_entry m uid \<noteq> None then fmdrop uid m else m) = (told_by m)(uid := None)"
      by (auto simp: told_by_def fun_eq_iff)
    with led None sv d(2) unprepare(1-3) show thesis
      by (intro that [of "if claim_entry m uid \<noteq> None then fmdrop uid m else m"])
        (auto intro: claims_normal_drop recorded_by_drop)
  next
    case (Some x)
    with dsk.Unprepare_no_panic [OF d(1) unprepare(4) [unfolded Some]] led sv d(2) unprepare(1-3) show thesis
      by (intro that [of m]) auto
  qed
next
  case (restart i u environ fs order cacheErr managerErr labels devDir policy st)
  have ok: "state_ok s" if "st = Inr s" for s
  proof -
    note run = restart(3) [unfolded that]
    obtain tm devs tm' where "NewTPUManager environ labels devDir = Inr tm" "enumerateAllPossibleTpuDevices u environ fs tm = Inr (devs, tm')"
      by (rule dsk.NewDeviceState_ok [OF run])
    then obtain files where "ReadDir fs devDir = Some files" by (auto simp: enumerate_Inr_iff dest: NewTPUManager_Inr)
    with restart(4) show ?thesis
      by (intro NewDeviceState_state_ok [OF run dsk.claim_services_axioms]) (auto simp: sane_dir_def)
  qed
  show thesis
    using dsk.NewDeviceState_outcome [OF restart(3)] d ok restart(1,2)
    by (intro that [of m]) (cases st; auto simp: restarted_def)+
next
  case (outside entries files)
  have "disk_ledger ck d' = disk_ledger ck d" by (rule disk_ledger_cong) (simp add: outside)
  with d sv outside show thesis by (intro that [of m]) auto
qed

section \<open>Runs\<close>

lemma node_run_outcome:
  assumes "node_run ck es x y" and "x = (d, sv)" and "y = (d', sv')"
    and "disk_ledger ck d = Some m" and "claims_normal m" and "\<forall>s\<in>set_option sv. state_ok s"
  shows "\<exists>m'. disk_ledger ck d' = Some m' \<and> claims_normal m' \<and> (\<forall>s\<in>set_option sv'. state_ok s) \<and>
    ledger_run es (told_by m, map_option chips sv) = Some (told_by m', map_option chips sv') \<and>
    (\<forall>S. recorded_by S m \<longrightarrow> set_option sv \<subseteq> S \<longrightarrow>
       recorded_by (S \<union> restarted es) m' \<and> set_option sv' \<subseteq> S \<union> restarted es)"
  using assms
proof (induction arbitrary: d sv m rule: node_run.induct)
  case (stop z)
  then show ?case by (auto simp: restarted_def)
next
  case (more e x z es y)
  obtain d1 sv1 where z: "z = (d1, sv1)" by (cases z)
  obtain m1 where m1: "disk_ledger ck d1 = Some m1" "claims_normal m1" "\<forall>s\<in>set_option sv1. state_ok s"
    and abs: "ledger_next e (told_by m, map_option chips sv) = Some (told_by m1, map_option chips sv1)"
    and rec: "\<forall>S. recorded_by S m \<longrightarrow> set_option sv \<subseteq> S \<longrightarrow> recorded_by S m1"
    and sv1: "set_option sv1 \<subseteq> set_option sv \<union> restarted [e]"
    by (rule node_step_outcome [OF more.prems(3-5) more.hyps(1) [unfolded z more.prems(1)]], rule that)
  obtain m' where m': "disk_ledger ck d' = Some m'" "claims_normal m'" "\<forall>s\<in>set_option sv'. state_ok s"
    and run: "ledger_run es (told_by m1, map_option chips sv1) = Some (told_by m', map_option chips sv')"
    and rec': "\<forall>S. recorded_by S m1 \<longrightarrow> set_option sv1 \<subseteq> S \<longrightarrow>
       recorded_by (S \<union> restarted es) m' \<and> set_option sv' \<subseteq> S \<union> restarted es"
    using more.IH [OF z more.prems(2) m1] by blast
  have split: "restarted (e # es) = restarted [e] \<union> restarted es" by (auto simp: restarted_def)
  have "recorded_by (S \<union> restarted (e # es)) m' \<and> set_option sv' \<subseteq> S \<union> restarted (e # es)"
    if S: "recorded_by S m" "set_option sv \<subseteq> S" for S
  proof -
    have "recorded_by (S \<union> restarted [e]) m1" using rec S by (blast intro: recorded_by_mono)
    with rec' sv1 S(2) show ?thesis unfolding split Un_assoc [symmetric] by (metis sup.mono order_refl order_trans)
  qed
  with m' run abs show ?case by auto
qed

end
