(* ===== verification/ClaimLife.thy ===== *)
theory ClaimLife
  imports Node
begin

text \<open>
  The properties of preparing and unpreparing claims on the node of theory \<open>Node\<close>: what a success
  grants, what a failure leaves, repetition, the round trip, recovery after a reboot, and when a
  fault leaves an orphan file. They rest on the interpretations \<open>dsk\<close> and \<open>safe\<close> of the interfaces.
\<close>

text \<open>A qualified name the runtime can resolve: some file in the CDI directory defines it.\<close>

definition cdi_defines :: "disk \<Rightarrow> string \<Rightarrow> bool" where
  "cdi_defines d name \<longleftrightarrow> (\<exists>f sp. fmlookup (cdiFiles d) f = Some sp \<and> name \<in> set (spec_ids sp))"

definition commonName :: string where
  "commonName = QualifiedName cdiVendor cdiClass cdiCommonDeviceName"

lemma cdi_definesI: "disk_spec d f = Some sp \<Longrightarrow> name \<in> set (spec_ids sp) \<Longrightarrow> cdi_defines d name"
  by (auto simp: cdi_defines_def disk_spec_def)

lemma plain_claim: "uid_ok u \<Longrightarrow> plain_name (claimSpecName u)"
  by (simp add: plain_claimSpecName uid_ok_chars)

lemma plain_common: "plain_name (claimSpecName cdiCommonDeviceName)"
  by (rule plain_claimSpecName) (rule common_chars)

section \<open>The ingredients of the witnesses\<close>

text \<open>A node with one chip, the common CDI file and an empty ledger, and a claim for the chip.\<close>

definition example_device :: AllocatableDevice where
  "example_device = \<lparr>UUID = ''tpu-x'', adName = ''0'', index = 0, adTpuGen = ''v6e'', brand = ''Google'',
     driverVersion = ''1.0.0'', allocatable = True, accelerator = ''tpu-v6e-slice'', chipCount = 1, topology = ''1x1''\<rparr>"

definition example_state :: DeviceState where
  "example_state = \<lparr>dsAllocatable = fmupd ''0'' example_device fmempty, dsTm = Some example_tm,
     dsSharesPolicy = noShares, dsTpuLogDir = libtpuLogDir\<rparr>"

definition example_claim :: ResourceClaim where
  "example_claim = \<lparr>claimUID = ''c1'', claimName = ''claim'', Allocation = Some
     [\<lparr>Request = ''nic'', Driver = ''nic.example.com'', Pool = ''node-1'', resDevice = ''eth0''\<rparr>,
      \<lparr>Request = ''tpu'', Driver = DriverName, Pool = ''node-1'', resDevice = ''0''\<rparr>]\<rparr>"

definition example_ck :: "json \<Rightarrow> 64 word" where
  "example_ck j = 7"

definition fresh_disk :: disk where
  "fresh_disk = \<lparr>ckFiles = fmempty, cdiFiles = fmupd (spec_file (claimSpecName cdiCommonDeviceName))
     (commonSpec Map.empty [] Map.empty []) fmempty, dirEntries = (\<lambda>_. [''tpu_driver.INFO''])\<rparr>"

definition example_disk :: "(json \<Rightarrow> 64 word) \<Rightarrow> disk" where
  "example_disk ck = fst (CheckpointManager_Create ck no_faults DriverPluginCheckpointFile newCheckpoint fresh_disk)"

lemma example_ledger: "disk_ledger ck (example_disk ck) = Some fmempty"
  using disk_ledger_written [OF claims_normal_empty, where c = 0 and ck = ck and d = fresh_disk]
  by (simp add: example_disk_def CheckpointManager_Create_def no_faults_def newCheckpoint_def)

lemma example_disk_files: "cdiFiles (example_disk ck) = cdiFiles fresh_disk" "dirEntries (example_disk ck) = dirEntries fresh_disk"
  by (simp_all add: example_disk_def CheckpointManager_Create_def no_faults_def)

lemma example_common:
  "disk_spec (example_disk ck) (claimSpecName cdiCommonDeviceName) = Some (commonSpec Map.empty [] Map.empty [])"
  by (simp add: disk_spec_def example_disk_files fresh_disk_def)

lemma example_state_ok: "state_ok example_state"
proof -
  have "chip_name ''0''" by code_simp
  then show ?thesis by (simp add: state_ok_def chips_def example_state_def example_tm_def)
qed

lemma example_chips: "chips example_state = {''0''}"
  by (simp add: chips_def example_state_def)

lemma example_uid: "uid_good (claimUID example_claim)" "uid_ok (claimUID example_claim)"
  by code_simp+

lemma example_own: "Allocation example_claim = Some rs \<Longrightarrow> map resDevice (ownResults rs) = [''0'']"
  by (auto simp: example_claim_def ownResults_def DriverName_def)

lemma example_node_ok: "node_ok ck example_state (example_disk ck)"
  by (simp add: node_ok_def example_ledger ledger_ok_def)

section \<open>Success\<close>

lemma Prepare_ok_iff:
  assumes s: "state_ok s" and d: "disk_ledger ck d = Some m" "claims_normal m" "ledger_ok s m"
    and new: "claim_entry m (claimUID claim) = None" and u: "uid_good (claimUID claim)"
  shows "is_ok (snd (Prepare (disk_services ck no_faults) s claim d)) \<longleftrightarrow>
    (\<exists>rs. Allocation claim = Some rs \<and> distinct (map resDevice (ownResults rs)) \<and>
       set (map resDevice (ownResults rs)) = chips s)"
    (is "?ok \<longleftrightarrow> ?all")
proof
  assume ?ok
  then obtain d' devs where run: "Prepare (disk_services ck no_faults) s claim d = (d', Inr devs)"
    by (cases "Prepare (disk_services ck no_faults) s claim d") (auto simp: result_simps)
  obtain ds where r: "record_ok s (claimUID claim) ds" and p: "prepareDevices s claim = Inr (Some ds)"
    by (rule node_Prepare [OF s d run]) (use new in auto)
  from p obtain rs where rs: "Allocation claim = Some rs" "map (\<lambda>pd. DeviceName (pdDevice pd)) ds = map resDevice (ownResults rs)"
    by (auto simp: prepareDevices_Inr_iff preparedDevice_def split: if_splits)
  with r show ?all by (auto simp: record_ok_def)
next
  assume ?all
  then obtain rs where rs: "Allocation claim = Some rs" "distinct (map resDevice (ownResults rs))"
    "set (map resDevice (ownResults rs)) = chips s" by blast
  obtain tm where tm: "dsTm s = Some tm" "of_nat (card (chips s)) = tpuChipCount tm" "0 < sint (tpuChipCount tm)"
    using s by (auto simp: state_ok_def)
  have "length (ownResults rs) = card (chips s)" using rs(2,3) by (metis distinct_card length_map)
  moreover have "ownResults rs \<noteq> []" using tm rs(3) by (auto simp flip: rs(3))
  ultimately obtain ds where p: "prepareDevices s claim = Inr (Some ds)"
    and names: "map (\<lambda>pd. DeviceName (pdDevice pd)) ds = map resDevice (ownResults rs)"
    using rs tm by (auto simp: prepareDevices_Inr_iff preparedDevice_def chips_def)
  have "record_ok s (claimUID claim) ds"
    using prepared_record_ok [OF s p] names rs(2) by simp
  then have "ValidateSpec (claimSpec (claimUID claim) (Some ds))" using s u by (intro claimSpec_valid)
  then show ?ok using safe.Prepare_succeeds [OF d(1), of claim ds s] new p by simp
qed

lemma example_prepared:
  "\<exists>d' devs. Prepare (disk_services ck no_faults) example_state example_claim (example_disk ck) = (d', Inr devs)"
proof -
  obtain rs where rs: "Allocation example_claim = Some rs" by (simp add: example_claim_def)
  have "is_ok (snd (Prepare (disk_services ck no_faults) example_state example_claim (example_disk ck)))"
    using example_own [OF rs] rs
    by (subst Prepare_ok_iff [OF example_state_ok example_ledger])
      (auto simp: ledger_ok_def example_uid example_chips)
  then show ?thesis by (cases "Prepare (disk_services ck no_faults) example_state example_claim (example_disk ck)")
      (auto simp: result_simps)
qed

text \<open>The claim recorded: what the witnesses about recorded claims start from.\<close>

lemma example_recorded:
  obtains d1 ds where "Prepare (disk_services ck no_faults) example_state example_claim (example_disk ck) = (d1, Inr (map pdDevice ds))"
    and "disk_ledger ck d1 = Some (fmupd ''c1'' (Some ds) fmempty)" and "claims_normal (fmupd ''c1'' (Some ds) fmempty)"
    and "ledger_ok example_state (fmupd ''c1'' (Some ds) fmempty)" and "record_ok example_state ''c1'' ds"
    and "prepareDevices example_state example_claim = Inr (Some ds)" and "dirEntries d1 = dirEntries fresh_disk"
proof -
  obtain d1 devs where run: "Prepare (disk_services ck no_faults) example_state example_claim (example_disk ck) = (d1, Inr devs)"
    using example_prepared by blast
  have ok: "ledger_ok example_state fmempty" by (simp add: ledger_ok_def)
  have uid: "claimUID example_claim = ''c1''" by (simp add: example_claim_def)
  note inv = node_Prepare [OF example_state_ok example_ledger claims_normal_empty ok run, unfolded uid]
  obtain ds where "devs = map pdDevice ds" "record_ok example_state ''c1'' ds"
    "claim_entry fmempty ''c1'' = None \<longrightarrow> prepareDevices example_state example_claim = Inr (Some ds)"
    "disk_ledger ck d1 = Some (fmupd ''c1'' (Some ds) fmempty)" "claims_normal (fmupd ''c1'' (Some ds) fmempty)"
    "ledger_ok example_state (fmupd ''c1'' (Some ds) fmempty)" "dirEntries d1 = dirEntries (example_disk ck)"
    by (rule inv, rule that)
  with run show thesis by (intro that [of d1 ds]) (simp_all add: example_disk_files)
qed

lemma example_record: "\<exists>ds. record_ok example_state u ds"
  by (rule exI [of _ "[\<lparr>pdDevice = \<lparr>Requests = None, PoolName = [], DeviceName = ''0'',
      CDIDeviceIDs = Some (GetClaimDevices u [''0'']), ShareID = None\<rparr>,
      pdContainerEdits = Some (Some \<lparr>Env = [], DeviceNodes = DeviceNodeContainerEdits example_tm ''0'', Mounts = []\<rparr>)\<rparr>]"])
    (simp add: record_ok_def example_chips, simp add: example_state_def)

section \<open>Properties of Prepare\<close>

lemma Prepare_grants:
  assumes "state_ok s" and "node_ok ck s d" and "uid_ok (claimUID claim)"
    and "disk_spec d (claimSpecName cdiCommonDeviceName) = Some common" and "commonName \<in> set (spec_ids common)"
    and "Prepare (disk_services ck i) s claim d = (d', Inr devs)"
  shows "distinct (map DeviceName devs) \<and> set (map DeviceName devs) = chips s \<and>
    (\<forall>dev\<in>set devs. CDIDeviceIDs dev = Some [commonName,
        QualifiedName cdiVendor cdiClass (claimUID claim @ ''-'' @ DeviceName dev)] \<and>
      (\<forall>name\<in>set (elements (CDIDeviceIDs dev)). cdi_defines d' name))"
proof -
  from assms(2) obtain m where m: "disk_ledger ck d = Some m" "claims_normal m" "ledger_ok s m"
    by (auto simp: node_ok_def)
  obtain ds where ds: "devs = map pdDevice ds" "record_ok s (claimUID claim) ds"
    and specs: "\<forall>f. plain_name (claimSpecName (claimUID claim)) \<longrightarrow> plain_name f \<longrightarrow> disk_spec d' f =
      (if f = claimSpecName (claimUID claim) then Some (claimSpec (claimUID claim) (Some ds)) else disk_spec d f)"
    by (rule node_Prepare [OF assms(1) m assms(6)], rule that)
  have own: "disk_spec d' (claimSpecName (claimUID claim)) = Some (claimSpec (claimUID claim) (Some ds))"
    and com: "disk_spec d' (claimSpecName cdiCommonDeviceName) = Some common"
    using specs plain_claim [OF assms(3)] plain_common claimSpecName_not_common [OF assms(3)] assms(4) by auto
  show ?thesis
    using ds cdi_definesI [OF com assms(5)] cdi_definesI [OF own]
    by (auto simp: record_ok_def comp_def GetClaimDevices_def commonName_def claimDeviceName_def
        spec_ids_claim elements_def)
qed

text \<open>C1 (functional). A successful \<open>Prepare\<close>, whatever faults it survived, returns every chip of the node exactly
  once, and every CDI name it returns is defined by a file in the CDI directory: the claim's own
  file is written before the result is, and the common file stays in place.\<close>

theorem prepare_grants_every_chip:
  assumes "state_ok s" and "node_ok ck s d" and "uid_ok (claimUID claim)"
    and "disk_spec d (claimSpecName cdiCommonDeviceName) = Some common" and "commonName \<in> set (spec_ids common)"
    and "Prepare (disk_services ck i) s claim d = (d', Inr devs)"
  shows "distinct (map DeviceName devs) \<and> set (map DeviceName devs) = chips s \<and>
    (\<forall>dev\<in>set devs. CDIDeviceIDs dev = Some [commonName,
        QualifiedName cdiVendor cdiClass (claimUID claim @ ''-'' @ DeviceName dev)] \<and>
      (\<forall>name\<in>set (elements (CDIDeviceIDs dev)). cdi_defines d' name))"
  by (rule Prepare_grants [OF assms])

lemma prepare_grants_every_chip_witness:
  "\<exists>d' devs. Prepare (disk_services example_ck no_faults) example_state example_claim (example_disk example_ck) = (d', Inr devs) \<and>
     map DeviceName devs = [''0''] \<and> cdi_defines d' (QualifiedName cdiVendor cdiClass ''c1-0'')"
proof -
  obtain d' devs where run: "Prepare (disk_services example_ck no_faults) example_state example_claim (example_disk example_ck) = (d', Inr devs)"
    using example_prepared by blast
  have com: "commonName \<in> set (spec_ids (commonSpec Map.empty [] Map.empty []))"
    by (simp add: spec_ids_common commonName_def)
  from prepare_grants_every_chip [OF example_state_ok example_node_ok example_uid(2) example_common com run]
  have d: "distinct (map DeviceName devs)" "set (map DeviceName devs) = {''0''}"
    and n: "\<And>dev. dev \<in> set devs \<Longrightarrow> cdi_defines d' (QualifiedName cdiVendor cdiClass (''c1-'' @ DeviceName dev))"
    by (auto simp: example_chips elements_def example_claim_def)
  from d have "map DeviceName devs = [''0'']" by (cases devs; cases "tl devs") auto
  with run n show ?thesis by (cases devs) auto
qed

text \<open>C4 (liveness). Without faults a claim that is not yet recorded is prepared exactly when its results of this driver
  are the chips of the node, each once; anything less, more, doubled or unknown is refused.\<close>

theorem prepare_succeeds_iff_whole_node:
  assumes "state_ok s" and "disk_ledger ck d = Some m" and "claims_normal m" and "ledger_ok s m"
    and "claim_entry m (claimUID claim) = None" and "uid_good (claimUID claim)"
  shows "is_ok (snd (Prepare (disk_services ck no_faults) s claim d)) \<longleftrightarrow>
    (\<exists>rs. Allocation claim = Some rs \<and> distinct (map resDevice (ownResults rs)) \<and>
       set (map resDevice (ownResults rs)) = chips s)"
  using assms by (rule Prepare_ok_iff)

lemma prepare_succeeds_iff_whole_node_witness:
  "\<not> is_ok (snd (Prepare (disk_services example_ck no_faults) example_state (example_claim\<lparr>Allocation := Some []\<rparr>) (example_disk example_ck)))"
  using prepare_succeeds_iff_whole_node [OF example_state_ok example_ledger, of "example_claim\<lparr>Allocation := Some []\<rparr>" example_ck]
    example_uid(1) by (simp add: ledger_ok_def example_chips ownResults_def example_claim_def)

text \<open>C9 (functional). Preparing a claim again, under any faults, returns the same devices and leaves the recorded
  claims and the claim's file as the first call left them, whatever the claim object then says.\<close>

theorem prepare_is_idempotent:
  assumes "state_ok s" and "node_ok ck s d" and "uid_ok (claimUID claim)"
    and "Prepare (disk_services ck i) s claim d = (d1, Inr devs)"
    and "claimUID claim' = claimUID claim"
    and "Prepare (disk_services ck i') s claim' d1 = (d2, Inr devs')"
  shows "devs' = devs \<and> disk_ledger ck d2 = disk_ledger ck d1 \<and>
    disk_spec d2 (claimSpecName (claimUID claim)) = disk_spec d1 (claimSpecName (claimUID claim))"
proof -
  let ?u = "claimUID claim"
  from assms(2) obtain m where m: "disk_ledger ck d = Some m" "claims_normal m" "ledger_ok s m"
    by (auto simp: node_ok_def)
  obtain ds where ds: "devs = map pdDevice ds" "disk_ledger ck d1 = Some (fmupd ?u (Some ds) m)"
    "claims_normal (fmupd ?u (Some ds) m)" "ledger_ok s (fmupd ?u (Some ds) m)"
    and specs: "\<forall>f. plain_name (claimSpecName ?u) \<longrightarrow> plain_name f \<longrightarrow> disk_spec d1 f =
      (if f = claimSpecName ?u then Some (claimSpec ?u (Some ds)) else disk_spec d f)"
    by (rule node_Prepare [OF assms(1) m assms(4)], rule that)
  obtain ds' where ds': "devs' = map pdDevice ds'"
    "claim_entry (fmupd ?u (Some ds) m) ?u = None \<or> claim_entry (fmupd ?u (Some ds) m) ?u = Some ds'"
    "disk_ledger ck d2 = Some (fmupd ?u (Some ds') (fmupd ?u (Some ds) m))"
    and specs': "\<forall>f. plain_name (claimSpecName ?u) \<longrightarrow> plain_name f \<longrightarrow> disk_spec d2 f =
      (if f = claimSpecName ?u then Some (claimSpec ?u (Some ds')) else disk_spec d1 f)"
    by (rule node_Prepare [OF assms(1) ds(2-4) assms(6), unfolded assms(5)], rule that)
  then have "ds' = ds" by simp
  then show ?thesis using ds ds' specs specs' plain_claim [OF assms(3)] by (simp add: fmupd_same)
qed

lemma prepare_is_idempotent_witness:
  "\<exists>d1 d2 devs. Prepare (disk_services example_ck no_faults) example_state example_claim (example_disk example_ck) = (d1, Inr devs) \<and>
     Prepare (disk_services example_ck no_faults) example_state (example_claim\<lparr>Allocation := None\<rparr>) d1 = (d2, Inr devs) \<and>
     disk_ledger example_ck d2 = disk_ledger example_ck d1"
proof (rule example_recorded [of example_ck])
  fix d1 ds
  let ?c = "example_claim\<lparr>Allocation := None\<rparr>"
  assume a: "Prepare (disk_services example_ck no_faults) example_state example_claim (example_disk example_ck) = (d1, Inr (map pdDevice ds))"
    "disk_ledger example_ck d1 = Some (fmupd ''c1'' (Some ds) fmempty)" "record_ok example_state ''c1'' ds"
  have uid: "claimUID ?c = ''c1''" by (simp add: example_claim_def)
  have "ValidateSpec (claimSpec ''c1'' (Some ds))"
    using claimSpec_valid [OF example_state_ok a(3)] example_uid(1) by (simp add: example_claim_def)
  then have "snd (Prepare (disk_services example_ck no_faults) example_state ?c d1) = Inr (map pdDevice ds)"
    by (intro safe.Prepare_succeeds [OF a(2)]) (simp_all add: uid)
  then obtain d2 where r: "Prepare (disk_services example_ck no_faults) example_state ?c d1 = (d2, Inr (map pdDevice ds))"
    by (cases "Prepare (disk_services example_ck no_faults) example_state ?c d1") simp
  have "claimUID ?c = claimUID example_claim" by simp
  from prepare_is_idempotent [OF example_state_ok example_node_ok example_uid(2) a(1) this r] a(1) r show ?thesis by blast
qed

text \<open>Only this driver's allocation results matter: leaving out the results of other drivers
  changes nothing of what \<open>Prepare\<close> does.\<close>

theorem foreign_results_are_ignored:
  "Prepare sv s (claim\<lparr>Allocation := map_option ownResults (Allocation claim)\<rparr>) n = Prepare sv s claim n"
proof -
  have "prepareDevices s (claim\<lparr>Allocation := map_option ownResults (Allocation claim)\<rparr>) = prepareDevices s claim"
    by (cases "Allocation claim") (auto simp: prepareDevices_def ownResults_def Let_def split: option.split)
  moreover have "claimUID (claim\<lparr>Allocation := map_option ownResults (Allocation claim)\<rparr>) = claimUID claim" by simp
  ultimately show ?thesis unfolding Prepare_def by metis
qed

text \<open>After the CDI directory was lost, as at a reboot, a fault-free \<open>Prepare\<close> of a recorded claim
  succeeds, returns the recorded devices and puts the claim's file back.\<close>

theorem reboot_recovers_claims:
  assumes "state_ok s" and "disk_ledger ck d = Some m" and "claims_normal m" and "ledger_ok s m"
    and "claim_entry m (claimUID claim) = Some ds" and "uid_good (claimUID claim)"
  shows "\<exists>d'. Prepare (disk_services ck no_faults) s claim (d\<lparr>cdiFiles := fmempty\<rparr>) = (d', Inr (map pdDevice ds)) \<and>
    disk_ledger ck d' = Some m \<and>
    disk_spec d' (claimSpecName (claimUID claim)) = Some (claimSpec (claimUID claim) (Some ds))"
proof -
  let ?d = "d\<lparr>cdiFiles := fmempty\<rparr>" and ?u = "claimUID claim"
  have led: "disk_ledger ck ?d = Some m" using assms(2) by (simp add: disk_ledger_def)
  have "ValidateSpec (claimSpec ?u (Some ds))"
    using assms by (intro claimSpec_valid) (auto dest: ledger_ok_entry)
  then have "snd (Prepare (disk_services ck no_faults) s claim ?d) = Inr (map pdDevice ds)"
    using assms(5) by (intro safe.Prepare_succeeds [OF led]) auto
  then obtain d' where run: "Prepare (disk_services ck no_faults) s claim ?d = (d', Inr (map pdDevice ds))"
    by (cases "Prepare (disk_services ck no_faults) s claim ?d") simp
  obtain ds' where "claim_entry m ?u = None \<or> claim_entry m ?u = Some ds'"
    "disk_ledger ck d' = Some (fmupd ?u (Some ds') m)"
    "\<forall>f. plain_name (claimSpecName ?u) \<longrightarrow> plain_name f \<longrightarrow> disk_spec d' f =
      (if f = claimSpecName ?u then Some (claimSpec ?u (Some ds')) else disk_spec ?d f)"
    by (rule node_Prepare [OF assms(1) led assms(3,4) run], rule that)
  with run assms(5,6) plain_claim show ?thesis
    by (auto simp: uid_good_def fmupd_same dest: claim_entry_SomeD)
qed

lemma reboot_recovers_claims_witness:
  "\<exists>d1 d2 devs. Prepare (disk_services example_ck no_faults) example_state example_claim (example_disk example_ck) = (d1, Inr devs) \<and>
     Prepare (disk_services example_ck no_faults) example_state example_claim (d1\<lparr>cdiFiles := fmempty\<rparr>) = (d2, Inr devs)"
proof (rule example_recorded [of example_ck])
  fix d1 ds
  assume a: "Prepare (disk_services example_ck no_faults) example_state example_claim (example_disk example_ck) = (d1, Inr (map pdDevice ds))"
    "disk_ledger example_ck d1 = Some (fmupd ''c1'' (Some ds) fmempty)" "claims_normal (fmupd ''c1'' (Some ds) fmempty)"
    "ledger_ok example_state (fmupd ''c1'' (Some ds) fmempty)"
  have "claim_entry (fmupd ''c1'' (Some ds) fmempty) (claimUID example_claim) = Some ds"
    by (simp add: example_claim_def)
  from reboot_recovers_claims [OF example_state_ok a(2-4) this example_uid(1)] a(1) show ?thesis by blast
qed

section \<open>Properties of failures\<close>

text \<open>C12 (error). A call that fails changes no recorded claim: neither a failing \<open>Prepare\<close>, which also leaves the logs
  alone, nor a failing \<open>Unprepare\<close>, at whichever of its steps the fault struck.\<close>

theorem failures_change_no_claim:
  assumes "node_ok ck s d"
  shows "(Prepare (disk_services ck i) s claim d = (d1, Inl e) \<longrightarrow>
      disk_ledger ck d1 = disk_ledger ck d \<and> dirEntries d1 = dirEntries d) \<and>
    (Unprepare (disk_services ck i) s uid d = (d2, Some e') \<longrightarrow> disk_ledger ck d2 = disk_ledger ck d)"
proof -
  from assms obtain m where m: "disk_ledger ck d = Some m" by (auto simp: node_ok_def)
  from dsk.Prepare_error [OF m] dsk.Unprepare_error [OF m] m show ?thesis by auto
qed

lemma failures_change_no_claim_witness:
  "\<exists>d1 e. Prepare (disk_services example_ck no_faults) example_state (example_claim\<lparr>Allocation := None\<rparr>) (example_disk example_ck) = (d1, Inl e) \<and>
     disk_ledger example_ck d1 = Some fmempty"
proof -
  let ?c = "example_claim\<lparr>Allocation := None\<rparr>"
  obtain d1 r where run: "Prepare (disk_services example_ck no_faults) example_state ?c (example_disk example_ck) = (d1, r)" by force
  have "\<not> is_ok r"
    using Prepare_ok_iff [OF example_state_ok example_ledger, of ?c example_ck] run example_uid
    by (auto simp: ledger_ok_def example_claim_def)
  then obtain e where "r = Inl e" by (auto simp: isl_def)
  with run failures_change_no_claim [OF example_node_ok, of example_ck no_faults ?c d1 e] example_ledger [of example_ck]
  show ?thesis by auto
qed

text \<open>C13 (safety). The order of the writes shows when a fault strikes between them: if only the checkpoint write of a
  first \<open>Prepare\<close> fails, the claim's CDI file stays behind, the claim is not recorded, and the
  kubelet's \<open>Unprepare\<close> skips it, so the file is an orphan.\<close>

theorem checkpoint_fault_orphans_claim_file:
  assumes "state_ok s" and "disk_ledger ck d = Some m" and "claim_entry m (claimUID claim) = None"
    and "uid_good (claimUID claim)" and "prepareDevices s claim = Inr (Some ds)"
    and "distinct (map (\<lambda>pd. DeviceName (pdDevice pd)) ds)"
  shows "\<exists>d' e. Prepare (disk_services ck (no_faults\<lparr>ckWriteFails := \<lambda>_ _. True\<rparr>)) s claim d = (d', Inl e) \<and>
    disk_ledger ck d' = Some m \<and>
    Unprepare (disk_services ck no_faults) s (claimUID claim) d' = (d', None) \<and>
    disk_spec d' (claimSpecName (claimUID claim)) = Some (claimSpec (claimUID claim) (Some ds))"
proof -
  let ?u = "claimUID claim" and ?sv = "disk_services ck (no_faults\<lparr>ckWriteFails := \<lambda>_ _. True\<rparr>)"
  let ?d = "d\<lparr>cdiFiles := fmupd (spec_file (claimSpecName ?u)) (claimSpec ?u (Some ds)) (cdiFiles d)\<rparr>"
  have valid: "ValidateSpec (claimSpec ?u (Some ds))"
    using assms prepared_record_ok by (intro claimSpec_valid) auto
  obtain cp where cp: "svGetCheckpoint (disk_services ck no_faults) DriverPluginCheckpointFile newCheckpoint d = Inr cp"
    using safe.get_total [OF assms(2)] by blast
  then have cp': "svGetCheckpoint ?sv DriverPluginCheckpointFile newCheckpoint d = Inr cp"
    by (simp add: disk_services_def CheckpointManager_Get_def no_faults_def split: if_splits)
  have led: "disk_ledger ck ?d = Some m" using assms(2) by (simp add: disk_ledger_def)
  have "Prepare ?sv s claim d = (?d, Inl (ErrText ''unable to sync to checkpoint: %v'' [] (ErrIO DriverPluginCheckpointFile)))"
    using dsk.Prepare_unfold [OF assms(2) cp', of s claim] assms(3,5) valid
    by (simp add: Let_def CreateClaimSpecFile_def disk_service_defs no_faults_def)
  moreover have "Unprepare (disk_services ck no_faults) s ?u ?d = (?d, None)"
    using dsk.Unprepare_unknown [OF led assms(3), of no_faults s] safe.Unprepare_succeeds [OF led, of s ?u]
    by (metis prod.collapse)
  ultimately show ?thesis using led by (auto simp: disk_spec_def)
qed

lemma checkpoint_fault_orphans_claim_file_witness:
  "\<exists>d' e sp. Prepare (disk_services example_ck (no_faults\<lparr>ckWriteFails := \<lambda>_ _. True\<rparr>)) example_state example_claim (example_disk example_ck) = (d', Inl e) \<and>
     Unprepare (disk_services example_ck no_faults) example_state ''c1'' d' = (d', None) \<and>
     disk_spec d' (claimSpecName ''c1'') = Some sp"
proof (rule example_recorded [of example_ck])
  fix d1 ds
  assume a: "record_ok example_state ''c1'' ds" "prepareDevices example_state example_claim = Inr (Some ds)"
  have uid: "claimUID example_claim = ''c1''" by (simp add: example_claim_def)
  have "distinct (map (\<lambda>pd. DeviceName (pdDevice pd)) ds)" using a(1) by (simp add: record_ok_def)
  from checkpoint_fault_orphans_claim_file [OF example_state_ok example_ledger claim_entry_empty example_uid(1) a(2) this]
  show ?thesis unfolding uid by blast
qed

section \<open>Properties of Unprepare\<close>

text \<open>A successful \<open>Unprepare\<close> of a recorded claim removes its record and its file and touches no
  other claim's record or file.\<close>

theorem unprepare_releases_only_its_claim:
  assumes "disk_ledger ck d = Some m" and "claims_normal m" and "claim_entry m uid \<noteq> None" and "uid_ok uid"
    and "Unprepare (disk_services ck i) s uid d = (d', None)"
  shows "disk_ledger ck d' = Some (fmdrop uid m) \<and> disk_spec d' (claimSpecName uid) = None \<and>
    (\<forall>v. uid_ok v \<and> v \<noteq> uid \<longrightarrow> disk_spec d' (claimSpecName v) = disk_spec d (claimSpecName v)) \<and>
    disk_spec d' (claimSpecName cdiCommonDeviceName) = disk_spec d (claimSpecName cdiCommonDeviceName)"
  using dsk.Unprepare_outcome [OF assms(1,2,5,3)] plain_claim [OF assms(4)] plain_claim plain_common
    claimSpecName_inject [OF _ assms(4)] claimSpecName_not_common [OF assms(4)]
  by auto

lemma unprepare_releases_only_its_claim_witness:
  "\<exists>d1 d2 devs. Prepare (disk_services example_ck no_faults) example_state example_claim (example_disk example_ck) = (d1, Inr devs) \<and>
     Unprepare (disk_services example_ck no_faults) example_state ''c1'' d1 = (d2, None) \<and>
     disk_ledger example_ck d2 = Some fmempty \<and> disk_spec d2 (claimSpecName ''c1'') = None"
proof (rule example_recorded [of example_ck])
  fix d1 ds
  assume a: "Prepare (disk_services example_ck no_faults) example_state example_claim (example_disk example_ck) = (d1, Inr (map pdDevice ds))"
    "disk_ledger example_ck d1 = Some (fmupd ''c1'' (Some ds) fmempty)" "claims_normal (fmupd ''c1'' (Some ds) fmempty)"
  have held: "claim_entry (fmupd ''c1'' (Some ds) fmempty) ''c1'' \<noteq> None" by simp
  have uid: "uid_ok ''c1''" by code_simp
  obtain d2 where r: "Unprepare (disk_services example_ck no_faults) example_state ''c1'' d1 = (d2, None)"
    using safe.Unprepare_succeeds [OF a(2), of example_state "''c1''"]
    by (cases "Unprepare (disk_services example_ck no_faults) example_state ''c1'' d1") simp
  have "fmdrop ''c1'' (fmupd ''c1'' (Some ds) fmempty) = fmempty" by (rule fmap_ext) simp
  with unprepare_releases_only_its_claim [OF a(2,3) held uid r] a(1) r show ?thesis by auto
qed

text \<open>C10 (safety). The log directory the claims share: with sharing enabled a successful \<open>Unprepare\<close> leaves it untouched
  as long as another claim is recorded. In every other case its entries are removed, those \<open>os.ReadDir\<close>
  lists, so that it is empty if it could be read. The error of a reading that stops early is dropped:
  only the entries read before it go, the rest stays, and \<open>Unprepare\<close> still reports success.\<close>

theorem logs_survive_while_shared:
  assumes "disk_ledger ck d = Some m" and "claims_normal m" and "claim_entry m uid \<noteq> None"
    and "Unprepare (disk_services ck i) s uid d = (d', None)"
  shows "let dir = logDir s; entries = dirEntries d dir in
    dirEntries d' dir =
      (if enabled (dsSharesPolicy s) \<and> (\<exists>u. u \<noteq> uid \<and> u |\<in>| fmdom m) then entries
       else case dirReadStops i dir d of
         None \<Rightarrow> []
       | Some k \<Rightarrow> filter (\<lambda>x. path_join [dir, x] \<notin> (\<lambda>y. path_join [dir, y]) ` set (take k entries)) entries)"
  using dsk.Unprepare_outcome [OF assms(1,2,4,3)]
  by (auto simp: keeps_logs_def entries_left_def disk_services_def os_ReadDir_def Let_def split: if_splits option.splits)

lemma logs_survive_while_shared_witness:
  "\<exists>d1 d2 d3 devs. Prepare (disk_services example_ck no_faults) example_state example_claim (example_disk example_ck) = (d1, Inr devs) \<and>
     dirEntries d1 (logDir example_state) = [''tpu_driver.INFO''] \<and>
     Unprepare (disk_services example_ck no_faults) example_state ''c1'' d1 = (d2, None) \<and>
     dirEntries d2 (logDir example_state) = [] \<and>
     Unprepare (disk_services example_ck (no_faults\<lparr>dirReadStops := \<lambda>_ _. Some 0\<rparr>)) example_state ''c1'' d1 = (d3, None) \<and>
     dirEntries d3 (logDir example_state) = [''tpu_driver.INFO'']"
proof (rule example_recorded [of example_ck])
  fix d1 ds
  assume a: "Prepare (disk_services example_ck no_faults) example_state example_claim (example_disk example_ck) = (d1, Inr (map pdDevice ds))"
    "disk_ledger example_ck d1 = Some (fmupd ''c1'' (Some ds) fmempty)" "claims_normal (fmupd ''c1'' (Some ds) fmempty)"
    "dirEntries d1 = dirEntries fresh_disk"
  let ?torn = "no_faults\<lparr>dirReadStops := \<lambda>_ _. Some 0\<rparr>"
  have held: "claim_entry (fmupd ''c1'' (Some ds) fmempty) ''c1'' \<noteq> None" by simp
  obtain d2 where r: "Unprepare (disk_services example_ck no_faults) example_state ''c1'' d1 = (d2, None)"
    using safe.Unprepare_succeeds [OF a(2), of example_state "''c1''"]
    by (cases "Unprepare (disk_services example_ck no_faults) example_state ''c1'' d1") simp
  obtain d3 where t: "Unprepare (disk_services example_ck ?torn) example_state ''c1'' d1 = (d3, None)"
    using torn.Unprepare_succeeds [OF a(2), of "\<lambda>_ _. Some 0" example_state "''c1''"]
    by (cases "Unprepare (disk_services example_ck ?torn) example_state ''c1'' d1") simp
  have "\<not> enabled (dsSharesPolicy example_state)" by (simp add: example_state_def noShares_def)
  with logs_survive_while_shared [OF a(2,3) held r] logs_survive_while_shared [OF a(2,3) held t] a(1,4) r t
  show ?thesis by (auto simp: fresh_disk_def no_faults_def Let_def)
qed

text \<open>Unpreparing a claim that is not recorded changes nothing at all, so a repeated \<open>Unprepare\<close> is
  harmless; without faults it also succeeds.\<close>

theorem unprepare_unknown_is_noop:
  assumes "disk_ledger ck d = Some m" and "claim_entry m uid = None"
  shows "fst (Unprepare (disk_services ck i) s uid d) = d \<and>
    Unprepare (disk_services ck no_faults) s uid d = (d, None)"
  using dsk.Unprepare_unknown [OF assms] safe.Unprepare_succeeds [OF assms(1)]
  by (metis prod.collapse)

lemma unprepare_unknown_is_noop_witness:
  "Unprepare (disk_services example_ck no_faults) example_state ''c1'' (example_disk example_ck) = (example_disk example_ck, None)"
  using unprepare_unknown_is_noop [OF example_ledger claim_entry_empty] by blast

text \<open>C11 (roundtrip). Without faults, preparing and then unpreparing a new claim succeeds and gives back the ledger and
  every CDI file as they were before.\<close>

theorem prepare_unprepare_roundtrip:
  assumes "state_ok s" and "disk_ledger ck d = Some m" and "claims_normal m" and "ledger_ok s m"
    and "fmlookup m (claimUID claim) = None" and "uid_ok (claimUID claim)"
    and "disk_spec d (claimSpecName (claimUID claim)) = None"
    and "Prepare (disk_services ck no_faults) s claim d = (d1, Inr devs)"
  shows "\<exists>d2. Unprepare (disk_services ck no_faults) s (claimUID claim) d1 = (d2, None) \<and>
    disk_ledger ck d2 = Some m \<and> (\<forall>f. plain_name f \<longrightarrow> disk_spec d2 f = disk_spec d f)"
proof -
  let ?u = "claimUID claim"
  obtain ds where led: "disk_ledger ck d1 = Some (fmupd ?u (Some ds) m)" "claims_normal (fmupd ?u (Some ds) m)"
    and specs: "\<forall>f. plain_name (claimSpecName ?u) \<longrightarrow> plain_name f \<longrightarrow> disk_spec d1 f =
      (if f = claimSpecName ?u then Some (claimSpec ?u (Some ds)) else disk_spec d f)"
    by (rule node_Prepare [OF assms(1-4,8)], rule that)
  from safe.Unprepare_succeeds [OF led(1), of s ?u] obtain d2
    where run: "Unprepare (disk_services ck no_faults) s ?u d1 = (d2, None)"
    by (cases "Unprepare (disk_services ck no_faults) s ?u d1") simp
  have "fmdrop ?u (fmupd ?u (Some ds) m) = m" using assms(5) by (intro fmap_ext) auto
  with dsk.Unprepare_outcome [OF led run] run specs assms(7) plain_claim [OF assms(6)] show ?thesis by auto
qed

lemma prepare_unprepare_roundtrip_witness:
  "\<exists>d1 d2 devs. Prepare (disk_services example_ck no_faults) example_state example_claim (example_disk example_ck) = (d1, Inr devs) \<and>
     Unprepare (disk_services example_ck no_faults) example_state ''c1'' d1 = (d2, None) \<and>
     disk_ledger example_ck d2 = disk_ledger example_ck (example_disk example_ck)"
proof -
  obtain d1 devs where run: "Prepare (disk_services example_ck no_faults) example_state example_claim (example_disk example_ck) = (d1, Inr devs)"
    using example_prepared by blast
  have uid: "claimUID example_claim = ''c1''" by (simp add: example_claim_def)
  have "disk_spec (example_disk example_ck) (claimSpecName (claimUID example_claim)) = None"
    using claimSpecName_not_common [OF example_uid(2)]
    by (simp add: disk_spec_def example_disk_files fresh_disk_def spec_file_plain plain_claim [OF example_uid(2)] plain_common)
  with prepare_unprepare_roundtrip [OF example_state_ok example_ledger claims_normal_empty _ _ example_uid(2) _ run] run
  show ?thesis by (auto simp: ledger_ok_def uid example_ledger)
qed

section \<open>Names\<close>

text \<open>C34 (safety). The CDI names of two recorded claims never clash with each other or with the common name, although a
  dash joins the UID to the device and UIDs contain dashes: chip names do not.\<close>

theorem claim_names_never_clash:
  assumes "state_ok s" and "record_ok s u ds" and "record_ok s v es" and "u \<noteq> v"
  shows "set (spec_ids (claimSpec u (Some ds))) \<inter> set (spec_ids (claimSpec v (Some es))) = {} \<and>
    commonName \<notin> set (spec_ids (claimSpec u (Some ds)))"
proof -
  have dash: "CHR ''-'' \<notin> set (DeviceName (pdDevice pd))" if "pd \<in> set ds \<union> set es" for pd
  proof -
    have "DeviceName (pdDevice pd) \<in> chips s" using that assms(2,3) by (auto simp: record_ok_def)
    with assms(1) show ?thesis by (auto simp: state_ok_def dest!: chip_name_no_dash bspec)
  qed
  have no: "CHR ''-'' \<notin> set cdiCommonDeviceName" by code_simp
  have "CHR ''-'' \<in> set (claimDeviceName u k)" for k by (simp add: claimDeviceName_def)
  with no have "cdiCommonDeviceName \<noteq> claimDeviceName u k" for k by metis
  then show ?thesis
    using dash claimDeviceName_inject assms(4)
    by (auto simp: spec_ids_claim QualifiedName_inject commonName_def)
qed

lemma claim_names_never_clash_witness:
  "\<exists>ds es. record_ok example_state ''c1'' ds \<and> record_ok example_state ''c1-0'' es \<and>
     set (spec_ids (claimSpec ''c1'' (Some ds))) \<inter> set (spec_ids (claimSpec ''c1-0'' (Some es))) = {}"
proof -
  obtain ds es where r: "record_ok example_state ''c1'' ds" "record_ok example_state ''c1-0'' es"
    using example_record by blast
  have "''c1'' \<noteq> ''c1-0''" by simp
  from claim_names_never_clash [OF example_state_ok r this] r show ?thesis by blast
qed

end
