(* ===== verification/NodeRuns.thy ===== *)
theory NodeRuns
  imports ClaimLife
begin

text \<open>
  Properties of whole runs of a node and of its start: the agreement of files and ledger without
  faults, what \<open>NewDeviceState\<close> establishes and what a change of health does, the invariant of the ledger
  under any faults and restarts, and its refinement of the abstract machine.
\<close>

section \<open>Runs without faults\<close>

text \<open>The files of the claims are those the ledger calls for, and no others.\<close>

definition synced :: "disk \<Rightarrow> PreparedClaims \<Rightarrow> bool" where
  "synced d m \<longleftrightarrow> (\<forall>u. uid_ok u \<longrightarrow>
     disk_spec d (claimSpecName u) = map_option (\<lambda>ds. claimSpec u (Some ds)) (claim_entry m u))"

inductive quiet_step :: "(json \<Rightarrow> 64 word) \<Rightarrow> serving \<Rightarrow> serving \<Rightarrow> bool" for ck :: "json \<Rightarrow> 64 word" where
  quiet_prepare: "uid_ok (claimUID claim) \<Longrightarrow> Prepare (disk_services ck no_faults) s claim d = (d', r) \<Longrightarrow>
    quiet_step ck (d, Some s) (d', survivor (error_of r) s)"
| quiet_unprepare: "uid_ok uid \<Longrightarrow> Unprepare (disk_services ck no_faults) s uid d = (d', e) \<Longrightarrow>
    quiet_step ck (d, Some s) (d', survivor e s)"
| quiet_restart: "NewDeviceState (disk_services ck i) u environ fs order cacheErr managerErr labels devDir policy d = (d', st) \<Longrightarrow>
    quiet_step ck (d, sv) (d', value_of st)"
| quiet_logs: "quiet_step ck (d, sv) (d\<lparr>dirEntries := e\<rparr>, sv)"

inductive_cases quiet_stepE [consumes 1, case_names quiet_prepare quiet_unprepare quiet_restart quiet_logs]:
  "quiet_step ck (d, sv) (d', sv')"

lemma quiet_step_synced:
  assumes d: "disk_ledger ck d = Some m" "claims_normal m"
    and sync: "synced d m" and step: "quiet_step ck (d, sv) (d', sv')"
  shows "\<exists>m'. disk_ledger ck d' = Some m' \<and> claims_normal m' \<and> synced d' m'"
  using step
proof (cases rule: quiet_stepE)
  case (quiet_prepare claim s r)
  show ?thesis
  proof (cases r)
    case (Inl e)
    with safe.Prepare_error_unchanged [OF d(1)] quiet_prepare(4) have "d' = d" by blast
    with d sync show ?thesis by blast
  next
    case (Inr devs)
    let ?u = "claimUID claim"
    obtain ds where "disk_ledger ck d' = Some (fmupd ?u (Some ds) m)" "claims_normal (fmupd ?u (Some ds) m)"
      and "\<And>f. plain_name (claimSpecName ?u) \<Longrightarrow> plain_name f \<Longrightarrow> disk_spec d' f =
        (if f = claimSpecName ?u then Some (claimSpec ?u (Some ds)) else disk_spec d f)"
      by (rule dsk.Prepare_outcome [OF d quiet_prepare(4) [unfolded Inr]], rule that)
    with sync quiet_prepare(3) plain_claim show ?thesis
      by (auto simp: synced_def claimSpecName_inject)
  qed
next
  case (quiet_unprepare uid s e)
  have e: "e = None" using safe.Unprepare_succeeds [OF d(1), of s uid] quiet_unprepare(4) by simp
  show ?thesis
  proof (cases "claim_entry m uid = None")
    case True
    with dsk.Unprepare_unknown [OF d(1) True, of no_faults s] quiet_unprepare(4) d sync show ?thesis by auto
  next
    case False
    with dsk.Unprepare_outcome [OF d quiet_unprepare(4) [unfolded e]] sync quiet_unprepare(3) plain_claim
    show ?thesis by (auto simp: synced_def claimSpecName_inject)
  qed
next
  case (quiet_restart i u environ fs order cacheErr managerErr labels devDir policy st)
  from dsk.NewDeviceState_outcome [OF quiet_restart(2)] d sync show ?thesis
    by (auto simp: synced_def plain_claim claimSpecName_not_common)
next
  case (quiet_logs e)
  with d sync show ?thesis by (auto simp: disk_ledger_def synced_def disk_spec_def)
qed

lemma example_synced: "synced (example_disk ck) fmempty"
proof -
  have "claimSpecName cdiCommonDeviceName \<noteq> claimSpecName u" if "uid_ok u" for u
    using claimSpecName_not_common [OF that] by metis
  then show ?thesis using plain_claim plain_common
    by (auto simp: synced_def disk_spec_def example_disk_files fresh_disk_def spec_file_plain)
qed

text \<open>C5 (invariant). As long as no call fails, the claim files in the CDI directory are exactly those of the
  recorded claims, with the contents their records call for: no orphan, nothing missing. That holds
  over restarts, failed ones too, whatever hardware they find: the calls go on with the new state.\<close>

theorem files_match_ledger_without_faults:
  assumes "(quiet_step ck)\<^sup>*\<^sup>* (d, sv) (d', sv')" and "disk_ledger ck d = Some m" and "claims_normal m" and "synced d m"
  shows "\<exists>m'. disk_ledger ck d' = Some m' \<and> claims_normal m' \<and> synced d' m'"
  using assms(1)
proof (induction "(d', sv')" arbitrary: d' sv' rule: rtranclp_induct)
  case base
  with assms(2-) show ?case by blast
next
  case (step x)
  obtain d1 sv1 where x: "x = (d1, sv1)" by (cases x)
  obtain m1 where "disk_ledger ck d1 = Some m1" "claims_normal m1" "synced d1 m1"
    using step.hyps(3) [OF x] by blast
  then show ?case by (rule quiet_step_synced) (use step.hyps(2) x in simp)
qed

lemma files_match_ledger_without_faults_witness:
  "\<exists>d' devs m'. Prepare (disk_services example_ck no_faults) example_state example_claim (example_disk example_ck) = (d', Inr devs) \<and>
     disk_ledger example_ck d' = Some m' \<and> synced d' m'"
proof -
  obtain d' devs where run: "Prepare (disk_services example_ck no_faults) example_state example_claim (example_disk example_ck) = (d', Inr devs)"
    using example_prepared by blast
  have "(quiet_step example_ck)\<^sup>*\<^sup>* (example_disk example_ck, Some example_state) (d', survivor (error_of (Inr devs)) example_state)"
    by (rule r_into_rtranclp) (rule quiet_step.quiet_prepare [OF example_uid(2) run])
  with files_match_ledger_without_faults [OF _ example_ledger claims_normal_empty example_synced] run
  show ?thesis by blast
qed

section \<open>Start and health\<close>

text \<open>A start on an accel node of two chips, for the witness.\<close>

definition start_labels :: strmap where
  "start_labels = [AcceleratorLabel \<mapsto> ''tpu-v4-podslice'', AcceleratorCountLabel \<mapsto> ''2'']"

definition empty_disk :: disk where
  "empty_disk = \<lparr>ckFiles = fmempty, cdiFiles = fmempty, dirEntries = (\<lambda>_. [])\<rparr>"

lemma start_get: "get start_labels AcceleratorLabel = ''tpu-v4-podslice''" 
   "get start_labels AcceleratorCountLabel = ''2''" "get start_labels TopologyLabel = ''''" "get start_labels ICIResiliency = ''''"
   "ChipCount ''2'' = Inr 2" "AcceleratorGen ''tpu-v4-podslice'' = Inr ''v4''"
  by code_simp+
lemma start_envs: "is_ok (InitEnvs Map.empty \<lparr>Accelerator = ''tpu-v4-podslice'', Topology_opt = [], EnableICIResiliency = [],
              ChipCount_opt = 2, AcceleratorCount = 2, RequestedChipCount = 2, SubSliceTopology = [],
              IsPriviledged = False, VisibleChipIds = [], EnableDeviceSpreading = False, NumaNodeIds = []\<rparr>)"
  by code_simp
lemma start_manager: "is_ok (NewTPUManager Map.empty start_labels ''/dev'')"
  using start_envs by (auto simp: NewTPUManager_def Let_def start_get split: sum.splits)

lemma commonSpec_valid:
  "\<forall>m\<in>set ms. mntHostPath m \<noteq> [] \<and> mntContainerPath m \<noteq> [] \<Longrightarrow> ValidateSpec (commonSpec environ [] vars ms)"
proof -
  have "ValidateDeviceName cdiCommonDeviceName" by code_simp
  then show "\<forall>m\<in>set ms. mntHostPath m \<noteq> [] \<and> mntContainerPath m \<noteq> [] \<Longrightarrow> ?thesis"
    by (simp add: ValidateSpec_def commonSpec_def Let_def ValidateEdits_def ValidateEnv_def list_all_iff)
qed

text \<open>On that node every disk will do, and all labels that name two chips and yield the variables.\<close>

lemma accel_host_starts:
  assumes "NewTPUManager Map.empty labels ''/dev'' = Inr tm" and "ChipCount (get labels AcceleratorCountLabel) = Inr 2"
  shows "\<exists>d' s. NewDeviceState (disk_services example_ck no_faults) example_uuid Map.empty accel_host [] None None
     labels ''/dev'' policy d = (d', Inr s)"
proof -
  note t = NewTPUManager_Inr [OF assms(1)]
  have dir: "ReadDir accel_host (DevDirectory tm) = Some accel_files" using t by (simp add: accel_host_def)
  have "deviceRegex tm = deviceRegex accel_tm" using t by (simp add: deviceRegex_def accel_tm_def)
  then have "is_ok (enumerateAllPossibleTpuDevices example_uuid Map.empty accel_host tm)"
    using enumerate_ok_iff [OF dir] accel_tpu_files t assms(2) by simp
  then obtain devs tm' where e: "enumerateAllPossibleTpuDevices example_uuid Map.empty accel_host tm = Inr (devs, tm')"
    by (auto simp: result_simps)
  then have mounts: "commonMounts tm' = commonMounts tm" by (auto simp: enumerate_Inr_iff)
  have "ValidateSpec (commonSpec Map.empty [] (envs tm') (commonMounts tm'))"
    using t by (intro commonSpec_valid) (auto simp: mounts libtpuLogDir_def)
  then show ?thesis using assms(1) e
    by (simp add: NewDeviceState_def CreateCommonSpecFile_def disk_service_defs CheckpointManager_List_def
        no_faults_def Let_def)
qed

lemma example_start:
  "\<exists>d' s. NewDeviceState (disk_services example_ck no_faults) example_uuid Map.empty accel_host [] None None
     start_labels ''/dev'' noShares d = (d', Inr s)"
proof -
  obtain tm where "NewTPUManager Map.empty start_labels ''/dev'' = Inr tm"
    using start_manager by (auto simp: result_simps)
  then show ?thesis by (rule accel_host_starts) code_simp
qed

text \<open>Every device of a fresh state is healthy and carries the name it is stored under.\<close>

definition devices_named :: "DeviceState \<Rightarrow> bool" where
  "devices_named s \<longleftrightarrow> (\<forall>k dev. fmlookup (dsAllocatable s) k = Some dev \<longrightarrow> adName dev = k)"

lemma NewDeviceState_devices:
  assumes "NewDeviceState (disk_services ck i) u environ fs order cacheErr managerErr labels devDir policy d = (d', Inr s)"
    and "fmlookup (dsAllocatable s) k = Some dev"
  shows "allocatable dev \<and> adName dev = k"
proof -
  obtain tm devs tm' where e: "enumerateAllPossibleTpuDevices u environ fs tm = Inr (devs, tm')"
    and s: "s = \<lparr>dsAllocatable = devs, dsTm = Some tm', dsSharesPolicy = policy, dsTpuLogDir = tpuLogDir tm'\<rparr>"
    by (rule dsk.NewDeviceState_ok [OF assms(1)], rule that)
  from e obtain fls where "foldl (enumerate_step u environ tm (deviceRegex tm)) (0, fmempty) fls = (tpuChipCount tm, devs)"
    by (auto simp: enumerate_Inr_iff)
  then show ?thesis by (rule enumerate_devices_wf) (use assms(2) s in simp_all)
qed

text \<open>C14 (invariant). A successful start yields a device state whose chips are as many as the node is expected to
  have, all healthy; the common CDI file is in place, recorded claims are kept, and without a
  checkpoint file the ledger starts empty.\<close>

theorem start_establishes_invariant:
  assumes "NewDeviceState (disk_services ck i) u environ fs order cacheErr managerErr labels devDir policy d = (d', Inr s)"
    and "ReadDir fs devDir = Some files" and "distinct (map Name files)" and "length files < 2 ^ 63" and "devDir \<noteq> []"
  shows "state_ok s \<and> (\<forall>k dev. fmlookup (dsAllocatable s) k = Some dev \<longrightarrow> allocatable dev \<and> adName dev = k) \<and>
    (\<exists>sp. disk_spec d' (claimSpecName cdiCommonDeviceName) = Some sp \<and> commonName \<in> set (spec_ids sp)) \<and>
    (disk_ledger ck d \<noteq> None \<longrightarrow> disk_ledger ck d' = disk_ledger ck d) \<and>
    (fmlookup (ckFiles d) DriverPluginCheckpointFile = None \<longrightarrow> disk_ledger ck d' = Some fmempty)"
proof -
  obtain tm devs tm' where e: "enumerateAllPossibleTpuDevices u environ fs tm = Inr (devs, tm')"
    and s: "s = \<lparr>dsAllocatable = devs, dsTm = Some tm', dsSharesPolicy = policy, dsTpuLogDir = tpuLogDir tm'\<rparr>"
    and common: "disk_spec d' (claimSpecName cdiCommonDeviceName) = Some (commonSpec environ order (envs tm') (commonMounts tm'))"
    and led: "disk_ledger ck d' = Some fmempty \<or> (disk_ledger ck d' = disk_ledger ck d \<and>
        (\<exists>ks. svListCheckpoints (disk_services ck i) d = Inr ks \<and> DriverPluginCheckpointFile \<in> set ks))"
    by (rule dsk.NewDeviceState_ok [OF assms(1)], rule that)
  note wf = NewDeviceState_devices [OF assms(1)]
  have "state_ok s"
    by (rule NewDeviceState_state_ok [OF assms(1) dsk.claim_services_axioms assms(2-5)])
  moreover have "fmlookup (ckFiles d) DriverPluginCheckpointFile = None \<Longrightarrow> disk_ledger ck d' = Some fmempty"
    using led by (auto simp: disk_services_def CheckpointManager_List_def fmdom_notI split: if_splits)
  ultimately show ?thesis
    using wf common dsk.NewDeviceState_outcome [OF assms(1)]
    by (auto simp: commonName_def spec_ids_common)
qed

lemma start_establishes_invariant_witness:
  "\<exists>d' s. NewDeviceState (disk_services example_ck no_faults) example_uuid Map.empty accel_host [] None None
     start_labels ''/dev'' noShares empty_disk = (d', Inr s) \<and> state_ok s \<and> disk_ledger example_ck d' = Some fmempty"
proof -
  obtain d' s where run: "NewDeviceState (disk_services example_ck no_faults) example_uuid Map.empty accel_host [] None None
     start_labels ''/dev'' noShares empty_disk = (d', Inr s)" using example_start by blast
  have "ReadDir accel_host ''/dev'' = Some accel_files" "distinct (map Name accel_files)" "length accel_files < 2 ^ 63"
    by (simp_all add: accel_host_def accel_files_def)
  with start_establishes_invariant [OF run] run show ?thesis by (auto simp: empty_disk_def)
qed

text \<open>A health update changes the health of the named device alone, signals the publisher exactly
  when it changed something, and fails exactly for an unknown device; the set of chips stays.\<close>

theorem UpdateHealth_outcome:
  "(case UpdateHealth s k h of
      Inl _ \<Rightarrow> k \<notin> chips s
    | Inr (s', sent) \<Rightarrow> (\<exists>dev. fmlookup (dsAllocatable s) k = Some dev \<and> (sent \<longleftrightarrow> allocatable dev \<noteq> h) \<and>
        fmlookup (dsAllocatable s') k = Some (dev\<lparr>allocatable := h\<rparr>)) \<and>
        (\<forall>k'. k' \<noteq> k \<longrightarrow> fmlookup (dsAllocatable s') k' = fmlookup (dsAllocatable s) k') \<and>
        chips s' = chips s \<and> (state_ok s' \<longleftrightarrow> state_ok s))"
proof (cases "fmlookup (dsAllocatable s) k")
  case None
  then show ?thesis by (simp add: UpdateHealth_def chips_def fmdom_notI)
next
  case (Some dev)
  then have dom: "finsert k (fmdom (dsAllocatable s)) = fmdom (dsAllocatable s)"
    by (simp add: finsert_absorb fmdomI)
  with Some show ?thesis
    by (cases "allocatable dev = h") (auto simp: UpdateHealth_def chips_def state_ok_def simp flip: fset_simps)
qed

lemma UpdateHealth_outcome_witness:
  "\<exists>s'. UpdateHealth example_state ''0'' False = Inr (s', True) \<and> state_ok s' \<and> chips s' = {''0''} \<and>
     map_option allocatable (fmlookup (dsAllocatable s') ''0'') = Some False"
proof -
  obtain s' where run: "UpdateHealth example_state ''0'' False = Inr (s', True)"
    by (simp add: UpdateHealth_def example_state_def example_device_def)
  from UpdateHealth_outcome [where s = example_state and k = "''0''" and h = False]
  have "map_option allocatable (fmlookup (dsAllocatable s') ''0'') = Some False"
    and "chips s' = chips example_state \<and> (state_ok s' \<longleftrightarrow> state_ok example_state)"
    unfolding run prod.case sum.case by auto
  with run example_state_ok example_chips show ?thesis by blast
qed

section \<open>Runs with faults and restarts\<close>

lemma node_ok_recorded: "state_ok s \<Longrightarrow> ledger_ok s m \<Longrightarrow> recorded_by {s} m"
  by (auto simp: ledger_ok_def recorded_by_def)

text \<open>C2 (invariant). Whatever calls, faults, restarts, losses and writes of others a node goes through, its
  checkpoint stays readable, and every recorded claim holds, exactly once and with its own CDI names,
  every chip of a well-formed state that served: the first one or that of a restart, which goes on to
  serve. As long as the restarts find the same chips, every recorded claim holds every chip of the node.\<close>

theorem reachable_ledgers_are_ok:
  assumes "state_ok s" and "node_ok ck s d" and "node_run ck es (d, Some s) (d', sv')"
  shows "\<exists>m'. disk_ledger ck d' = Some m' \<and> claims_normal m' \<and> recorded_by (insert s (restarted es)) m' \<and>
    (\<forall>s'\<in>set_option sv'. state_ok s' \<and> s' \<in> insert s (restarted es)) \<and>
    ((\<forall>s0\<in>restarted es. chips s0 = chips s) \<longrightarrow>
       (\<forall>u ds. fmlookup m' u = Some ds \<longrightarrow> distinct (map DeviceName (GetDevices ds)) \<and>
          set (map DeviceName (GetDevices ds)) = chips s))"
proof -
  from assms(2) obtain m where m: "disk_ledger ck d = Some m" "claims_normal m" "ledger_ok s m" by (auto simp: node_ok_def)
  have "\<forall>s0\<in>set_option (Some s). state_ok s0" using assms(1) by simp
  from node_run_outcome [OF assms(3) refl refl m(1,2) this] node_ok_recorded [OF assms(1) m(3)]
  obtain m' where m': "disk_ledger ck d' = Some m'" "claims_normal m'" "\<forall>s'\<in>set_option sv'. state_ok s'"
    and rec: "recorded_by (insert s (restarted es)) m'" and sv': "set_option sv' \<subseteq> insert s (restarted es)"
    by fastforce
  have "distinct (map DeviceName (GetDevices e)) \<and> set (map DeviceName (GetDevices e)) = chips s"
    if same: "\<forall>s0\<in>restarted es. chips s0 = chips s" and "fmlookup m' u = Some e" for u e
  proof -
    obtain ds s0 where "e = Some ds" "s0 \<in> insert s (restarted es)" "record_ok s0 u ds"
      using rec \<open>fmlookup m' u = Some e\<close> unfolding recorded_by_def by blast
    with same show ?thesis by (auto simp: record_ok_def GetDevices_def comp_def)
  qed
  with m' rec sv' show ?thesis by blast
qed

text \<open>C3 (refinement). The driver keeps its word to the kubelet. Whatever faults strike, the answers of a run are those the
  abstract ledger allows, and the checkpoint and the serving chips are those it computes from the events
  alone. So a claim is recorded from its first answer, with exactly the devices answered, until its
  \<open>Unprepare\<close> succeeds, and by nothing else: no failing call, no restart and no other claim's call makes it appear,
  disappear or change; a new claim is only granted the whole node its results name; nothing panics.\<close>

theorem runs_refine_ledger:
  assumes "node_run ck es (d, sv) (d', sv')" and "\<forall>s\<in>set_option sv. state_ok s"
    and "disk_ledger ck d = Some m" and "claims_normal m"
  shows "\<exists>m'. disk_ledger ck d' = Some m' \<and>
    ledger_run es (told_by m, map_option chips sv) = Some (told_by m', map_option chips sv')"
  using node_run_outcome [OF assms(1) refl refl assms(3,4,2)] by blast

text \<open>A life for the witnesses: a claim is prepared, the driver restarts on a node with other chips, and the claim is
  unprepared.\<close>

lemma example_life:
  obtains d1 d2 d3 devs s2 where
    "Prepare (disk_services example_ck no_faults) example_state example_claim (example_disk example_ck) = (d1, Inr devs)"
    "node_run example_ck [PrepareCall example_claim (Inr devs), OutsideWrites, Restarted (Inr s2)]
       (example_disk example_ck, Some example_state) (d2, Some s2)"
    "node_run example_ck [PrepareCall example_claim (Inr devs), OutsideWrites, Restarted (Inr s2), UnprepareCall ''c1'' None]
       (example_disk example_ck, Some example_state) (d3, Some s2)"
    "chips s2 = {''accel0'', ''accel1''}"
proof -
  let ?ck = example_ck
  obtain d1 devs where p: "Prepare (disk_services ?ck no_faults) example_state example_claim (example_disk ?ck) = (d1, Inr devs)"
    using example_prepared by blast
  let ?d1 = "d1\<lparr>cdiFiles := fmempty, dirEntries := \<lambda>_. []\<rparr>"
  obtain d2 s2 where r: "NewDeviceState (disk_services ?ck no_faults) example_uuid Map.empty accel_host [] None None
     start_labels ''/dev'' noShares ?d1 = (d2, Inr s2)" using example_start by blast
  have dev: "ReadDir accel_host ''/dev'' = Some accel_files" "distinct (map Name accel_files)" "length accel_files < 2 ^ 63"
    by (simp_all add: accel_host_def accel_files_def)
  then have sane: "sane_dir accel_host ''/dev''" by (simp add: sane_dir_def)
  note steps = node_step.prepare [OF p] node_step.outside [where d = d1 and files = fmempty and entries = "\<lambda>_. []"]
    node_step.restart [OF r sane]
  have run: "node_run ?ck (PrepareCall example_claim (Inr devs) # OutsideWrites # Restarted (Inr s2) # es)
      (example_disk ?ck, Some example_state) z" if "node_run ?ck es (d2, Some s2) z" for es z
    by (rule node_run.more [OF steps(1)], rule node_run.more [OF steps(2)], rule node_run.more [OF steps(3)]) (simp add: that)
  have run2: "node_run ?ck [PrepareCall example_claim (Inr devs), OutsideWrites, Restarted (Inr s2)]
      (example_disk ?ck, Some example_state) (d2, Some s2)"
    by (rule run) (rule node_run.stop)
  have "\<forall>s\<in>set_option (Some example_state). state_ok s" by (simp add: example_state_ok)
  from node_run_outcome [OF run2 refl refl example_ledger claims_normal_empty this]
  obtain m2 where "disk_ledger ?ck d2 = Some m2" by blast
  then obtain d3 where "Unprepare (disk_services ?ck no_faults) s2 ''c1'' d2 = (d3, None)"
    using safe.Unprepare_succeeds [of ?ck d2 m2 s2 "''c1''"] by (metis prod.collapse)
  from node_step.unprepare [OF this] have run3: "node_run ?ck [UnprepareCall ''c1'' None] (d2, Some s2) (d3, Some s2)"
    by (auto intro: node_run.more node_run.stop)
  have "chips s2 = {''accel0'', ''accel1''}"
  proof (rule NewDeviceState_chips [OF r dsk.claim_services_axioms dev(1,2)])
    fix tm
    assume "DevDirectory tm = ''/dev''" "chips s2 = set (tpu_files (deviceRegex tm) accel_files)"
    then show ?thesis using accel_tpu_files by (simp add: deviceRegex_def accel_tm_def)
  qed
  with p run2 run [OF run3] show thesis by (rule that)
qed

lemma reachable_ledgers_are_ok_witness:
  "\<exists>d2 devs s2 m. node_run example_ck [PrepareCall example_claim (Inr devs), OutsideWrites, Restarted (Inr s2)]
       (example_disk example_ck, Some example_state) (d2, Some s2) \<and>
     chips s2 = {''accel0'', ''accel1''} \<and> state_ok s2 \<and> disk_ledger example_ck d2 = Some m \<and> recorded_by {example_state, s2} m"
proof (rule example_life)
  fix d2 devs s2
  let ?es = "[PrepareCall example_claim (Inr devs), OutsideWrites, Restarted (Inr s2)]"
  assume run: "node_run example_ck ?es (example_disk example_ck, Some example_state) (d2, Some s2)"
    and s2: "chips s2 = {''accel0'', ''accel1''}"
  have "insert example_state (restarted ?es) = {example_state, s2}" by (auto simp: restarted_def)
  from reachable_ledgers_are_ok [OF example_state_ok example_node_ok run, unfolded this]
  obtain m where "disk_ledger example_ck d2 = Some m" "recorded_by {example_state, s2} m" "state_ok s2" by fastforce
  with run s2 show ?thesis by blast
qed

lemma runs_refine_ledger_witness:
  "\<exists>d3 devs s2 m. node_run example_ck [PrepareCall example_claim (Inr devs), OutsideWrites, Restarted (Inr s2), UnprepareCall ''c1'' None]
       (example_disk example_ck, Some example_state) (d3, Some s2) \<and>
     whole_node {''0''} example_claim devs \<and> disk_ledger example_ck d3 = Some m \<and> told_by m ''c1'' = None"
proof (rule example_life)
  fix d3 devs s2
  let ?es = "[PrepareCall example_claim (Inr devs), OutsideWrites, Restarted (Inr s2), UnprepareCall ''c1'' None]"
  assume run: "node_run example_ck ?es (example_disk example_ck, Some example_state) (d3, Some s2)"
  have uid: "claimUID example_claim = ''c1''" by (simp add: example_claim_def)
  have "\<forall>s\<in>set_option (Some example_state). state_ok s" by (simp add: example_state_ok)
  from runs_refine_ledger [OF run this example_ledger claims_normal_empty] obtain m where m: "disk_ledger example_ck d3 = Some m"
    and abs: "ledger_run ?es (told_by fmempty, Some {''0''}) = Some (told_by m, Some (chips s2))"
    by (auto simp: example_chips)
  have "told_by fmempty ''c1'' = None" by (simp add: told_by_def)
  with abs have "whole_node {''0''} example_claim devs" "told_by m = (told_by fmempty)(''c1'' := None)"
    by (auto simp: uid split: if_splits)
  then have "whole_node {''0''} example_claim devs" "told_by m ''c1'' = None" by simp_all
  with run m show ?thesis by blast
qed

end
