(* ===== verification/Driver.thy ===== *)
theory Driver
  imports NodeRuns "HOL-Library.Multiset"
begin

text \<open>
  The batch handlers of driver.go, which the kubelet plugin helper calls with the claims of a
  pod: \<open>PrepareResourceClaims\<close> and \<open>UnprepareResourceClaims\<close> run the device state's handler for
  each claim in order and collect the answers by UID. Both are one loop, whose contract is proved
  once for any handler that keeps to its own claim (locale \<open>claim_handler\<close>).
\<close>

section \<open>The handlers\<close>

text \<open>\<open>kubeletplugin.PrepareResult\<close>\<close>

record PrepareResult =
  prErr :: "go_error option"
  prDevices :: "kubeletDevice list"

definition nodePrepareResource ::
  "'n services \<Rightarrow> DeviceState \<Rightarrow> ResourceClaim \<Rightarrow> 'n \<Rightarrow> 'n \<times> PrepareResult result" where
  "nodePrepareResource sv s claim n =
     (case Prepare sv s claim n of
        (n, Inl e) \<Rightarrow>
          if is_panic e then (n, Inl e)
          else (n, Inr \<lparr>prErr = Some (ErrText ''error preparing devices for claimID %v, claimName %s: %v''
                                       [claimUID claim, claimName claim] e), prDevices = []\<rparr>)
      | (n, Inr prepared) \<Rightarrow> (n, Inr \<lparr>prErr = None, prDevices = prepared\<rparr>))"

text \<open>\<open>kubeletplugin.NamespacedObject\<close>\<close>

record NamespacedObject =
  refUID :: string
  refNamespace :: string
  refName :: string

definition nodeUnprepareResource ::
  "'n services \<Rightarrow> DeviceState \<Rightarrow> NamespacedObject \<Rightarrow> 'n \<Rightarrow> 'n \<times> go_error option result" where
  "nodeUnprepareResource sv s claimRef n =
     (case Unprepare sv s (refUID claimRef) n of
        (n, Some e) \<Rightarrow>
          if is_panic e then (n, Inl e)
          else (n, Inr (Some (ErrText ''error unpreparing devices for claim %v: %v'' [refUID claimRef] e)))
      | (n, None) \<Rightarrow> (n, Inr None))"

text \<open>
  The loop over the claims of a call: every claim is handled, whatever became of those before it,
  and a later answer for the same UID replaces the earlier one. A panic ends the process.
\<close>

fun for_claims ::
  "('c \<Rightarrow> 'n \<Rightarrow> 'n \<times> 'r result) \<Rightarrow> ('c \<Rightarrow> string) \<Rightarrow> 'c list \<Rightarrow> (string, 'r) fmap \<Rightarrow> 'n \<Rightarrow> 'n \<times> (string, 'r) fmap result" where
  "for_claims handle uid [] results n = (n, Inr results)"
| "for_claims handle uid (c # cs) results n =
     (case handle c n of
        (n, Inl e) \<Rightarrow> (n, Inl e)
      | (n, Inr r) \<Rightarrow> for_claims handle uid cs (fmupd (uid c) r results) n)"

definition PrepareResourceClaims ::
  "'n services \<Rightarrow> DeviceState \<Rightarrow> ResourceClaim list \<Rightarrow> 'n \<Rightarrow> 'n \<times> (string, PrepareResult) fmap result" where
  "PrepareResourceClaims sv s claims n = for_claims (nodePrepareResource sv s) claimUID claims fmempty n"

definition UnprepareResourceClaims ::
  "'n services \<Rightarrow> DeviceState \<Rightarrow> NamespacedObject list \<Rightarrow> 'n \<Rightarrow> 'n \<times> (string, go_error option) fmap result" where
  "UnprepareResourceClaims sv s claimRefs n = for_claims (nodeUnprepareResource sv s) refUID claimRefs fmempty n"

section \<open>The loop, for any handler\<close>

text \<open>
  \<open>entry n u\<close> is what the node holds for the claim \<open>u\<close>, \<open>ok\<close> an invariant of the node, \<open>wf\<close> says
  which claims can occur, \<open>effect\<close> what a handled claim is answered and what becomes of its entry.
\<close>

locale claim_handler =
  fixes handle :: "'c \<Rightarrow> 'n \<Rightarrow> 'n \<times> 'r result" and uid :: "'c \<Rightarrow> string" and wf :: "'c \<Rightarrow> bool"
    and ok :: "'n \<Rightarrow> bool" and entry :: "'n \<Rightarrow> string \<Rightarrow> 'v"
    and effect :: "'c \<Rightarrow> 'v \<Rightarrow> 'r \<Rightarrow> 'v \<Rightarrow> bool"
  assumes handle_effect: "ok n \<Longrightarrow> wf c \<Longrightarrow> handle c n = (n', r) \<Longrightarrow>
      ok n' \<and> (\<exists>x. r = Inr x \<and> effect c (entry n (uid c)) x (entry n' (uid c)))"
    and handle_frame: "ok n \<Longrightarrow> wf c \<Longrightarrow> handle c n = (n', r) \<Longrightarrow> u \<noteq> uid c \<Longrightarrow> entry n' u = entry n u"

context claim_handler
begin

lemma for_claims_runs:
  assumes "ok n" and "distinct (map uid cs)" and "list_all wf cs"
  obtains n' rs where "for_claims handle uid cs acc n = (n', Inr rs)" and "ok n'"
    and "fmdom rs = fmdom acc |\<union>| fset_of_list (map uid cs)"
    and "\<And>c. c \<in> set cs \<Longrightarrow> \<exists>x. fmlookup rs (uid c) = Some x \<and> effect c (entry n (uid c)) x (entry n' (uid c))"
    and "\<And>u. u \<notin> uid ` set cs \<Longrightarrow> entry n' u = entry n u \<and> fmlookup rs u = fmlookup acc u"
  using assms
proof (induction cs arbitrary: n acc thesis)
  case Nil
  show ?case by (rule Nil.prems(1) [of n acc]) (use Nil.prems(2) in auto)
next
  case (Cons c cs)
  obtain n1 r where h: "handle c n = (n1, r)" by force
  obtain x where x: "r = Inr x" "effect c (entry n (uid c)) x (entry n1 (uid c))" and "ok n1"
    using handle_effect [OF Cons.prems(2) _ h] Cons.prems(4) by auto
  moreover have "distinct (map uid cs)" "list_all wf cs" using Cons.prems(3,4) by simp_all
  ultimately obtain n' rs where rest: "for_claims handle uid cs (fmupd (uid c) x acc) n1 = (n', Inr rs)" "ok n'"
      "fmdom rs = fmdom (fmupd (uid c) x acc) |\<union>| fset_of_list (map uid cs)"
      "\<And>c. c \<in> set cs \<Longrightarrow> \<exists>x. fmlookup rs (uid c) = Some x \<and> effect c (entry n1 (uid c)) x (entry n' (uid c))"
      "\<And>u. u \<notin> uid ` set cs \<Longrightarrow> entry n' u = entry n1 u \<and> fmlookup rs u = fmlookup (fmupd (uid c) x acc) u"
    using Cons.IH by blast
  have frame: "u \<noteq> uid c \<Longrightarrow> entry n1 u = entry n u" for u
    using handle_frame [OF Cons.prems(2) _ h] Cons.prems(4) by simp
  have new: "uid c \<notin> uid ` set cs" using Cons.prems(3) by simp
  show ?case
  proof (rule Cons.prems(1) [of n' rs])
    show "for_claims handle uid (c # cs) acc n = (n', Inr rs)" using h x rest(1) by simp
    show "fmdom rs = fmdom acc |\<union>| fset_of_list (map uid (c # cs))" using rest(3) by auto
    show "\<exists>x. fmlookup rs (uid d) = Some x \<and> effect d (entry n (uid d)) x (entry n' (uid d))" if "d \<in> set (c # cs)" for d
    proof (cases "d = c")
      case True
      with rest(5) [OF new] x(2) show ?thesis by simp
    next
      case False
      with that have d: "d \<in> set cs" by simp
      with new have "uid d \<noteq> uid c" by (metis imageI)
      with rest(4) [OF d] frame show ?thesis by simp
    qed
    show "entry n' u = entry n u \<and> fmlookup rs u = fmlookup acc u" if "u \<notin> uid ` set (c # cs)" for u
      using that rest(5) [of u] frame [of u] by auto
  qed (rule rest(2))
qed

lemma for_claims_outcome:
  assumes "ok n" and "distinct (map uid cs)" and "list_all wf cs"
  shows "\<exists>n' rs. for_claims handle uid cs fmempty n = (n', Inr rs) \<and> ok n' \<and> fmdom rs = fset_of_list (map uid cs) \<and>
    (\<forall>c\<in>set cs. \<exists>x. fmlookup rs (uid c) = Some x \<and> effect c (entry n (uid c)) x (entry n' (uid c))) \<and>
    (\<forall>u. u \<notin> uid ` set cs \<longrightarrow> entry n' u = entry n u)"
  by (rule for_claims_runs [OF assms, of fmempty]) (auto intro!: exI)

end

text \<open>A handler whose answer and effect depend only on the claim and its own entry.\<close>

locale pure_claim_handler = claim_handler handle uid wf ok entry effect
  for handle :: "'c \<Rightarrow> 'n \<Rightarrow> 'n \<times> 'r result" and uid and wf and ok and entry :: "'n \<Rightarrow> string \<Rightarrow> 'v" and effect +
  assumes effect_det: "effect c v x w \<Longrightarrow> effect c v x' w' \<Longrightarrow> x = x' \<and> w = w'"

context pure_claim_handler
begin

lemma for_claims_order:
  assumes "ok n" and "distinct (map uid cs)" and "list_all wf cs" and "mset cs' = mset cs"
  obtains n1 n2 rs where "for_claims handle uid cs fmempty n = (n1, Inr rs)"
    and "for_claims handle uid cs' fmempty n = (n2, Inr rs)" and "\<And>u. entry n1 u = entry n2 u"
proof -
  have set: "set cs' = set cs" using assms(4) by (rule mset_eq_setD)
  have prem': "distinct (map uid cs')" "list_all wf cs'"
    using assms(2-4) set by (metis mset_map mset_eq_imp_distinct_iff, simp add: list_all_iff)
  obtain n1 rs1 where 1: "for_claims handle uid cs fmempty n = (n1, Inr rs1)"
    "\<And>c. c \<in> set cs \<Longrightarrow> \<exists>x. fmlookup rs1 (uid c) = Some x \<and> effect c (entry n (uid c)) x (entry n1 (uid c))"
    "\<And>u. u \<notin> uid ` set cs \<Longrightarrow> entry n1 u = entry n u \<and> fmlookup rs1 u = fmlookup fmempty u"
    by (rule for_claims_runs [OF assms(1-3), of fmempty]) blast
  obtain n2 rs2 where 2: "for_claims handle uid cs' fmempty n = (n2, Inr rs2)"
    "\<And>c. c \<in> set cs' \<Longrightarrow> \<exists>x. fmlookup rs2 (uid c) = Some x \<and> effect c (entry n (uid c)) x (entry n2 (uid c))"
    "\<And>u. u \<notin> uid ` set cs' \<Longrightarrow> entry n2 u = entry n u \<and> fmlookup rs2 u = fmlookup fmempty u"
    by (rule for_claims_runs [OF assms(1) prem', of fmempty]) blast
  have eq: "fmlookup rs1 u = fmlookup rs2 u \<and> entry n1 u = entry n2 u" for u
  proof (cases "u \<in> uid ` set cs")
    case True
    then obtain c where "c \<in> set cs" "u = uid c" by blast
    with 1(2) [of c] 2(2) [of c] set effect_det show ?thesis by metis
  next
    case False
    with 1(3) 2(3) set show ?thesis by simp
  qed
  then have "rs1 = rs2" by (intro fmap_ext) blast
  with 1(1) 2(1) eq that show thesis by blast
qed

end

section \<open>What the node holds for a claim\<close>

text \<open>Its record in the checkpoint and, for a UID as the API server makes them, its CDI file.\<close>

definition claim_view :: "(json \<Rightarrow> 64 word) \<Rightarrow> disk \<Rightarrow> string \<Rightarrow> PreparedDevices \<times> Spec option" where
  "claim_view ck d u =
     (case disk_ledger ck d of None \<Rightarrow> None | Some m \<Rightarrow> claim_entry m u,
      if uid_ok u then disk_spec d (claimSpecName u) else None)"

text \<open>An answered claim is recorded with every chip and its file says so, or its record is as before.\<close>

definition prepare_effect ::
  "DeviceState \<Rightarrow> ResourceClaim \<Rightarrow> PreparedDevices \<times> Spec option \<Rightarrow> PrepareResult \<Rightarrow> PreparedDevices \<times> Spec option \<Rightarrow> bool" where
  "prepare_effect s c before x after =
     (if prErr x = None
      then \<exists>ds. prDevices x = map pdDevice ds \<and> record_ok s (claimUID c) ds \<and> fst before \<in> {None, Some ds} \<and>
             after = (Some ds, Some (claimSpec (claimUID c) (Some ds)))
      else prDevices x = [] \<and> fst after = fst before)"

definition unprepare_effect ::
  "NamespacedObject \<Rightarrow> PreparedDevices \<times> Spec option \<Rightarrow> go_error option \<Rightarrow> PreparedDevices \<times> Spec option \<Rightarrow> bool" where
  "unprepare_effect c before x after =
     (if x \<noteq> None then fst after = fst before
      else if fst before = None then after = before else after = (None, None))"

interpretation prep: claim_handler "nodePrepareResource (disk_services ck i) s" claimUID
  "\<lambda>c. uid_ok (claimUID c)" "\<lambda>d. state_ok s \<and> node_ok ck s d" "claim_view ck" "prepare_effect s" for ck i s
proof (unfold_locales, goal_cases)
  case (1 d c d' r)
  then obtain m where m: "disk_ledger ck d = Some m" "claims_normal m" "ledger_ok s m" by (auto simp: node_ok_def)
  obtain r0 where run: "Prepare (disk_services ck i) s c d = (d', r0)"
    using 1(3) by (auto simp: nodePrepareResource_def split: prod.splits sum.splits if_splits)
  have ok: "node_ok ck s d'" using 1(1) Prepare_keeps_node_ok [OF _ _ run] by blast
  have plain: "plain_name (claimSpecName (claimUID c))" using 1(2) by (rule plain_claim)
  show ?case
  proof (cases r0)
    case (Inl e)
    have "\<not> is_panic e"
      using dsk.Prepare_no_panic [OF m(1) _ run [unfolded Inl]] 1(1) by (auto simp: state_ok_def)
    then have "r = Inr \<lparr>prErr = Some (ErrText ''error preparing devices for claimID %v, claimName %s: %v''
        [claimUID c, claimName c] e), prDevices = []\<rparr>" (is "_ = Inr ?x")
      using 1(3) run Inl by (simp add: nodePrepareResource_def)
    moreover have "prepare_effect s c (claim_view ck d (claimUID c)) ?x (claim_view ck d' (claimUID c))"
      using dsk.Prepare_error [OF m(1) run [unfolded Inl]] m(1) by (simp add: prepare_effect_def claim_view_def)
    ultimately show ?thesis using 1(1) ok by blast
  next
    case (Inr devs)
    obtain ds where "devs = map pdDevice ds" "record_ok s (claimUID c) ds"
      "claim_entry m (claimUID c) = None \<or> claim_entry m (claimUID c) = Some ds"
      "disk_ledger ck d' = Some (fmupd (claimUID c) (Some ds) m)"
      "\<forall>f. plain_name (claimSpecName (claimUID c)) \<longrightarrow> plain_name f \<longrightarrow> disk_spec d' f =
         (if f = claimSpecName (claimUID c) then Some (claimSpec (claimUID c) (Some ds)) else disk_spec d f)"
      using 1(1) by (elim conjE, elim node_Prepare [OF _ m run [unfolded Inr]]) blast
    moreover from this have "r = Inr \<lparr>prErr = None, prDevices = map pdDevice ds\<rparr>" (is "_ = Inr ?x")
      using 1(3) run Inr by (simp add: nodePrepareResource_def)
    ultimately show ?thesis
      using 1(1,2) ok plain m(1) by (intro conjI exI [of _ ?x]) (auto simp: prepare_effect_def claim_view_def)
  qed
next
  case (2 d c d' r u)
  then obtain m where m: "disk_ledger ck d = Some m" "claims_normal m" "ledger_ok s m" by (auto simp: node_ok_def)
  obtain r0 where run: "Prepare (disk_services ck i) s c d = (d', r0)"
    using 2(3) by (auto simp: nodePrepareResource_def split: prod.splits sum.splits if_splits)
  have names: "claimSpecName u \<noteq> claimSpecName (claimUID c) \<and> plain_name (claimSpecName u) \<and> plain_name (claimSpecName (claimUID c))"
    if "uid_ok u" using claimSpecName_inject [OF that 2(2)] 2(4) plain_claim [OF that] plain_claim [OF 2(2)] by blast
  show ?case
  proof (cases r0)
    case (Inl e)
    with dsk.Prepare_error [OF m(1) run [unfolded Inl]] names m(1) show ?thesis by (auto simp: claim_view_def)
  next
    case (Inr devs)
    obtain ds where "disk_ledger ck d' = Some (fmupd (claimUID c) (Some ds) m)"
      "\<forall>f. plain_name (claimSpecName (claimUID c)) \<longrightarrow> plain_name f \<longrightarrow> disk_spec d' f =
         (if f = claimSpecName (claimUID c) then Some (claimSpec (claimUID c) (Some ds)) else disk_spec d f)"
      using 2(1) by (elim conjE, elim node_Prepare [OF _ m run [unfolded Inr]]) blast
    with names 2(4) m(1) show ?thesis by (auto simp: claim_view_def)
  qed
qed

interpretation unprep: claim_handler "nodeUnprepareResource (disk_services ck i) s" refUID
  "\<lambda>c. uid_ok (refUID c)" "\<lambda>d. state_ok s \<and> node_ok ck s d" "claim_view ck" unprepare_effect for ck i s
proof (unfold_locales, goal_cases)
  case (1 d c d' r)
  let ?u = "refUID c"
  from 1 obtain m where m: "disk_ledger ck d = Some m" "claims_normal m" "ledger_ok s m" by (auto simp: node_ok_def)
  obtain e where run: "Unprepare (disk_services ck i) s ?u d = (d', e)"
    using 1(3) by (auto simp: nodeUnprepareResource_def split: prod.splits option.splits if_splits)
  have ok: "node_ok ck s d'" using 1(1) Unprepare_keeps_node_ok [OF _ run] by blast
  show ?case
  proof (cases e)
    case (Some e')
    have "\<not> is_panic e'" using dsk.Unprepare_no_panic [OF m(1) run [unfolded Some]] .
    then have "r = Inr (Some (ErrText ''error unpreparing devices for claim %v: %v'' [?u] e'))" (is "_ = Inr ?x")
      using 1(3) run Some by (simp add: nodeUnprepareResource_def)
    moreover have "unprepare_effect c (claim_view ck d ?u) ?x (claim_view ck d' ?u)"
      using dsk.Unprepare_error [OF m(1) run [unfolded Some]] m(1) by (simp add: unprepare_effect_def claim_view_def)
    ultimately show ?thesis using 1(1) ok by blast
  next
    case None
    then have "r = Inr None" using 1(3) run by (simp add: nodeUnprepareResource_def)
    moreover have "unprepare_effect c (claim_view ck d ?u) None (claim_view ck d' ?u)"
    proof (cases "claim_entry m ?u = None")
      case True
      with dsk.Unprepare_unknown [OF m(1) True, of i s] run m(1) show ?thesis
        by (simp add: unprepare_effect_def claim_view_def)
    next
      case False
      with dsk.Unprepare_outcome [OF m(1,2) run [unfolded None]] m(1) plain_claim [OF 1(2)] 1(2) show ?thesis
        by (auto simp: unprepare_effect_def claim_view_def)
    qed
    ultimately show ?thesis using 1(1) ok by blast
  qed
next
  case (2 d c d' r u)
  from 2 obtain m where m: "disk_ledger ck d = Some m" "claims_normal m" "ledger_ok s m" by (auto simp: node_ok_def)
  obtain e where run: "Unprepare (disk_services ck i) s (refUID c) d = (d', e)"
    using 2(3) by (auto simp: nodeUnprepareResource_def split: prod.splits option.splits if_splits)
  have names: "claimSpecName u \<noteq> claimSpecName (refUID c) \<and> plain_name (claimSpecName u) \<and> plain_name (claimSpecName (refUID c))"
    if "uid_ok u" using claimSpecName_inject [OF that 2(2)] 2(4) plain_claim [OF that] plain_claim [OF 2(2)] by blast
  show ?case
  proof (cases "e = None \<and> claim_entry m (refUID c) \<noteq> None")
    case True
    with dsk.Unprepare_outcome [OF m(1,2), of i s "refUID c" d'] run names 2(4) m(1) show ?thesis
      by (auto simp: claim_view_def)
  next
    case False
    have "d' = d \<or> (disk_ledger ck d' = Some m \<and> (\<forall>f. plain_name (claimSpecName (refUID c)) \<longrightarrow> plain_name f \<longrightarrow>
        f \<noteq> claimSpecName (refUID c) \<longrightarrow> disk_spec d' f = disk_spec d f))"
      using False dsk.Unprepare_unknown [OF m(1), of "refUID c" i s] dsk.Unprepare_error [OF m(1), of i s "refUID c" d'] run
      by (cases e) auto
    with names m(1) show ?thesis by (auto simp: claim_view_def)
  qed
qed

section \<open>Batches\<close>

definition second_claim :: ResourceClaim where
  "second_claim = example_claim\<lparr>claimUID := ''c2''\<rparr>"

lemma example_batch:
  "distinct (map claimUID [example_claim, second_claim])"
  "list_all (\<lambda>c. uid_ok (claimUID c)) [example_claim, second_claim]"
  by code_simp+

text \<open>C15 (functional). Every claim of a \<open>PrepareResourceClaims\<close> call is answered, whichever calls fail: a claim answered
  without an error is recorded with every chip and its CDI file says so, a claim answered with an
  error keeps its record, and no other claim is touched. The call does not panic.\<close>

theorem PrepareResourceClaims_outcome:
  assumes "state_ok s" and "node_ok ck s d" and "distinct (map claimUID claims)"
    and "list_all (\<lambda>c. uid_ok (claimUID c)) claims"
  shows "\<exists>d' rs. PrepareResourceClaims (disk_services ck i) s claims d = (d', Inr rs) \<and> node_ok ck s d' \<and>
    fmdom rs = fset_of_list (map claimUID claims) \<and>
    (\<forall>c\<in>set claims. \<exists>x. fmlookup rs (claimUID c) = Some x \<and>
       prepare_effect s c (claim_view ck d (claimUID c)) x (claim_view ck d' (claimUID c))) \<and>
    (\<forall>u. u \<notin> claimUID ` set claims \<longrightarrow> claim_view ck d' u = claim_view ck d u)"
  using prep.for_claims_outcome [OF conjI [OF assms(1,2)] assms(3,4), of i] unfolding PrepareResourceClaims_def by blast

lemma PrepareResourceClaims_outcome_witness:
  "\<exists>d' rs. PrepareResourceClaims (disk_services example_ck (no_faults\<lparr>specWriteFails := \<lambda>f _. f = claimSpecName ''c1''\<rparr>))
       example_state [example_claim, second_claim] (example_disk example_ck) = (d', Inr rs) \<and>
     fmdom rs = {|''c1'', ''c2''|} \<and> claim_view example_ck d' ''c3'' = claim_view example_ck (example_disk example_ck) ''c3''"
proof -
  let ?i = "no_faults\<lparr>specWriteFails := \<lambda>f _. f = claimSpecName ''c1''\<rparr>"
  have uids: "map claimUID [example_claim, second_claim] = [''c1'', ''c2'']"
    by (simp add: example_claim_def second_claim_def)
  have other: "''c3'' \<notin> claimUID ` set [example_claim, second_claim]"
    by (simp add: example_claim_def second_claim_def)
  obtain d' rs where "PrepareResourceClaims (disk_services example_ck ?i) example_state [example_claim, second_claim]
        (example_disk example_ck) = (d', Inr rs)"
    and "fmdom rs = fset_of_list (map claimUID [example_claim, second_claim])"
    and "\<forall>u. u \<notin> claimUID ` set [example_claim, second_claim] \<longrightarrow>
        claim_view example_ck d' u = claim_view example_ck (example_disk example_ck) u"
    using PrepareResourceClaims_outcome [OF example_state_ok example_node_ok example_batch,
        where ck = example_ck and i = ?i] by blast
  with other show ?thesis unfolding uids by (intro exI [of _ d'] exI [of _ rs]) simp
qed

text \<open>C16 (functional). Likewise for \<open>UnprepareResourceClaims\<close>: a claim answered without an error has neither record nor
  file (a claim that had no record is left alone), one answered with an error keeps its record.\<close>

theorem UnprepareResourceClaims_outcome:
  assumes "state_ok s" and "node_ok ck s d" and "distinct (map refUID refs)"
    and "list_all (\<lambda>c. uid_ok (refUID c)) refs"
  shows "\<exists>d' rs. UnprepareResourceClaims (disk_services ck i) s refs d = (d', Inr rs) \<and> node_ok ck s d' \<and>
    fmdom rs = fset_of_list (map refUID refs) \<and>
    (\<forall>c\<in>set refs. \<exists>x. fmlookup rs (refUID c) = Some x \<and>
       unprepare_effect c (claim_view ck d (refUID c)) x (claim_view ck d' (refUID c))) \<and>
    (\<forall>u. u \<notin> refUID ` set refs \<longrightarrow> claim_view ck d' u = claim_view ck d u)"
  using unprep.for_claims_outcome [OF conjI [OF assms(1,2)] assms(3,4), of i] unfolding UnprepareResourceClaims_def by blast

lemma UnprepareResourceClaims_outcome_witness:
  "\<exists>d' rs. UnprepareResourceClaims (disk_services example_ck no_faults) example_state
       [\<lparr>refUID = ''c1'', refNamespace = ''default'', refName = ''claim''\<rparr>] (example_disk example_ck) = (d', Inr rs) \<and>
     fmdom rs = {|''c1''|}"
proof -
  have "list_all (\<lambda>c. uid_ok (refUID c)) [\<lparr>refUID = ''c1'', refNamespace = ''default'', refName = ''claim''\<rparr>]" by code_simp
  from UnprepareResourceClaims_outcome [OF example_state_ok example_node_ok _ this, of example_ck no_faults]
  show ?thesis by auto
qed

section \<open>Batches without faults\<close>

text \<open>What \<open>Prepare\<close> answers when no call of the system fails: a function of the claim and its record.\<close>

definition quiet_answer :: "DeviceState \<Rightarrow> ResourceClaim \<Rightarrow> PreparedDevices \<Rightarrow> PreparedDevice list result" where
  "quiet_answer s c recorded =
     (let uid = claimUID c; invalid = Errorf ''invalid CDI Spec: %w'' [] in
      case recorded of
        Some ds \<Rightarrow>
          if ValidateSpec (claimSpec uid (Some ds)) then Inr ds
          else Inl (ErrWrap ''unable to recreate CDI spec file for claim %v from checkpoint: %w'' [uid] invalid)
      | None \<Rightarrow> (case prepareDevices s c of
            Inl e \<Rightarrow> Inl (unless_panic (ErrText ''prepare failed for claim %v: %v'' [uid]) e)
          | Inr pds \<Rightarrow>
              if ValidateSpec (claimSpec uid pds) then Inr (case pds of Some ds \<Rightarrow> ds | None \<Rightarrow> [])
              else Inl (ErrText ''unable to create CDI spec file for claim: %v'' [] invalid)))"

lemma quiet_services:
  "svCreateCheckpoint (disk_services ck no_faults) k cp d =
     (d\<lparr>ckFiles := fmupd k (snd (MarshalCheckpoint ck cp)) (ckFiles d)\<rparr>, None)"
  "CreateClaimSpecFile (disk_services ck no_faults) u p d =
     (if ValidateSpec (claimSpec u p)
      then (d\<lparr>cdiFiles := fmupd (spec_file (claimSpecName u)) (claimSpec u p) (cdiFiles d)\<rparr>, None)
      else (d, Some (Errorf ''invalid CDI Spec: %w'' [])))"
  by (simp_all add: disk_service_defs CreateClaimSpecFile_def no_faults_def)

lemma quiet_Prepare:
  assumes "disk_ledger ck d = Some m"
  shows "snd (Prepare (disk_services ck no_faults) s c d) =
    map_sum id (map pdDevice) (quiet_answer s c (claim_entry m (claimUID c)))"
proof -
  obtain cp where "svGetCheckpoint (disk_services ck no_faults) DriverPluginCheckpointFile newCheckpoint d = Inr cp"
    using safe.get_total assms by blast
  note unf = dsk.Prepare_unfold [OF assms this]
  show ?thesis unfolding unf Let_def quiet_answer_def quiet_services
    by (auto simp: GetDevices_def split: option.splits sum.splits)
qed

definition quiet_effect ::
  "DeviceState \<Rightarrow> ResourceClaim \<Rightarrow> PreparedDevices \<times> Spec option \<Rightarrow> PrepareResult \<Rightarrow> PreparedDevices \<times> Spec option \<Rightarrow> bool" where
  "quiet_effect s c before x after =
     (case quiet_answer s c (fst before) of
        Inl e \<Rightarrow> x = \<lparr>prErr = Some (ErrText ''error preparing devices for claimID %v, claimName %s: %v''
                                 [claimUID c, claimName c] e), prDevices = []\<rparr> \<and> after = before
      | Inr ds \<Rightarrow> x = \<lparr>prErr = None, prDevices = map pdDevice ds\<rparr> \<and>
                  after = (Some ds, Some (claimSpec (claimUID c) (Some ds))))"

interpretation quiet_prep: pure_claim_handler "nodePrepareResource (disk_services ck no_faults) s" claimUID
  "\<lambda>c. uid_ok (claimUID c)" "\<lambda>d. state_ok s \<and> node_ok ck s d" "claim_view ck" "quiet_effect s" for ck s
proof (unfold_locales, goal_cases)
  case (1 d c d' r)
  then obtain m where m: "disk_ledger ck d = Some m" "claims_normal m" "ledger_ok s m" by (auto simp: node_ok_def)
  have ok: "state_ok s \<and> node_ok ck s d'" using prep.handle_effect [OF 1] by blast
  obtain r0 where run: "Prepare (disk_services ck no_faults) s c d = (d', r0)"
    using 1(3) by (auto simp: nodePrepareResource_def split: prod.splits sum.splits if_splits)
  have r0: "r0 = map_sum id (map pdDevice) (quiet_answer s c (claim_entry m (claimUID c)))"
    using quiet_Prepare [OF m(1), of s c] run by simp
  show ?case
  proof (cases r0)
    case (Inl e)
    then have e: "quiet_answer s c (claim_entry m (claimUID c)) = Inl e"
      using r0 by (cases "quiet_answer s c (claim_entry m (claimUID c))") auto
    have "\<not> is_panic e" using dsk.Prepare_no_panic [OF m(1) _ run [unfolded Inl]] 1(1) by (auto simp: state_ok_def)
    moreover have "d' = d" using safe.Prepare_error_unchanged [OF m(1) run [unfolded Inl]] .
    ultimately show ?thesis
      using 1(3) run Inl ok e m(1) by (auto simp: nodePrepareResource_def quiet_effect_def claim_view_def)
  next
    case (Inr devs)
    obtain ds where "devs = map pdDevice ds"
      "claim_entry m (claimUID c) = None \<or> claim_entry m (claimUID c) = Some ds"
      "claim_entry m (claimUID c) = None \<longrightarrow> prepareDevices s c = Inr (Some ds)"
      "disk_ledger ck d' = Some (fmupd (claimUID c) (Some ds) m)"
      "\<forall>f. plain_name (claimSpecName (claimUID c)) \<longrightarrow> plain_name f \<longrightarrow> disk_spec d' f =
         (if f = claimSpecName (claimUID c) then Some (claimSpec (claimUID c) (Some ds)) else disk_spec d f)"
      by (rule node_Prepare [OF conjunct1 [OF 1(1)] m run [unfolded Inr]], rule that)
    moreover from this have "quiet_answer s c (claim_entry m (claimUID c)) = Inr ds"
      using r0 Inr by (auto simp: quiet_answer_def Let_def split: if_splits option.splits sum.splits)
    ultimately show ?thesis
      using 1(2,3) run Inr ok m(1) plain_claim [OF 1(2)]
      by (auto simp: nodePrepareResource_def quiet_effect_def claim_view_def)
  qed
next
  case (2 d c d' r u)
  then show ?case by (rule prep.handle_frame)
next
  case (3 c v x w x' w')
  then show ?case by (auto simp: quiet_effect_def split: sum.splits)
qed

text \<open>C17 (equivalence). Without faults the order of the claims of a call does not matter: the answers are the same, and so
  are the records and the files of all claims.\<close>

theorem PrepareResourceClaims_order_irrelevant:
  assumes "state_ok s" and "node_ok ck s d" and "distinct (map claimUID claims)"
    and "list_all (\<lambda>c. uid_ok (claimUID c)) claims" and "mset claims' = mset claims"
  shows "\<exists>d1 d2 rs. PrepareResourceClaims (disk_services ck no_faults) s claims d = (d1, Inr rs) \<and>
    PrepareResourceClaims (disk_services ck no_faults) s claims' d = (d2, Inr rs) \<and>
    (\<forall>u. claim_view ck d1 u = claim_view ck d2 u)"
  unfolding PrepareResourceClaims_def
  by (rule quiet_prep.for_claims_order [OF conjI [OF assms(1,2)] assms(3-5)]) blast

lemma PrepareResourceClaims_order_irrelevant_witness:
  "\<exists>d1 d2 rs. PrepareResourceClaims (disk_services example_ck no_faults) example_state [example_claim, second_claim]
        (example_disk example_ck) = (d1, Inr rs) \<and>
     PrepareResourceClaims (disk_services example_ck no_faults) example_state [second_claim, example_claim]
        (example_disk example_ck) = (d2, Inr rs) \<and> claim_view example_ck d1 ''c2'' = claim_view example_ck d2 ''c2''"
  using PrepareResourceClaims_order_irrelevant [OF example_state_ok example_node_ok example_batch,
      where ck = example_ck and claims' = "[second_claim, example_claim]"] by auto

text \<open>C18 (roundtrip). When every claim of a \<open>PrepareResourceClaims\<close> call and then every claim of an
  \<open>UnprepareResourceClaims\<close> call on the same UIDs, in any order, is answered without an error, the
  records and the files of all claims are as before, whatever failed on the way.\<close>

theorem batch_roundtrip:
  assumes "state_ok s" and "node_ok ck s d" and "distinct (map claimUID claims)"
    and "list_all (\<lambda>c. uid_ok (claimUID c)) claims" and "mset (map refUID refs) = mset (map claimUID claims)"
    and "list_all (\<lambda>c. claim_view ck d (claimUID c) = (None, None)) claims"
    and "PrepareResourceClaims (disk_services ck i) s claims d = (d1, Inr rs)" and "fmpred (\<lambda>u x. prErr x = None) rs"
    and "UnprepareResourceClaims (disk_services ck j) s refs d1 = (d2, Inr es)" and "fmpred (\<lambda>u x. x = None) es"
  shows "claim_view ck d2 u = claim_view ck d u"
proof -
  have uids: "refUID ` set refs = claimUID ` set claims" using mset_eq_setD [OF assms(5)] by simp
  have refs: "distinct (map refUID refs)" using assms(3,5) by (metis mset_eq_imp_distinct_iff)
  have wf: "list_all (\<lambda>c. uid_ok (refUID c)) refs"
    using assms(4) uids unfolding list_all_iff by (metis imageE imageI)
  from prep.for_claims_outcome [OF conjI [OF assms(1,2)] assms(3,4), of i] assms(7)
  have ok: "node_ok ck s d1"
    and p: "\<And>c. c \<in> set claims \<Longrightarrow> \<exists>x. fmlookup rs (claimUID c) = Some x \<and>
        prepare_effect s c (claim_view ck d (claimUID c)) x (claim_view ck d1 (claimUID c))"
    and frame1: "\<And>u. u \<notin> claimUID ` set claims \<Longrightarrow> claim_view ck d1 u = claim_view ck d u"
    unfolding PrepareResourceClaims_def by auto
  from unprep.for_claims_outcome [OF conjI [OF assms(1) ok] refs wf, of j] assms(9)
  have q: "\<And>c. c \<in> set refs \<Longrightarrow> \<exists>x. fmlookup es (refUID c) = Some x \<and>
        unprepare_effect c (claim_view ck d1 (refUID c)) x (claim_view ck d2 (refUID c))"
    and frame2: "\<And>u. u \<notin> refUID ` set refs \<Longrightarrow> claim_view ck d2 u = claim_view ck d1 u"
    unfolding UnprepareResourceClaims_def by auto
  show ?thesis
  proof (cases "u \<in> claimUID ` set claims")
    case True
    then obtain c r where c: "c \<in> set claims" "u = claimUID c" and r: "r \<in> set refs" "u = refUID r" using uids by force
    from p [OF c(1)] obtain x where x: "fmlookup rs u = Some x"
      "prepare_effect s c (claim_view ck d u) x (claim_view ck d1 u)" unfolding c(2) by blast
    from q [OF r(1)] obtain y where y: "fmlookup es u = Some y"
      "unprepare_effect r (claim_view ck d1 u) y (claim_view ck d2 u)" unfolding r(2) by blast
    have "fst (claim_view ck d1 u) \<noteq> None"
      using x(2) fmpredD [OF assms(8) x(1)] by (auto simp: prepare_effect_def)
    moreover have "unprepare_effect r (claim_view ck d1 u) None (claim_view ck d2 u)"
      using y(2) fmpredD [OF assms(10) y(1)] by simp
    ultimately show ?thesis using assms(6) c by (simp add: unprepare_effect_def list_all_iff)
  next
    case False
    with frame1 frame2 uids show ?thesis by simp
  qed
qed

lemma batch_roundtrip_witness:
  "\<exists>d1 rs d2 es. PrepareResourceClaims (disk_services example_ck no_faults) example_state [example_claim]
        (example_disk example_ck) = (d1, Inr rs) \<and>
     UnprepareResourceClaims (disk_services example_ck no_faults) example_state
       [\<lparr>refUID = ''c1'', refNamespace = ''default'', refName = ''claim''\<rparr>] d1 = (d2, Inr es) \<and>
     claim_view example_ck d2 ''c1'' = claim_view example_ck (example_disk example_ck) ''c1''"
proof (rule example_recorded [of example_ck])
  fix d1 ds
  let ?r = "\<lparr>refUID = ''c1'', refNamespace = ''default'', refName = ''claim''\<rparr>"
  assume run: "Prepare (disk_services example_ck no_faults) example_state example_claim (example_disk example_ck) = (d1, Inr (map pdDevice ds))"
    and led: "disk_ledger example_ck d1 = Some (fmupd ''c1'' (Some ds) fmempty)"
  obtain d2 where u: "Unprepare (disk_services example_ck no_faults) example_state ''c1'' d1 = (d2, None)"
    using safe.Unprepare_succeeds [OF led, of example_state "''c1''"]
    by (cases "Unprepare (disk_services example_ck no_faults) example_state ''c1'' d1") simp
  have uid: "claimUID example_claim = ''c1''" by (simp add: example_claim_def)
  have p: "PrepareResourceClaims (disk_services example_ck no_faults) example_state [example_claim]
      (example_disk example_ck) = (d1, Inr (fmupd ''c1'' \<lparr>prErr = None, prDevices = map pdDevice ds\<rparr> fmempty))"
    using run uid by (simp add: PrepareResourceClaims_def nodePrepareResource_def)
  have q: "UnprepareResourceClaims (disk_services example_ck no_faults) example_state [?r] d1 =
      (d2, Inr (fmupd ''c1'' None fmempty))"
    using u by (simp add: UnprepareResourceClaims_def nodeUnprepareResource_def)
  have "list_all (\<lambda>c. uid_ok (claimUID c)) [example_claim]" using example_batch(2) by simp
  moreover have "list_all (\<lambda>c. claim_view example_ck (example_disk example_ck) (claimUID c) = (None, None)) [example_claim]"
    using example_synced [of example_ck] example_uid(2) by (simp add: claim_view_def example_ledger synced_def)
  ultimately have "claim_view example_ck d2 ''c1'' = claim_view example_ck (example_disk example_ck) ''c1''"
    by (intro batch_roundtrip [OF example_state_ok example_node_ok _ _ _ _ p _ q]) (simp_all add: uid fmpred_iff)
  with p q show ?thesis by blast
qed

end
