(* ===== verification/Health.thy ===== *)
theory Health
  imports Driver
begin

text \<open>
  The health of the chips: the checker of health_check.go, the broadcaster and the reports of
  device_health_status.go, and the resource slices driver.go publishes. The operations are
  here as functions; theory \<open>HealthRuns\<close> runs them as goroutines.

  The order in which Go ranges over a map is an argument: any enumeration of the keys. So are
  what \<open>os.Stat\<close> answers for a path, and the clock.
\<close>

section \<open>The checker\<close>

record TPUHealthChecker =
  hcDevices :: AllocatableDevices
  hcDevDirectory :: string
  hcTpuGen :: string

text \<open>The devices are copied: what the checker does to its own does not touch those of the state.\<close>

definition NewTPUHealthChecker :: "AllocatableDevices \<Rightarrow> string \<Rightarrow> string \<Rightarrow> TPUHealthChecker" where
  "NewTPUHealthChecker devs devDir gen =
     \<lparr>hcDevices = devs, hcDevDirectory = devDir, hcTpuGen = gen\<rparr>"

fun exist_all :: "(string \<Rightarrow> stat_result) \<Rightarrow> string \<Rightarrow> string list \<Rightarrow> bool" where
  "exist_all stat devDir [] = True"
| "exist_all stat devDir (devId # devIds) =
     (case stat (path_join [devDir, devId]) of
        StatOk dir \<Rightarrow> exist_all stat devDir devIds
      | StatNotExist \<Rightarrow> False
      | StatError e \<Rightarrow> False)"

text \<open>\<open>deviceExists\<close>, whose error is always \<open>nil\<close>.\<close>

definition deviceExists :: "(string \<Rightarrow> stat_result) \<Rightarrow> TPUHealthChecker \<Rightarrow> string \<Rightarrow> bool" where
  "deviceExists stat hc deviceId = exist_all stat (hcDevDirectory hc) [deviceId]"

text \<open>
  The body of the loop over the devices in \<open>monitorDevDir\<close>, up to the signal \<open>UpdateHealth\<close> sends
  on the publish channel: the checker, the device state, and whether there is a signal to send.
  An error of \<open>UpdateHealth\<close> is only logged.
\<close>

definition record_health ::
  "TPUHealthChecker \<Rightarrow> DeviceState \<Rightarrow> string \<Rightarrow> AllocatableDevice \<Rightarrow> bool \<Rightarrow> TPUHealthChecker \<times> DeviceState \<times> bool" where
  "record_health hc s devId d h =
     (let hc = hc\<lparr>hcDevices := fmupd devId (d\<lparr>allocatable := h\<rparr>) (hcDevices hc)\<rparr> in
      case UpdateHealth s devId h of
        Inl e \<Rightarrow> (hc, s, False)
      | Inr (s, sent) \<Rightarrow> (hc, s, sent))"

definition check_device ::
  "(string \<Rightarrow> stat_result) \<Rightarrow> TPUHealthChecker \<Rightarrow> DeviceState \<Rightarrow> string \<Rightarrow> TPUHealthChecker \<times> DeviceState \<times> bool" where
  "check_device stat hc s devId =
     (case fmlookup (hcDevices hc) devId of
        None \<Rightarrow> (hc, s, False)
      | Some d \<Rightarrow>
          let val = deviceExists stat hc devId in
          if val \<and> \<not> allocatable d then record_health hc s devId d True
          else if \<not> val \<and> allocatable d then record_health hc s devId d False
          else (hc, s, False))"

text \<open>A whole pass over the devices, with the devices signals were sent for.\<close>

fun monitor_pass ::
  "(string \<Rightarrow> stat_result) \<Rightarrow> TPUHealthChecker \<Rightarrow> DeviceState \<Rightarrow> string list \<Rightarrow> TPUHealthChecker \<times> DeviceState \<times> string list" where
  "monitor_pass stat hc s [] = (hc, s, [])"
| "monitor_pass stat hc s (devId # devIds) =
     (case check_device stat hc s devId of (hc, s, sent) \<Rightarrow>
      case monitor_pass stat hc s devIds of (hc, s, signals) \<Rightarrow> (hc, s, if sent then devId # signals else signals))"

section \<open>The broadcaster\<close>

text \<open>
  Channels are numbers; which of the channels of capacity one hold a notification is the function
  \<open>full\<close>. The lock makes each operation one step.
\<close>

record healthBroadcaster =
  hbPoolName :: string
  hbSubscribers :: "nat list"

definition newHealthBroadcaster :: "string \<Rightarrow> healthBroadcaster" where
  "newHealthBroadcaster poolName = \<lparr>hbPoolName = poolName, hbSubscribers = []\<rparr>"

text \<open>A send that would block is skipped.\<close>

fun notify_all :: "nat list \<Rightarrow> (nat \<Rightarrow> bool) \<Rightarrow> nat \<Rightarrow> bool" where
  "notify_all [] full = full"
| "notify_all (c # cs) full = notify_all cs (if full c then full else full(c := True))"

definition broadcast :: "healthBroadcaster \<Rightarrow> (nat \<Rightarrow> bool) \<Rightarrow> nat \<Rightarrow> bool" where
  "broadcast b full = notify_all (hbSubscribers b) full"

definition subscribe :: "healthBroadcaster \<Rightarrow> nat \<Rightarrow> healthBroadcaster" where
  "subscribe b subscriber = b\<lparr>hbSubscribers := hbSubscribers b @ [subscriber]\<rparr>"

fun delete_first :: "nat \<Rightarrow> nat list \<Rightarrow> nat list" where
  "delete_first subscriber [] = []"
| "delete_first subscriber (s # ss) = (if s = subscriber then ss else s # delete_first subscriber ss)"

definition unsubscribe :: "healthBroadcaster \<Rightarrow> nat \<Rightarrow> healthBroadcaster" where
  "unsubscribe b subscriber = b\<lparr>hbSubscribers := delete_first subscriber (hbSubscribers b)\<rparr>"

section \<open>Reports and resource slices\<close>

datatype HealthStatus = HealthStatusHealthy | HealthStatusUnhealthy

record DeviceHealth =
  dhPoolName :: string
  dhDeviceName :: string
  dhHealth :: HealthStatus
  dhLastUpdated :: int
  dhMessage :: string

type_synonym DeviceHealthReport = "DeviceHealth list"

text \<open>Ranging over the devices of the state in some order.\<close>

definition range_over :: "(string, 'd) fmap \<Rightarrow> string list \<Rightarrow> (string \<times> 'd) list" where
  "range_over m order = concat (map (\<lambda>k. case fmlookup m k of None \<Rightarrow> [] | Some d \<Rightarrow> [(k, d)]) order)"

definition map_order :: "(string, 'd) fmap \<Rightarrow> string list \<Rightarrow> bool" where
  "map_order m order \<longleftrightarrow> distinct order \<and> fset_of_list order = fmdom m"

definition buildReport :: "healthBroadcaster \<Rightarrow> (string \<Rightarrow> int) \<Rightarrow> string list \<Rightarrow> DeviceState \<Rightarrow> DeviceHealthReport" where
  "buildReport b now order s =
     map (\<lambda>(name, dev).
        \<lparr>dhPoolName = hbPoolName b, dhDeviceName = name,
         dhHealth = (if \<not> allocatable dev then HealthStatusUnhealthy else HealthStatusHealthy),
         dhLastUpdated = now name,
         dhMessage = (if \<not> allocatable dev then ''TPU device file is missing'' else ''TPU device file is present'')\<rparr>)
       (range_over (dsAllocatable s) order)"

text \<open>The slice \<open>GatherStateAndPublish\<close> builds, and the one pool it hands to \<open>PublishResources\<close>.\<close>

definition gather_slice :: "consumableSharesPolicy \<Rightarrow> string list \<Rightarrow> DeviceState \<Rightarrow> Device list" where
  "gather_slice sharesPolicy order s =
     map (\<lambda>(k, device). applyConsumableShares (GetDevice device) sharesPolicy)
       (filter (\<lambda>(k, device). allocatable device) (range_over (dsAllocatable s) order))"

definition GatherStateAndPublish ::
  "((string, Device list list) fmap \<Rightarrow> 'n \<Rightarrow> 'n \<times> go_error option) \<Rightarrow> string \<Rightarrow> consumableSharesPolicy \<Rightarrow> string list \<Rightarrow>
   DeviceState \<Rightarrow> 'n \<Rightarrow> 'n \<times> go_error option" where
  "GatherStateAndPublish publishResources pool sharesPolicy order s n =
     publishResources (fmupd pool [gather_slice sharesPolicy order s] fmempty) n"

section \<open>Lemmas\<close>

definition health_view :: "DeviceState \<Rightarrow> (string, bool) fmap" where
  "health_view s = fmmap allocatable (dsAllocatable s)"

text \<open>Everything of a device state but the health of its devices.\<close>

definition same_devices :: "DeviceState \<Rightarrow> DeviceState \<Rightarrow> bool" where
  "same_devices s s' \<longleftrightarrow>
     fmmap (\<lambda>d. d\<lparr>allocatable := False\<rparr>) (dsAllocatable s') = fmmap (\<lambda>d. d\<lparr>allocatable := False\<rparr>) (dsAllocatable s) \<and>
     dsTm s' = dsTm s \<and> dsSharesPolicy s' = dsSharesPolicy s \<and> dsTpuLogDir s' = dsTpuLogDir s"

lemma same_devices_refl [simp]: "same_devices s s"
  by (simp add: same_devices_def)

lemma same_devices_trans: "same_devices s s' \<Longrightarrow> same_devices s' s'' \<Longrightarrow> same_devices s s''"
  by (simp add: same_devices_def)

lemma fmdom_health_view [simp]: "fmdom (health_view s) = fmdom (dsAllocatable s)"
  by (simp add: health_view_def)

lemma UpdateHealth_view:
  assumes "k |\<in>| fmdom (dsAllocatable s)"
  obtains s' where "UpdateHealth s k h = Inr (s', fmlookup (health_view s) k \<noteq> Some h)"
    and "same_devices s s'" and "health_view s' = fmupd k h (health_view s)"
    and "\<And>d. fmlookup (dsAllocatable s) k = Some d \<Longrightarrow> dsAllocatable s' = fmupd k (d\<lparr>allocatable := h\<rparr>) (dsAllocatable s)"
proof -
  obtain d where d: "fmlookup (dsAllocatable s) k = Some d" using assms by (auto simp: fmlookup_dom_iff)
  let ?s = "s\<lparr>dsAllocatable := fmupd k (d\<lparr>allocatable := h\<rparr>) (dsAllocatable s)\<rparr>"
  have same: "fmupd k d (dsAllocatable s) = dsAllocatable s" using d by (rule fmupd_same)
  have "?s = s" if "allocatable d = h"
  proof -
    have "d\<lparr>allocatable := h\<rparr> = d" using that by (cases d) simp
    with same show ?thesis by simp
  qed
  then have "UpdateHealth s k h = Inr (?s, fmlookup (health_view s) k \<noteq> Some h)"
    using d by (auto simp: UpdateHealth_def health_view_def)
  moreover have "same_devices s ?s" using d by (auto simp: same_devices_def intro!: fmap_ext)
  moreover have "health_view ?s = fmupd k h (health_view s)" by (auto simp: health_view_def intro!: fmap_ext)
  ultimately show thesis using d that [of ?s] by simp
qed

text \<open>The checker's copy and the devices of the state agree, so \<open>UpdateHealth\<close> knows the device.\<close>

lemma check_device_outcome:
  assumes "hcDevices hc = dsAllocatable s" and "devId |\<in>| fmdom (dsAllocatable s)"
  obtains hc' s' where "check_device stat hc s devId = (hc', s', fmlookup (health_view s) devId \<noteq> Some (deviceExists stat hc devId))"
    and "hcDevices hc' = dsAllocatable s'" and "hcDevDirectory hc' = hcDevDirectory hc"
    and "same_devices s s'" and "health_view s' = fmupd devId (deviceExists stat hc devId) (health_view s)"
proof -
  obtain d where d: "fmlookup (dsAllocatable s) devId = Some d" using assms(2) by (auto simp: fmlookup_dom_iff)
  obtain s' where s': "UpdateHealth s devId (deviceExists stat hc devId) =
      Inr (s', fmlookup (health_view s) devId \<noteq> Some (deviceExists stat hc devId))" "same_devices s s'"
    "health_view s' = fmupd devId (deviceExists stat hc devId) (health_view s)"
    "dsAllocatable s' = fmupd devId (d\<lparr>allocatable := deviceExists stat hc devId\<rparr>) (dsAllocatable s)"
    using UpdateHealth_view [OF assms(2)] d by metis
  have v: "fmlookup (health_view s) devId = Some (allocatable d)" using d by (simp add: health_view_def)
  show thesis
  proof (cases "allocatable d = deviceExists stat hc devId")
    case True
    then have "health_view s = fmupd devId (deviceExists stat hc devId) (health_view s)"
      using fmupd_same [OF v] by simp
    then show thesis using True assms(1) d v
      by (intro that [of hc s]) (auto simp: check_device_def)
  next
    case False
    then show thesis using s' assms(1) d v
      by (intro that [of "hc\<lparr>hcDevices := fmupd devId (d\<lparr>allocatable := deviceExists stat hc devId\<rparr>) (hcDevices hc)\<rparr>" s'])
        (auto simp: check_device_def record_health_def Let_def)
  qed
qed

lemma deviceExists_cong: "hcDevDirectory hc' = hcDevDirectory hc \<Longrightarrow> deviceExists stat hc' = deviceExists stat hc"
  by (simp add: deviceExists_def fun_eq_iff)

lemma same_devices_dom: "same_devices s s' \<Longrightarrow> fmdom (dsAllocatable s') = fmdom (dsAllocatable s)"
  unfolding same_devices_def by (metis fmdom_map)

lemma monitor_pass_loop:
  assumes "hcDevices hc = dsAllocatable s" and "distinct devIds" and "fset_of_list devIds |\<subseteq>| fmdom (dsAllocatable s)"
  obtains hc' s' where "monitor_pass stat hc s devIds =
      (hc', s', filter (\<lambda>k. fmlookup (health_view s) k \<noteq> Some (deviceExists stat hc k)) devIds)"
    and "hcDevices hc' = dsAllocatable s'" and "hcDevDirectory hc' = hcDevDirectory hc" and "same_devices s s'"
    and "\<And>k. fmlookup (health_view s') k =
           (if k \<in> set devIds then Some (deviceExists stat hc k) else fmlookup (health_view s) k)"
  using assms
proof (induction devIds arbitrary: hc s thesis)
  case Nil
  show ?case by (rule Nil.prems(1) [of hc s]) (use Nil.prems in auto)
next
  case (Cons devId devIds)
  obtain hc1 s1 where c: "check_device stat hc s devId = (hc1, s1, fmlookup (health_view s) devId \<noteq> Some (deviceExists stat hc devId))"
    "hcDevices hc1 = dsAllocatable s1" "hcDevDirectory hc1 = hcDevDirectory hc"
    "same_devices s s1" "health_view s1 = fmupd devId (deviceExists stat hc devId) (health_view s)"
    by (rule check_device_outcome [where stat = stat, OF Cons.prems(2)]) (use Cons.prems(4) in auto)
  have sub: "distinct devIds" "fset_of_list devIds |\<subseteq>| fmdom (dsAllocatable s1)"
    using Cons.prems(3,4) same_devices_dom [OF c(4)] by auto
  obtain hc' s' where r: "monitor_pass stat hc1 s1 devIds =
      (hc', s', filter (\<lambda>k. fmlookup (health_view s1) k \<noteq> Some (deviceExists stat hc1 k)) devIds)"
    "hcDevices hc' = dsAllocatable s'" "hcDevDirectory hc' = hcDevDirectory hc1" "same_devices s1 s'"
    "\<And>k. fmlookup (health_view s') k =
       (if k \<in> set devIds then Some (deviceExists stat hc1 k) else fmlookup (health_view s1) k)"
    by (rule Cons.IH [OF _ c(2) sub], rule that)
  note ex = deviceExists_cong [OF c(3), of stat]
  have same: "filter (\<lambda>k. fmlookup (health_view s1) k \<noteq> Some (deviceExists stat hc k)) devIds =
      filter (\<lambda>k. fmlookup (health_view s) k \<noteq> Some (deviceExists stat hc k)) devIds"
    using Cons.prems(3) c(5) by (intro filter_cong) auto
  show ?case
  proof (rule Cons.prems(1) [of hc' s'])
    show "monitor_pass stat hc s (devId # devIds) =
        (hc', s', filter (\<lambda>k. fmlookup (health_view s) k \<noteq> Some (deviceExists stat hc k)) (devId # devIds))"
      unfolding monitor_pass.simps c(1) prod.case r(1) by (simp add: ex same)
    show "fmlookup (health_view s') k =
        (if k \<in> set (devId # devIds) then Some (deviceExists stat hc k) else fmlookup (health_view s) k)" for k
      by (simp add: r(5) c(5) ex del: fun_upd_apply)
    show "hcDevDirectory hc' = hcDevDirectory hc" using r(3) c(3) by simp
  qed (rule r(2), rule same_devices_trans [OF c(4) r(4)])
qed

lemma deviceExists_iff:
  "deviceExists stat hc k \<longleftrightarrow> (\<exists>dir. stat (path_join [hcDevDirectory hc, k]) = StatOk dir)"
  by (simp add: deviceExists_def split: stat_result.splits)

text \<open>C23 (functional). A pass of the checker over all devices, in whatever order the map is ranged over, leaves in the
  device state exactly what the device directory shows: a chip is healthy if and only if \<open>os.Stat\<close> of its
  file in the checker's directory succeeds, and any error of it makes the chip unhealthy. It
  signals each chip whose health changed, once, changes nothing else, and keeps the checker's
  copy in step.\<close>

theorem monitor_pass_records_presence:
  assumes "hcDevices hc = dsAllocatable s" and "map_order (dsAllocatable s) order"
  shows "\<exists>hc' s' signals. monitor_pass stat hc s order = (hc', s', signals) \<and>
    hcDevices hc' = dsAllocatable s' \<and> same_devices s s' \<and> distinct signals \<and>
    (\<forall>k\<in>chips s. fmlookup (health_view s') k =
       Some (\<exists>dir. stat (path_join [hcDevDirectory hc, k]) = StatOk dir)) \<and>
    set signals = {k \<in> chips s. fmlookup (health_view s) k \<noteq> fmlookup (health_view s') k}"
proof -
  have devIds: "distinct order" "fset_of_list order |\<subseteq>| fmdom (dsAllocatable s)" "set order = chips s"
    using assms(2) by (auto simp: map_order_def chips_def simp flip: fset_of_list.rep_eq)
  show ?thesis
    by (rule monitor_pass_loop [OF assms(1) devIds(1,2), of stat])
      (use devIds in \<open>auto simp flip: deviceExists_iff\<close>)
qed

lemma monitor_pass_records_presence_witness:
  "\<exists>hc' s'. monitor_pass (\<lambda>f. if f = ''/dev/vfio/0'' then StatNotExist else StatOk False)
      (NewTPUHealthChecker (dsAllocatable example_state) ''/dev/vfio'' ''v6e'') example_state [''0''] = (hc', s', [''0'']) \<and>
    fmlookup (health_view s') ''0'' = Some False"
proof -
  let ?hc = "NewTPUHealthChecker (dsAllocatable example_state) ''/dev/vfio'' ''v6e''"
  let ?stat = "\<lambda>f. if f = ''/dev/vfio/0'' then StatNotExist else StatOk False"
  have synced: "hcDevices ?hc = dsAllocatable example_state" by (simp add: NewTPUHealthChecker_def)
  have order: "map_order (dsAllocatable example_state) [''0'']" by (simp add: map_order_def example_state_def)
  have "path_join [''/dev/vfio'', ''0''] = ''/dev/vfio/0''" by code_simp
  then have gone: "(\<exists>dir. ?stat (path_join [hcDevDirectory ?hc, ''0'']) = StatOk dir) \<longleftrightarrow> False"
    by (simp add: NewTPUHealthChecker_def)
  have healthy: "fmlookup (health_view example_state) ''0'' = Some True"
    by (simp add: health_view_def example_state_def example_device_def)
  obtain hc' s' signals where run: "monitor_pass ?stat ?hc example_state [''0''] = (hc', s', signals)"
    and d: "distinct signals"
    and view: "\<forall>k\<in>chips example_state. fmlookup (health_view s') k =
      Some (\<exists>dir. ?stat (path_join [hcDevDirectory ?hc, k]) = StatOk dir)"
    and set: "set signals = {k \<in> chips example_state. fmlookup (health_view example_state) k \<noteq> fmlookup (health_view s') k}"
    using monitor_pass_records_presence [OF synced order, of ?stat] by blast
  have new: "fmlookup (health_view s') ''0'' = Some False" using view gone unfolding example_chips by simp
  have "set signals = {''0''}" unfolding set example_chips using new healthy by auto
  with d have "signals = [''0'']" by (cases signals; cases "tl signals") auto
  with run new show ?thesis by blast
qed

end
