(* ===== verification/HealthRuns.thy ===== *)
theory HealthRuns
  imports Health
begin

text \<open>
  The goroutines of a running driver: the checker's loop (\<open>monitorDevDir\<close>), the publisher
  (\<open>NewDriver\<close>'s first \<open>GatherStateAndPublish\<close> and then \<open>republishSlice\<close>) and one watcher per
  kubelet subscription (\<open>WatchHealthStatus\<close>). Each is a step relation over the shared state, with
  a program point of its own; a run interleaves them in any order. What a mutex or a channel
  makes atomic is one step; a send that blocks is a step that is not enabled.
\<close>

section \<open>Goroutines\<close>

text \<open>
  \<open>Probing\<close> holds the devices the pass has not looked at yet, \<open>Signalling\<close> those left after the one
  whose signal is being sent on the publish channel.
\<close>

datatype monitor_pc = Ticking | Probing "string list" | Signalling "string list" | Notifying | Stopped

datatype publisher_pc = Gathering | Publishing "Device list" | Listening

text \<open>\<open>Offering\<close>: blocked on sending a report that is already built.\<close>

datatype watcher_pc = Absent | Reporting | Offering DeviceHealthReport | Waiting | Leaving

record plugin =
  plState :: DeviceState
  plChecker :: TPUHealthChecker
  plBroadcaster :: healthBroadcaster
  plSignal :: bool                            \<comment> \<open>the publish channel (capacity one) is full\<close>
  plFull :: "nat \<Rightarrow> bool"                      \<comment> \<open>the subscribers' channels that are full\<close>
  plMonitor :: monitor_pc
  plPublisher :: publisher_pc
  plWatcher :: "nat \<Rightarrow> watcher_pc"             \<comment> \<open>by the number of its channel\<close>
  plReports :: "nat \<Rightarrow> DeviceHealthReport list"   \<comment> \<open>what each watcher's caller received\<close>
  plSlices :: "Device list list"              \<comment> \<open>what was handed to \<open>PublishResources\<close>\<close>

definition started :: "DeviceState \<Rightarrow> string \<Rightarrow> string \<Rightarrow> string \<Rightarrow> plugin" where
  "started s devDir gen node =
     \<lparr>plState = s, plChecker = NewTPUHealthChecker (dsAllocatable s) devDir gen,
      plBroadcaster = newHealthBroadcaster node, plSignal = False, plFull = (\<lambda>_. False), plMonitor = Ticking,
      plPublisher = Gathering, plWatcher = (\<lambda>_. Absent), plReports = (\<lambda>_. []), plSlices = []\<rparr>"

text \<open>
  \<open>Stop\<close> hands its request to the checker, which takes it only at its \<open>select\<close>; elsewhere the caller
  blocks (\<open>None\<close>). A nil driver has nothing to shut down.
\<close>

definition Stop :: "plugin \<Rightarrow> plugin option" where
  "Stop p = (if plMonitor p = Ticking then Some (p\<lparr>plMonitor := Stopped\<rparr>) else None)"

fun Shutdown :: "plugin option \<Rightarrow> plugin option option" where
  "Shutdown None = Some None"
| "Shutdown (Some p) = map_option Some (Stop p)"

inductive monitor_step :: "plugin \<Rightarrow> plugin \<Rightarrow> bool" where
  tick: "plMonitor p = Ticking \<Longrightarrow> map_order (hcDevices (plChecker p)) order \<Longrightarrow>
    monitor_step p (p\<lparr>plMonitor := Probing order\<rparr>)"
| probe: "plMonitor p = Probing (k # ks) \<Longrightarrow> check_device stat (plChecker p) (plState p) k = (hc, s, sent) \<Longrightarrow>
    monitor_step p (p\<lparr>plChecker := hc, plState := s, plMonitor := (if sent then Signalling ks else Probing ks)\<rparr>)"
| signal: "plMonitor p = Signalling ks \<Longrightarrow> \<not> plSignal p \<Longrightarrow>
    monitor_step p (p\<lparr>plSignal := True, plMonitor := Probing ks\<rparr>)"
| pass_done: "plMonitor p = Probing [] \<Longrightarrow> monitor_step p (p\<lparr>plMonitor := Notifying\<rparr>)"
| notify: "plMonitor p = Notifying \<Longrightarrow>
    monitor_step p (p\<lparr>plFull := broadcast (plBroadcaster p) (plFull p), plMonitor := Ticking\<rparr>)"
| stop: "Stop p = Some p' \<Longrightarrow> monitor_step p p'"

text \<open>
  A failed publication is logged, and the loop goes on as after a successful one: \<open>plSlices\<close> is what was
  handed to \<open>PublishResources\<close>, which after the first call passes it to a controller that retries. The
  loop's context is cancelled when \<open>StartPlugin\<close> returns, after the \<open>Shutdown\<close> of its deferred function,
  so its \<open>ctx.Done\<close> ends the publisher with the process and is not a step of its own.
\<close>

inductive publisher_step :: "consumableSharesPolicy \<Rightarrow> plugin \<Rightarrow> plugin \<Rightarrow> bool" for policy where
  gather: "plPublisher p = Gathering \<Longrightarrow> map_order (dsAllocatable (plState p)) order \<Longrightarrow>
    publisher_step policy p (p\<lparr>plPublisher := Publishing (gather_slice policy order (plState p))\<rparr>)"
| publish: "plPublisher p = Publishing devs \<Longrightarrow>
    publisher_step policy p (p\<lparr>plPublisher := Listening, plSlices := plSlices p @ [devs]\<rparr>)"
| listen: "plPublisher p = Listening \<Longrightarrow> plSignal p \<Longrightarrow>
    publisher_step policy p (p\<lparr>plSignal := False, plPublisher := Gathering\<rparr>)"

text \<open>
  Go evaluates the value of a send when it enters the \<open>select\<close>: the report is built (\<open>build\<close>)
  before the watcher blocks on it (\<open>deliver\<close>).
\<close>

inductive watcher_step :: "plugin \<Rightarrow> plugin \<Rightarrow> bool" where
  arrive: "plWatcher p c = Absent \<Longrightarrow>
    watcher_step p (p\<lparr>plBroadcaster := subscribe (plBroadcaster p) c, plFull := (plFull p)(c := False),
      plWatcher := (plWatcher p)(c := Reporting), plReports := (plReports p)(c := [])\<rparr>)"
| build: "plWatcher p c = Reporting \<Longrightarrow> map_order (dsAllocatable (plState p)) order \<Longrightarrow>
    watcher_step p (p\<lparr>plWatcher := (plWatcher p)(c := Offering (buildReport (plBroadcaster p) now order (plState p)))\<rparr>)"
| deliver: "plWatcher p c = Offering r \<Longrightarrow>
    watcher_step p (p\<lparr>plWatcher := (plWatcher p)(c := Waiting), plReports := (plReports p)(c := plReports p c @ [r])\<rparr>)"
| wake: "plWatcher p c = Waiting \<Longrightarrow> plFull p c \<Longrightarrow>
    watcher_step p (p\<lparr>plFull := (plFull p)(c := False), plWatcher := (plWatcher p)(c := Reporting)\<rparr>)"
| cancel: "plWatcher p c = Offering r \<or> plWatcher p c = Waiting \<Longrightarrow>
    watcher_step p (p\<lparr>plWatcher := (plWatcher p)(c := Leaving)\<rparr>)"
| leave: "plWatcher p c = Leaving \<Longrightarrow>
    watcher_step p (p\<lparr>plBroadcaster := unsubscribe (plBroadcaster p) c, plWatcher := (plWatcher p)(c := Absent)\<rparr>)"

inductive plugin_step :: "consumableSharesPolicy \<Rightarrow> plugin \<Rightarrow> plugin \<Rightarrow> bool" for policy where
  monitor: "monitor_step p p' \<Longrightarrow> plugin_step policy p p'"
| publisher: "publisher_step policy p p' \<Longrightarrow> plugin_step policy p p'"
| watcher: "watcher_step p p' \<Longrightarrow> plugin_step policy p p'"

inductive_cases monitor_stepE [consumes 1, case_names tick probe signal pass_done notify stop]: "monitor_step p p'"
inductive_cases watcher_stepE [consumes 1, case_names arrive build deliver wake cancel leave]: "watcher_step p p'"
inductive_cases plugin_stepE [consumes 1, case_names monitor publisher watcher]: "plugin_step policy p p'"

section \<open>The checker agrees with the state\<close>

text \<open>The devices the checker has yet to look at in its pass.\<close>

fun to_probe :: "monitor_pc \<Rightarrow> string list" where
  "to_probe (Probing ks) = ks"
| "to_probe (Signalling ks) = ks"
| "to_probe pc = []"

definition in_step :: "plugin \<Rightarrow> bool" where
  "in_step p \<longleftrightarrow> hcDevices (plChecker p) = dsAllocatable (plState p) \<and>
     fset_of_list (to_probe (plMonitor p)) |\<subseteq>| fmdom (dsAllocatable (plState p))"

lemma Stop_SomeD: "Stop p = Some p' \<Longrightarrow> plMonitor p = Ticking \<and> p' = p\<lparr>plMonitor := Stopped\<rparr>"
  by (simp add: Stop_def split: if_splits)

lemma map_order_subset: "map_order m order \<Longrightarrow> fset_of_list order |\<subseteq>| fmdom m"
  by (simp add: map_order_def)

text \<open>What a probe does, whatever it finds.\<close>

lemma probe_outcome:
  assumes "in_step p" and "plMonitor p = Probing (k # ks)"
    and "check_device stat (plChecker p) (plState p) k = (hc, s, sent)"
  shows "hcDevices hc = dsAllocatable s \<and> same_devices (plState p) s \<and>
    (if sent then True else health_view s = health_view (plState p))"
proof -
  from assms(1,2) have *: "hcDevices (plChecker p) = dsAllocatable (plState p)" "k |\<in>| fmdom (dsAllocatable (plState p))"
    by (simp_all add: in_step_def)
  show ?thesis
    by (rule check_device_outcome [OF *, of stat]) (use assms(3) fmupd_same [of "health_view (plState p)" k] in auto)
qed

lemma monitor_step_in_step:
  assumes "monitor_step p p'" and "in_step p"
  shows "in_step p' \<and> same_devices (plState p) (plState p')"
  using assms(1)
proof (cases rule: monitor_stepE)
  case (probe k ks stat hc s sent)
  from probe_outcome [OF assms(2) probe(2,3)] assms(2) probe same_devices_dom show ?thesis
    by (auto simp: in_step_def)
qed (use assms(2) in \<open>auto simp: in_step_def map_order_subset dest!: Stop_SomeD\<close>)

lemma plugin_step_in_step:
  assumes "plugin_step policy p p'" and "in_step p"
  shows "in_step p' \<and> same_devices (plState p) (plState p')"
  using assms(1)
proof (cases rule: plugin_stepE)
  case monitor
  then show ?thesis using monitor_step_in_step assms(2) by blast
next
  case publisher
  then show ?thesis using assms(2) by cases (auto simp: in_step_def)
next
  case watcher
  then show ?thesis using assms(2) by cases (auto simp: in_step_def)
qed

lemma started_in_step: "in_step (started s devDir gen node)"
  by (simp add: in_step_def started_def NewTPUHealthChecker_def)

lemma plugin_steps_in_step:
  assumes "(plugin_step policy)\<^sup>*\<^sup>* p p'" and "in_step p"
  shows "in_step p' \<and> same_devices (plState p) (plState p')"
  using assms(1)
proof (induction rule: rtranclp_induct)
  case (step p1 p2)
  then show ?case using plugin_step_in_step same_devices_trans by blast
qed (simp add: assms(2))

section \<open>Nothing is left unpublished\<close>

text \<open>The slice of a state, in some order of its devices.\<close>

definition slice_of :: "consumableSharesPolicy \<Rightarrow> DeviceState \<Rightarrow> Device list \<Rightarrow> bool" where
  "slice_of policy s devs \<longleftrightarrow> (\<exists>order. map_order (dsAllocatable s) order \<and> devs = gather_slice policy order s)"

definition signalling :: "monitor_pc \<Rightarrow> bool" where
  "signalling pc \<longleftrightarrow> (case pc of Signalling ks \<Rightarrow> True | _ \<Rightarrow> False)"

lemma signalling_simps [simp]: "signalling (Signalling ks)" "\<not> signalling Ticking" "\<not> signalling (Probing ks)"
  "\<not> signalling Notifying" "\<not> signalling Stopped"
  by (simp_all add: signalling_def)

text \<open>A change of health is on its way to the API server, or the last slice shows it.\<close>

definition published :: "consumableSharesPolicy \<Rightarrow> plugin \<Rightarrow> bool" where
  "published policy p \<longleftrightarrow>
     (if plSignal p \<or> signalling (plMonitor p) then True
      else case plPublisher p of
          Gathering \<Rightarrow> True
        | Publishing devs \<Rightarrow> slice_of policy (plState p) devs
        | Listening \<Rightarrow> plSlices p \<noteq> [] \<and> slice_of policy (plState p) (last (plSlices p)))"

text \<open>Devices with the same healths and otherwise the same are the same.\<close>

lemma same_health_same_devices:
  assumes "same_devices s s'" and "health_view s' = health_view s"
  shows "dsAllocatable s' = dsAllocatable s"
proof (rule fmap_ext)
  fix k
  have 1: "map_option (\<lambda>d. d\<lparr>allocatable := False\<rparr>) (fmlookup (dsAllocatable s') k) =
      map_option (\<lambda>d. d\<lparr>allocatable := False\<rparr>) (fmlookup (dsAllocatable s) k)"
    using assms(1) unfolding same_devices_def by (metis fmlookup_map)
  have 2: "map_option allocatable (fmlookup (dsAllocatable s') k) = map_option allocatable (fmlookup (dsAllocatable s) k)"
    using assms(2) unfolding health_view_def by (metis fmlookup_map)
  have "d' = d" if "d'\<lparr>allocatable := False\<rparr> = d\<lparr>allocatable := False\<rparr>" "allocatable d' = allocatable d"
    for d d' :: AllocatableDevice
    using that by (cases d; cases d') simp
  with 1 2 show "fmlookup (dsAllocatable s') k = fmlookup (dsAllocatable s) k"
    by (cases "fmlookup (dsAllocatable s') k"; cases "fmlookup (dsAllocatable s) k") auto
qed

lemma slice_of_cong: "dsAllocatable s' = dsAllocatable s \<Longrightarrow> slice_of policy s' = slice_of policy s"
  by (simp add: slice_of_def gather_slice_def fun_eq_iff)

lemma published_step:
  assumes "plugin_step policy p p'" and "in_step p" and "published policy p"
  shows "published policy p'"
  using assms(1)
proof (cases rule: plugin_stepE)
  case monitor
  then show ?thesis
  proof (cases rule: monitor_stepE)
    case (probe k ks stat hc s sent)
    have "dsAllocatable s = dsAllocatable (plState p)" if "\<not> sent"
      using probe_outcome [OF assms(2) probe(2,3)] that same_health_same_devices by auto
    then have "\<not> sent \<Longrightarrow> slice_of policy s = slice_of policy (plState p)" by (rule slice_of_cong)
    with probe assms(3) show ?thesis by (auto simp: published_def split: publisher_pc.splits)
  qed (use assms(3) in \<open>auto simp: published_def split: publisher_pc.splits dest!: Stop_SomeD\<close>)
next
  case publisher
  then show ?thesis
    by cases (use assms(3) in \<open>auto simp: published_def slice_of_def split: if_splits\<close>)
next
  case watcher
  then show ?thesis by cases (use assms(3) in \<open>auto simp: published_def split: publisher_pc.splits\<close>)
qed

section \<open>No notification is lost\<close>

definition report_view :: "DeviceHealthReport \<Rightarrow> (string, bool) fmap" where
  "report_view r = fmap_of_list (map (\<lambda>d. (dhDeviceName d, dhHealth d = HealthStatusHealthy)) r)"

lemma map_of_range_over:
  "map_of (map (\<lambda>(k, d). (k, f d)) (range_over m order)) k =
     (if k \<in> set order then map_option f (fmlookup m k) else None)"
  by (induction order) (auto simp: range_over_def split: option.splits)

lemma report_view_buildReport:
  assumes "map_order (dsAllocatable s) order"
  shows "report_view (buildReport b now order s) = health_view s"
proof -
  have "map (\<lambda>d. (dhDeviceName d, dhHealth d = HealthStatusHealthy)) (buildReport b now order s) =
      map (\<lambda>(k, d). (k, allocatable d)) (range_over (dsAllocatable s) order)"
    by (auto simp: buildReport_def split: if_splits)
  moreover have "k \<in> set order \<longleftrightarrow> k |\<in>| fmdom (dsAllocatable s)" for k
    using assms by (metis map_order_def fset_of_list_elem)
  ultimately show ?thesis
    by (intro fmap_ext)
      (auto simp: report_view_def fmlookup_of_list map_of_range_over health_view_def fmdom_notD)
qed

lemma notify_all_full: "notify_all cs full c \<longleftrightarrow> full c \<or> c \<in> set cs"
  by (induction cs arbitrary: full) auto

lemma delete_first_remove1: "delete_first c cs = remove1 c cs"
  by (induction cs) auto

text \<open>
  \<open>V\<close> collects the healths the state has had since the last broadcast. A subscribed watcher has a
  notification waiting, is about to build a report, or built its last one since.
\<close>

fun informed :: "bool \<Rightarrow> watcher_pc \<Rightarrow> DeviceHealthReport list \<Rightarrow> (string, bool) fmap set \<Rightarrow> bool" where
  "informed True pc rs V \<longleftrightarrow> True"
| "informed False (Offering r) rs V \<longleftrightarrow> report_view r \<in> V"
| "informed False Waiting rs V \<longleftrightarrow> rs \<noteq> [] \<and> report_view (last rs) \<in> V"
| "informed False pc rs V \<longleftrightarrow> True"

lemma informed_mono: "informed full pc rs V \<Longrightarrow> V \<subseteq> V' \<Longrightarrow> informed full pc rs V'"
  by (cases full; cases pc) auto

definition watched :: "plugin \<Rightarrow> (string, bool) fmap set \<Rightarrow> bool" where
  "watched p V \<longleftrightarrow>
     distinct (hbSubscribers (plBroadcaster p)) \<and>
     (\<forall>c. c \<in> set (hbSubscribers (plBroadcaster p)) \<longleftrightarrow> plWatcher p c \<noteq> Absent) \<and>
     (\<forall>c. informed (plFull p c) (plWatcher p c) (plReports p c) V) \<and> health_view (plState p) \<in> V \<and>
     (if plMonitor p \<in> {Ticking, Stopped} then V = {health_view (plState p)} else True)"

lemma watched_informed: "watched p V \<Longrightarrow> informed (plFull p c) (plWatcher p c) (plReports p c) V"
  by (simp add: watched_def)

lemma watched_monitor_step:
  assumes "monitor_step p p'" and "watched p V"
  shows "\<exists>V'. watched p' V'"
  using assms(1)
proof (cases rule: monitor_stepE)
  case (probe k ks stat hc s sent)
  have "informed (plFull p c) (plWatcher p c) (plReports p c) (insert (health_view s) V)" for c
    by (rule informed_mono [OF watched_informed [OF assms(2)]]) blast
  with probe assms(2) have "watched p' (insert (health_view s) V)" by (simp add: watched_def)
  then show ?thesis by blast
next
  case notify
  have "informed (plFull p' c) (plWatcher p' c) (plReports p' c) V'" for c V'
  proof (cases "plWatcher p c = Absent")
    case True
    then show ?thesis by (cases "plFull p' c") (simp_all add: notify(1))
  next
    case False
    with assms(2) have "plFull p' c" by (simp add: notify(1) watched_def broadcast_def notify_all_full)
    then show ?thesis by simp
  qed
  with assms(2) notify have "watched p' {health_view (plState p)}" by (simp add: watched_def)
  then show ?thesis by blast
next
  case signal
  with assms(2) have "watched p' V" by (simp add: watched_def)
  then show ?thesis by blast
next
  case tick
  with assms(2) have "watched p' V" by (auto simp: watched_def)
  then show ?thesis by blast
next
  case pass_done
  with assms(2) have "watched p' V" by (simp add: watched_def)
  then show ?thesis by blast
next
  case stop
  with assms(2) have "watched p' V" by (auto simp: watched_def dest!: Stop_SomeD)
  then show ?thesis by blast
qed

lemma watched_watcher_step:
  assumes "watcher_step p p'" and "watched p V"
  shows "watched p' V"
  using assms(1)
proof (cases rule: watcher_stepE)
  case (arrive c)
  with assms(2) show ?thesis by (auto simp: watched_def subscribe_def)
next
  case (build c order now)
  with assms(2) report_view_buildReport [OF build(3)] show ?thesis
    by (cases "plFull p c") (auto simp: watched_def)
next
  case (deliver c r)
  with assms(2) watched_informed [OF assms(2), of c] show ?thesis
    by (cases "plFull p c") (auto simp: watched_def)
next
  case (wake c)
  with assms(2) show ?thesis by (auto simp: watched_def)
next
  case (cancel c r)
  with assms(2) show ?thesis by (cases "plFull p c") (auto simp: watched_def)
next
  case (leave c)
  with assms(2) show ?thesis
    by (cases "plFull p c") (auto simp: watched_def unsubscribe_def delete_first_remove1)
qed

lemma watched_step:
  assumes "plugin_step policy p p'" and "watched p V"
  shows "\<exists>V'. watched p' V'"
  using assms(1)
proof (cases rule: plugin_stepE)
  case monitor
  then show ?thesis using assms(2) by (rule watched_monitor_step)
next
  case publisher
  then have "watched p' V" by cases (use assms(2) in \<open>auto simp: watched_def\<close>)
  then show ?thesis by blast
next
  case watcher
  with watched_watcher_step assms(2) show ?thesis by blast
qed

section \<open>Everything settles\<close>

text \<open>
  The steps of the checker and the publisher that need nothing from outside: all but a tick of
  the clock, a stop, and the watchers' steps. \<open>work\<close> bounds how many are left.
\<close>

inductive settling_step :: "consumableSharesPolicy \<Rightarrow> plugin \<Rightarrow> plugin \<Rightarrow> bool" for policy where
  busy_monitor: "plMonitor p \<noteq> Ticking \<Longrightarrow> monitor_step p p' \<Longrightarrow> settling_step policy p p'"
| busy_publisher: "publisher_step policy p p' \<Longrightarrow> settling_step policy p p'"

fun monitor_work :: "monitor_pc \<Rightarrow> nat" where
  "monitor_work (Probing ks) = 6 * length ks + 2"
| "monitor_work (Signalling ks) = 6 * length ks + 7"
| "monitor_work Notifying = 1"
| "monitor_work pc = 0"

fun publisher_work :: "publisher_pc \<Rightarrow> nat" where
  "publisher_work Gathering = 2"
| "publisher_work (Publishing devs) = 1"
| "publisher_work Listening = 0"

definition work :: "plugin \<Rightarrow> nat" where
  "work p = monitor_work (plMonitor p) + publisher_work (plPublisher p) + (if plSignal p then 3 else 0)"

lemma settling_work: "settling_step policy p p' \<Longrightarrow> work p' < work p"
proof (induction rule: settling_step.induct)
  case (busy_monitor p p')
  from busy_monitor(2,1) show ?case by cases (auto simp: work_def dest!: Stop_SomeD)
next
  case (busy_publisher p p')
  then show ?case by cases (simp_all add: work_def)
qed

lemma map_order_exists: "\<exists>order. map_order m order"
proof -
  obtain order where "set order = fset (fmdom m)" "distinct order"
    using finite_distinct_list [of "fset (fmdom m)"] by auto
  then have "fset_of_list order = fmdom m" by (metis fset_inject fset_of_list.rep_eq)
  with \<open>distinct order\<close> show ?thesis unfolding map_order_def by blast
qed

lemma settled:
  assumes "\<not> (\<exists>p'. settling_step policy p p')"
  shows "plMonitor p \<in> {Ticking, Stopped} \<and> plPublisher p = Listening \<and> \<not> plSignal p"
proof -
  have pub: "plPublisher p = Listening \<and> \<not> plSignal p"
  proof (cases "plPublisher p")
    case Gathering
    obtain order where "map_order (dsAllocatable (plState p)) order" using map_order_exists by blast
    with Gathering publisher_step.gather [of p order policy] busy_publisher [of policy p] assms show ?thesis by blast
  next
    case (Publishing devs)
    with publisher_step.publish [of p devs policy] busy_publisher [of policy p] assms show ?thesis by blast
  next
    case Listening
    with publisher_step.listen [of p policy] busy_publisher [of policy p] assms show ?thesis by blast
  qed
  have "plMonitor p \<in> {Ticking, Stopped}"
  proof (cases "plMonitor p")
    case (Probing ks)
    then show ?thesis
    proof (cases ks)
      case Nil
      with Probing monitor_step.pass_done [of p] busy_monitor [of p _ policy] assms show ?thesis by auto
    next
      case (Cons k ks')
      obtain hc s sent where "check_device (\<lambda>_. StatOk False) (plChecker p) (plState p) k = (hc, s, sent)"
        by (cases "check_device (\<lambda>_. StatOk False) (plChecker p) (plState p) k") auto
      from monitor_step.probe [OF _ this] Probing Cons obtain p' where "monitor_step p p'" by blast
      with Probing busy_monitor [of p p' policy] assms show ?thesis by auto
    qed
  next
    case (Signalling ks)
    with pub monitor_step.signal [of p ks] busy_monitor [of p _ policy] assms show ?thesis by auto
  next
    case Notifying
    with monitor_step.notify [of p] busy_monitor [of p _ policy] assms show ?thesis by auto
  qed auto
  with pub show ?thesis by blast
qed

end
