(* ===== verification/HealthLife.thy ===== *)
theory HealthLife
  imports HealthRuns
begin

text \<open>
  Properties of a running driver: what is published and reported in every reachable state, that
  the goroutines settle, and that health never changes what the claim handlers do.
\<close>

section \<open>Invariants of all runs\<close>

lemma started_published: "published policy (started s devDir gen node)"
  by (simp add: published_def started_def)

lemma started_watched: "watched (started s devDir gen node) {health_view s}"
  by (simp add: watched_def started_def newHealthBroadcaster_def)

lemma run_invariants:
  assumes "(plugin_step policy)\<^sup>*\<^sup>* (started s devDir gen node) p"
  shows "in_step p \<and> same_devices s (plState p) \<and> published policy p \<and> (\<exists>V. watched p V)"
  using assms
proof (induction rule: rtranclp_induct)
  case base
  have "plState (started s devDir gen node) = s" by (simp add: started_def)
  with started_in_step started_published started_watched show ?case by (metis same_devices_refl)
next
  case (step p1 p2)
  with plugin_step_in_step [OF step(2)] published_step [OF step(2)] watched_step [OF step(2)] same_devices_trans
  show ?case by meson
qed

text \<open>An example run: the node of one chip, whose file is gone when the first pass looks.\<close>

definition example_plugin :: plugin where
  "example_plugin = started example_state ''/dev/vfio'' ''v6e'' ''node-1''"

definition sick_state :: DeviceState where
  "sick_state = example_state\<lparr>dsAllocatable := fmupd ''0'' (example_device\<lparr>allocatable := False\<rparr>) (dsAllocatable example_state)\<rparr>"

definition sick_checker :: TPUHealthChecker where
  "sick_checker = (NewTPUHealthChecker (dsAllocatable example_state) ''/dev/vfio'' ''v6e'')\<lparr>hcDevices := dsAllocatable sick_state\<rparr>"

lemma example_order: "map_order (dsAllocatable example_state) [''0'']"
  by (simp add: map_order_def example_state_def)

lemma sick_order: "map_order (dsAllocatable sick_state) [''0'']"
  by (simp add: map_order_def sick_state_def example_state_def)

lemma example_probe:
  "check_device (\<lambda>_. StatNotExist) (NewTPUHealthChecker (dsAllocatable example_state) ''/dev/vfio'' ''v6e'') example_state ''0'' =
     (sick_checker, sick_state, True)"
  by (simp add: check_device_def record_health_def UpdateHealth_def deviceExists_def NewTPUHealthChecker_def
      example_state_def example_device_def sick_checker_def sick_state_def Let_def)

text \<open>Watcher 7 has built its report when the chip goes; the slice is published before and after.\<close>

definition probed_plugin :: plugin where
  "probed_plugin = example_plugin\<lparr>plChecker := sick_checker, plState := sick_state, plMonitor := Signalling []\<rparr>"

lemma example_probed: "(plugin_step policy)\<^sup>*\<^sup>* example_plugin probed_plugin"
proof -
  have "plugin_step policy example_plugin (example_plugin\<lparr>plMonitor := Probing [''0'']\<rparr>)"
    by (rule plugin_step.monitor, rule monitor_step.tick)
      (simp_all add: example_plugin_def started_def NewTPUHealthChecker_def example_order)
  moreover have "plugin_step policy (example_plugin\<lparr>plMonitor := Probing [''0'']\<rparr>) probed_plugin"
    using plugin_step.monitor [OF monitor_step.probe [of "example_plugin\<lparr>plMonitor := Probing [''0'']\<rparr>" "''0''" "[]"
          "\<lambda>_. StatNotExist" sick_checker sick_state True], of policy] example_probe
    by (simp add: example_plugin_def started_def probed_plugin_def)
  ultimately show ?thesis by (meson rtranclp.rtrancl_into_rtrancl rtranclp.rtrancl_refl)
qed

text \<open>In every reachable state of a running driver the checker's own copy of the devices is that of the
  device state, so \<open>UpdateHealth\<close> never meets a device it does not know, and of the state the driver
  started with only the health of devices has changed.\<close>

theorem checker_copy_agrees:
  assumes "(plugin_step policy)\<^sup>*\<^sup>* (started s devDir gen node) p"
  shows "hcDevices (plChecker p) = dsAllocatable (plState p) \<and> same_devices s (plState p)"
  using run_invariants [OF assms] by (simp add: in_step_def)

lemma checker_copy_agrees_witness:
  "hcDevices (plChecker probed_plugin) = dsAllocatable sick_state \<and> same_devices example_state sick_state"
  using checker_copy_agrees [OF example_probed [unfolded example_plugin_def]] by (simp add: probed_plugin_def)

text \<open>C19 (safety). The health of the chips never changes what the claim handlers do: in every reachable state of a
  running driver \<open>Prepare\<close> and \<open>Unprepare\<close> act as in the state the driver started with, so the
  runs of claims and the runs of the checker do not interfere.\<close>

theorem claims_do_not_depend_on_health:
  assumes "(plugin_step policy)\<^sup>*\<^sup>* (started s devDir gen node) p"
  shows "Prepare sv (plState p) = Prepare sv s \<and> Unprepare sv (plState p) = Unprepare sv s"
proof -
  from run_invariants [OF assms] have same: "same_devices s (plState p)" by blast
  then have tm: "dsTm (plState p) = dsTm s" "logDir (plState p) = logDir s" "dsSharesPolicy (plState p) = dsSharesPolicy s"
    by (simp_all add: same_devices_def logDir_def)
  have "fmlookup (dsAllocatable (plState p)) k = None \<longleftrightarrow> fmlookup (dsAllocatable s) k = None" for k
    using same_devices_dom [OF same] by (metis fmdom_notD fmdom_notI)
  then have known: "(\<lambda>r. fmlookup (dsAllocatable (plState p)) (resDevice r) = None) = (\<lambda>r. fmlookup (dsAllocatable s) (resDevice r) = None)"
    by simp
  have prep: "prepareDevices (plState p) c = prepareDevices s c" for c
    unfolding prepareDevices_def tm(1) known ..
  have unprep: "unprepareDevices sv (plState p) = unprepareDevices sv s"
    by (intro ext) (simp only: unprepareDevices_def tm)
  show ?thesis by (intro conjI ext) (simp_all only: Prepare_def Unprepare_def prep unprep)
qed

lemma claims_do_not_depend_on_health_witness:
  "Prepare (disk_services example_ck no_faults) sick_state = Prepare (disk_services example_ck no_faults) example_state"
  using claims_do_not_depend_on_health [OF example_probed [unfolded example_plugin_def],
      where sv = "disk_services example_ck no_faults"] by (simp add: probed_plugin_def)

section \<open>Publishing\<close>

text \<open>C20 (safety). No change of health is left unpublished: in every reachable state, once the publisher waits for a
  signal, none is in the channel and the checker is not sending one, the last slice handed to
  \<open>PublishResources\<close> is that of the current state.\<close>

theorem no_change_left_unpublished:
  assumes "(plugin_step policy)\<^sup>*\<^sup>* (started s devDir gen node) p"
    and "plPublisher p = Listening" and "\<not> plSignal p" and "\<not> signalling (plMonitor p)"
  shows "plSlices p \<noteq> [] \<and> slice_of policy (plState p) (last (plSlices p))"
  using run_invariants [OF assms(1)] assms(2-4) by (simp add: published_def)

definition published_plugin :: plugin where
  "published_plugin = example_plugin\<lparr>plPublisher := Listening, plSlices := [gather_slice noShares [''0''] example_state]\<rparr>"

lemma example_published: "(plugin_step noShares)\<^sup>*\<^sup>* example_plugin published_plugin"
proof -
  let ?p = "example_plugin\<lparr>plPublisher := Publishing (gather_slice noShares [''0''] example_state)\<rparr>"
  have "plugin_step noShares example_plugin ?p"
    using plugin_step.publisher [OF publisher_step.gather [of example_plugin "[''0'']" noShares]] example_order
    by (simp add: example_plugin_def started_def)
  moreover have "plugin_step noShares ?p published_plugin"
    using plugin_step.publisher [OF publisher_step.publish [of ?p _ noShares]]
    by (simp add: published_plugin_def example_plugin_def started_def)
  ultimately show ?thesis by (meson rtranclp.rtrancl_into_rtrancl rtranclp.rtrancl_refl)
qed

lemma no_change_left_unpublished_witness:
  "slice_of noShares example_state (last (plSlices published_plugin))"
  using no_change_left_unpublished [OF example_published [unfolded example_plugin_def]]
  by (simp add: published_plugin_def example_plugin_def started_def)

lemma same_devices_named:
  assumes "same_devices s s'" and "devices_named s"
  shows "devices_named s'"
  unfolding devices_named_def
proof (intro allI impI)
  fix k dev
  assume dev: "fmlookup (dsAllocatable s') k = Some dev"
  have "map_option (\<lambda>d. d\<lparr>allocatable := False\<rparr>) (fmlookup (dsAllocatable s') k) =
      map_option (\<lambda>d. d\<lparr>allocatable := False\<rparr>) (fmlookup (dsAllocatable s) k)"
    using assms(1) unfolding same_devices_def by (metis fmlookup_map)
  then obtain d where d: "fmlookup (dsAllocatable s) k = Some d" "dev\<lparr>allocatable := False\<rparr> = d\<lparr>allocatable := False\<rparr>"
    using dev by (cases "fmlookup (dsAllocatable s) k") auto
  have "adName dev = adName (dev\<lparr>allocatable := False\<rparr>)" by simp
  with d assms(2) show "adName dev = k" by (simp add: devices_named_def)
qed

lemma DevName_published: "DevName (applyConsumableShares (GetDevice d) policy) = adName d"
  by (simp add: applyConsumableShares_def GetDevice_def Let_def)

lemma slice_names:
  assumes "devices_named s"
  shows "map DevName (gather_slice policy order s) = filter (\<lambda>k. fmlookup (health_view s) k = Some True) order"
proof (induction order)
  case (Cons k order)
  then show ?case using assms
    by (cases "fmlookup (dsAllocatable s) k")
      (auto simp: gather_slice_def range_over_def health_view_def DevName_published devices_named_def)
qed (simp add: gather_slice_def range_over_def)

text \<open>C24 (functional). What is published is what is healthy: in every reachable state of a driver that started successfully
  a published slice names each chip of the node that is healthy exactly once
  and no other device.\<close>

theorem published_slice_lists_healthy_chips:
  assumes "NewDeviceState (disk_services ck i) u environ fs order cacheErr managerErr labels devDir policy d = (d', Inr s)"
    and "(plugin_step policy)\<^sup>*\<^sup>* (started s devDir gen node) p" and "slice_of policy (plState p) devs"
  shows "distinct (map DevName devs) \<and>
    set (map DevName devs) = {k \<in> chips s. fmlookup (health_view (plState p)) k = Some True}"
proof -
  have same: "same_devices s (plState p)" using run_invariants [OF assms(2)] by blast
  have "devices_named s" using NewDeviceState_devices [OF assms(1)] by (simp add: devices_named_def)
  with same have named: "devices_named (plState p)" by (rule same_devices_named)
  obtain order where "map_order (dsAllocatable (plState p)) order" and "devs = gather_slice policy order (plState p)"
    using assms(3) by (auto simp: slice_of_def)
  moreover from this have "set order = chips s"
    unfolding map_order_def chips_def same_devices_dom [OF same, symmetric] by (metis fset_of_list.rep_eq)
  ultimately show ?thesis using slice_names [OF named] by (auto simp: map_order_def)
qed

lemma published_slice_lists_healthy_chips_witness:
  "\<exists>d' s order. NewDeviceState (disk_services example_ck no_faults) example_uuid Map.empty accel_host [] None None
     start_labels ''/dev'' noShares empty_disk = (d', Inr s) \<and> distinct (map DevName (gather_slice noShares order s)) \<and>
     set (map DevName (gather_slice noShares order s)) = {k \<in> chips s. fmlookup (health_view s) k = Some True}"
proof -
  obtain d' s where run: "NewDeviceState (disk_services example_ck no_faults) example_uuid Map.empty accel_host [] None None
     start_labels ''/dev'' noShares empty_disk = (d', Inr s)" using example_start by blast
  obtain order where "map_order (dsAllocatable s) order" using map_order_exists by blast
  then have "slice_of noShares (plState (started s ''/dev'' ''v4'' ''node-1'')) (gather_slice noShares order s)"
    by (auto simp: slice_of_def started_def)
  from published_slice_lists_healthy_chips [OF run _ this] run show ?thesis
    by (auto simp: started_def intro!: exI [of _ order])
qed

section \<open>Reports\<close>

text \<open>C21 (safety). No health notification is lost: whenever the checker is between two passes, a watcher that waits with
  an empty channel has sent its caller a report, and the last one shows the current health of every
  chip.\<close>

theorem waiting_watchers_are_current:
  assumes "(plugin_step policy)\<^sup>*\<^sup>* (started s devDir gen node) p" and "plMonitor p = Ticking"
    and "plWatcher p c = Waiting" and "\<not> plFull p c"
  shows "plReports p c \<noteq> [] \<and> report_view (last (plReports p c)) = health_view (plState p)"
proof -
  obtain V where "watched p V" using run_invariants [OF assms(1)] by blast
  then have "informed False Waiting (plReports p c) {health_view (plState p)}"
    using assms(2-4) unfolding watched_def by (metis (full_types) insertI1)
  then show ?thesis by simp
qed

text \<open>Watcher 7 subscribes and its caller takes the first report.\<close>

definition example_report :: DeviceHealthReport where
  "example_report = buildReport (subscribe (newHealthBroadcaster ''node-1'') 7) (\<lambda>_. 0) [''0''] example_state"

definition offering_plugin :: plugin where
  "offering_plugin = example_plugin\<lparr>plBroadcaster := subscribe (newHealthBroadcaster ''node-1'') 7,
     plWatcher := (\<lambda>_. Absent)(7 := Offering example_report)\<rparr>"

definition waiting_plugin :: plugin where
  "waiting_plugin = offering_plugin\<lparr>plWatcher := (\<lambda>_. Absent)(7 := Waiting), plReports := (\<lambda>_. [])(7 := [example_report])\<rparr>"

lemma example_offering: "(plugin_step policy)\<^sup>*\<^sup>* example_plugin offering_plugin"
proof -
  let ?p = "example_plugin\<lparr>plBroadcaster := subscribe (newHealthBroadcaster ''node-1'') 7,
     plWatcher := (\<lambda>_. Absent)(7 := Reporting)\<rparr>"
  have "plugin_step policy example_plugin ?p"
    using plugin_step.watcher [OF watcher_step.arrive [of example_plugin 7], of policy]
    by (simp add: example_plugin_def started_def fun_upd_idem)
  moreover have "plugin_step policy ?p offering_plugin"
    using plugin_step.watcher [OF watcher_step.build [of ?p 7 "[''0'']" "\<lambda>_. 0"], of policy] example_order
    by (simp add: example_plugin_def started_def offering_plugin_def example_report_def)
  ultimately show ?thesis by (meson rtranclp.rtrancl_into_rtrancl rtranclp.rtrancl_refl)
qed

lemma example_waiting: "plugin_step policy offering_plugin waiting_plugin"
  using plugin_step.watcher [OF watcher_step.deliver [of offering_plugin 7 example_report], of policy]
  by (simp add: offering_plugin_def waiting_plugin_def example_plugin_def started_def)

lemma waiting_watchers_are_current_witness: "report_view example_report = health_view example_state"
  using waiting_watchers_are_current [OF rtranclp.rtrancl_into_rtrancl [OF example_offering example_waiting, unfolded example_plugin_def],
      where c = 7]
  by (simp add: waiting_plugin_def offering_plugin_def example_plugin_def started_def)

text \<open>A report is built before the send that may block, not when it is received: a watcher can hand over
  a report that no longer shows the health of the chips (the broadcast at the end of the pass
  that found the change makes it send another).\<close>

theorem delivered_report_may_be_stale:
  "\<exists>p p' r. (plugin_step policy)\<^sup>*\<^sup>* (started example_state ''/dev/vfio'' ''v6e'' ''node-1'') p \<and> watcher_step p p' \<and>
     plReports p' 7 = plReports p 7 @ [r] \<and> report_view r \<noteq> health_view (plState p')"
proof -
  let ?q = "probed_plugin\<lparr>plBroadcaster := subscribe (newHealthBroadcaster ''node-1'') 7,
     plWatcher := (\<lambda>_. Absent)(7 := Offering example_report)\<rparr>"
  have tick: "plugin_step policy offering_plugin (offering_plugin\<lparr>plMonitor := Probing [''0'']\<rparr>)"
    by (rule plugin_step.monitor, rule monitor_step.tick)
      (simp_all add: offering_plugin_def example_plugin_def started_def NewTPUHealthChecker_def example_order)
  have probe: "plugin_step policy (offering_plugin\<lparr>plMonitor := Probing [''0'']\<rparr>) ?q"
    using plugin_step.monitor [OF monitor_step.probe [of "offering_plugin\<lparr>plMonitor := Probing [''0'']\<rparr>" "''0''" "[]"
          "\<lambda>_. StatNotExist" sick_checker sick_state True], of policy] example_probe
    by (simp add: offering_plugin_def example_plugin_def started_def probed_plugin_def)
  have run: "(plugin_step policy)\<^sup>*\<^sup>* (started example_state ''/dev/vfio'' ''v6e'' ''node-1'') ?q"
    using example_offering [of policy, unfolded example_plugin_def] tick probe by (meson rtranclp.rtrancl_into_rtrancl)
  let ?r = "?q\<lparr>plWatcher := (plWatcher ?q)(7 := Waiting), plReports := (plReports ?q)(7 := plReports ?q 7 @ [example_report])\<rparr>"
  have step: "watcher_step ?q ?r" by (rule watcher_step.deliver) simp
  have "report_view example_report = health_view example_state"
    unfolding example_report_def by (rule report_view_buildReport [OF example_order])
  moreover have "fmlookup (health_view example_state) ''0'' \<noteq> fmlookup (health_view sick_state) ''0''"
    by (simp add: health_view_def sick_state_def example_state_def example_device_def)
  ultimately have "report_view example_report \<noteq> health_view (plState ?r)"
    by (auto simp: probed_plugin_def)
  moreover have "plReports ?r 7 = plReports ?q 7 @ [example_report]" by simp
  ultimately show ?thesis using run step by blast
qed

section \<open>Settling\<close>

lemma settling_terminates: "\<exists>p'. (settling_step policy)\<^sup>*\<^sup>* p p' \<and> \<not> (\<exists>p''. settling_step policy p' p'')"
proof (induction "work p" arbitrary: p rule: less_induct)
  case less
  show ?case
  proof (cases "\<exists>p1. settling_step policy p p1")
    case True
    then obtain p1 where p1: "settling_step policy p p1" by blast
    from less [OF settling_work [OF p1]] p1 show ?thesis by (meson converse_rtranclp_into_rtranclp)
  qed blast
qed

lemma settling_is_step: "settling_step policy p p' \<Longrightarrow> plugin_step policy p p'"
  by (induction rule: settling_step.induct) (auto intro: plugin_step.intros)

lemma settling_run:
  assumes "(settling_step policy)\<^sup>*\<^sup>* p p'"
  shows "(plugin_step policy)\<^sup>*\<^sup>* p p'"
  using assms by (rule rtranclp_mono [THEN predicate2D, rotated]) (blast intro: settling_is_step)

text \<open>C22 (termination). The checker and the publisher cannot block each other for ever: from any state they settle in a
  bounded number of their own steps, in whatever order these are taken, with the publisher waiting,
  the slice of the current state published, and the checker back at its \<open>select\<close>, so that a
  \<open>Shutdown\<close> comes through unless it already has.\<close>

theorem checker_and_publisher_settle:
  assumes "(plugin_step policy)\<^sup>*\<^sup>* (started s devDir gen node) p"
  shows "(\<forall>p1 p2. settling_step policy p1 p2 \<longrightarrow> work p2 < work p1) \<and>
    (\<exists>p'. (settling_step policy)\<^sup>*\<^sup>* p p' \<and> \<not> (\<exists>p''. settling_step policy p' p'')) \<and>
    (\<forall>p'. (settling_step policy)\<^sup>*\<^sup>* p p' \<longrightarrow> \<not> (\<exists>p''. settling_step policy p' p'') \<longrightarrow>
       plPublisher p' = Listening \<and> \<not> plSignal p' \<and> slice_of policy (plState p') (last (plSlices p')) \<and>
       (if plMonitor p' = Stopped then True else Shutdown (Some p') = Some (Some (p'\<lparr>plMonitor := Stopped\<rparr>))))"
proof (intro conjI allI impI)
  fix p'
  assume run: "(settling_step policy)\<^sup>*\<^sup>* p p'" and stuck: "\<not> (\<exists>p''. settling_step policy p' p'')"
  note st = settled [OF stuck]
  have "published policy p'"
    using run_invariants [OF rtranclp_trans [OF assms settling_run [OF run]]] by blast
  with st show "plPublisher p' = Listening" "\<not> plSignal p'" "slice_of policy (plState p') (last (plSlices p'))"
    "if plMonitor p' = Stopped then True else Shutdown (Some p') = Some (Some (p'\<lparr>plMonitor := Stopped\<rparr>))"
    by (auto simp: published_def Stop_def split: if_splits)
qed (use settling_work settling_terminates in blast)+

lemma checker_and_publisher_settle_witness:
  "\<exists>p'. (settling_step noShares)\<^sup>*\<^sup>* probed_plugin p' \<and> plPublisher p' = Listening \<and>
     slice_of noShares (plState p') (last (plSlices p'))"
  using checker_and_publisher_settle [OF example_probed [unfolded example_plugin_def]] by blast

end
