(* ===== verification/Startup.thy ===== *)
theory Startup
  imports HealthLife
begin

text \<open>
  How the driver comes up: the network settings of util.go, \<open>NewDriver\<close> of driver.go, and the
  plugin's action and \<open>StartPlugin\<close> of main.go with their wait for a TPU. What the process asks of
  the operating system, the cluster and the kubelet plugin library is the record \<open>startup\<close>;
  the state of all of it has type \<open>'n\<close>.
\<close>

section \<open>Outside operations\<close>

text \<open>
  \<open>suHost\<close> is what the file system shows in a state of the node, \<open>suOrder\<close> the order in which maps
  are ranged over, \<open>suCacheErr\<close> and \<open>suManagerErr\<close> the errors of \<open>NewCache\<close> and
  \<open>NewCheckpointManager\<close>, \<open>suKubeletStart\<close> is \<open>kubeletplugin.Start\<close>.
\<close>

record 'n startup =
  suHost :: "'n \<Rightarrow> hostfs"
  suStat :: "string \<Rightarrow> 'n \<Rightarrow> stat_result"
  suMkdirAll :: "string \<Rightarrow> 'n \<Rightarrow> 'n \<times> go_error option"
  suWriteFile :: "string \<Rightarrow> string \<Rightarrow> 'n \<Rightarrow> 'n \<times> go_error option"
  suEnviron :: strmap
  suMetadata :: "'n \<Rightarrow> metadata_server"
  suGate :: bool
  suServices :: "'n services"
  suUuid :: "i64 \<Rightarrow> string"
  suEnvOrder :: "string list"
  suDeviceOrder :: "AllocatableDevices \<Rightarrow> string list"
  suCacheErr :: "go_error option"
  suManagerErr :: "go_error option"
  suKubeletStart :: "'n \<Rightarrow> 'n \<times> go_error option"
  suPublish :: "(string, Device list list) fmap \<Rightarrow> 'n \<Rightarrow> 'n \<times> go_error option"

definition RootDirectory :: string where
  "RootDirectory = ''/''"

section \<open>Network settings\<close>

record SystemSetting =
  FilePath :: string
  SettingValue :: string

definition networkSettings :: "SystemSetting list" where
  "networkSettings =
     [\<lparr>FilePath = ''proc/sys/net/ipv4/tcp_slow_start_after_idle'', SettingValue = ''0''\<rparr>,
      \<lparr>FilePath = ''proc/sys/net/ipv4/tcp_no_metrics_save'', SettingValue = ''1''\<rparr>,
      \<lparr>FilePath = ''sys/module/tcp_cubic/parameters/hystart_detect'', SettingValue = ''2''\<rparr>,
      \<lparr>FilePath = ''proc/sys/net/core/somaxconn'', SettingValue = ''4096''\<rparr>,
      \<lparr>FilePath = ''proc/sys/net/ipv4/tcp_max_syn_backlog'', SettingValue = ''4096''\<rparr>,
      \<lparr>FilePath = ''proc/sys/net/ipv4/tcp_mtu_probing'', SettingValue = ''0''\<rparr>,
      \<lparr>FilePath = ''proc/sys/net/core/optmem_max'', SettingValue = ''131072''\<rparr>]"

text \<open>The loop, and the paths that could not be written; what is read back is only logged.\<close>

fun write_settings ::
  "(string \<Rightarrow> string \<Rightarrow> 'n \<Rightarrow> 'n \<times> go_error option) \<Rightarrow> string \<Rightarrow> SystemSetting list \<Rightarrow> string list \<Rightarrow> 'n \<Rightarrow> 'n \<times> string list" where
  "write_settings writeFile parentDir [] errs n = (n, errs)"
| "write_settings writeFile parentDir (setting # settings) errs n =
     (let filePath = path_join [parentDir, FilePath setting] in
      case writeFile filePath (SettingValue setting) n of
        (n, Some e) \<Rightarrow> write_settings writeFile parentDir settings (errs @ [filePath]) n
      | (n, None) \<Rightarrow> write_settings writeFile parentDir settings errs n)"

definition applyNetworkSettings ::
  "(string \<Rightarrow> string \<Rightarrow> 'n \<Rightarrow> 'n \<times> go_error option) \<Rightarrow> string \<Rightarrow> 'n \<Rightarrow> 'n \<times> go_error option" where
  "applyNetworkSettings writeFile parentDir n =
     (case write_settings writeFile parentDir networkSettings [] n of
        (n, errs) \<Rightarrow> (n, if length errs = 0 then None else Some (Errorf (join ''; '' errs) [])))"

definition ApplyNetworkSettings :: "'n startup \<Rightarrow> 'n \<Rightarrow> 'n \<times> go_error option" where
  "ApplyNetworkSettings su n = applyNetworkSettings (suWriteFile su) RootDirectory n"

section \<open>The driver\<close>

record driver =
  drState :: DeviceState
  drChecker :: TPUHealthChecker
  drHealth :: healthBroadcaster
  drConfig :: Config
  drSharesPolicy :: consumableSharesPolicy

text \<open>\<open>NewDriver\<close> after the hardware was probed.\<close>

definition NewDriver_on :: "'n startup \<Rightarrow> Config \<Rightarrow> tpuHardware \<Rightarrow> 'n \<Rightarrow> 'n \<times> driver result" where
  "NewDriver_on su config hardware n =
     (case getTPUNodeLabels (suHost su n) (suMetadata su n) config hardware of
        Inl e \<Rightarrow> (n, Inl (ErrWrap ''failed to get TPU node labels: %w'' [] e))
      | Inr labels \<Rightarrow>
     (let n = fst (ApplyNetworkSettings su n);
          model = get labels AcceleratorLabel in
      if model = [] then (n, Inl (Errorf ''node label %s must be set'' [AcceleratorLabel]))
      else (case AcceleratorGen model of
          Inl e \<Rightarrow> (n, Inl (ErrWrap ''error fetching accelerator generation: %w'' [] e))
        | Inr gen \<Rightarrow>
     (let devDir = hwDevDirectory hardware;
          policy = resolveConsumableShares (suGate su) (consumableShares (flags config)) labels in
      case NewDeviceState (suServices su) (suUuid su) (suEnviron su) (suHost su n) (suEnvOrder su) (suCacheErr su)
             (suManagerErr su) labels devDir policy n of
        (n, Inl e) \<Rightarrow> (n, Inl e)
      | (n, Inr state) \<Rightarrow>
     (let health = newHealthBroadcaster (nodeName (flags config));
          hc = NewTPUHealthChecker (dsAllocatable state) devDir gen in
      case suKubeletStart su n of
        (n, Some e) \<Rightarrow> (n, Inl e)
      | (n, None) \<Rightarrow>
     (case GatherStateAndPublish (suPublish su) (nodeName (flags config)) policy
             (suDeviceOrder su (dsAllocatable state)) state n of
        (n, Some e) \<Rightarrow> (n, Inl e)
      | (n, None) \<Rightarrow> (n, Inr \<lparr>drState = state, drChecker = hc, drHealth = health, drConfig = config,
                              drSharesPolicy = policy\<rparr>)))))))"

definition NewDriver :: "'n startup \<Rightarrow> Config \<Rightarrow> 'n \<Rightarrow> 'n \<times> driver result" where
  "NewDriver su config n =
     (case probeTPUHardware (suHost su n) RootDirectory of
        Inl e \<Rightarrow> (n, Inl e)
      | Inr hardware \<Rightarrow> NewDriver_on su config hardware n)"

section \<open>The plugin\<close>

definition allowUnsafeInterruptsFile :: string where
  "allowUnsafeInterruptsFile = ''/sys/module/vfio_iommu_type1/parameters/allow_unsafe_interrupts''"

definition DriverPluginPath :: "Config \<Rightarrow> string" where
  "DriverPluginPath c = path_join [kubeletPluginsDirectoryPath (flags c), DriverName]"

definition make_cdi_root :: "'n startup \<Rightarrow> string \<Rightarrow> 'n \<Rightarrow> 'n \<times> go_error option" where
  "make_cdi_root su root n =
     (case suStat su root n of
        StatNotExist \<Rightarrow> suMkdirAll su root n
      | StatError e \<Rightarrow> (n, Some e)
      | StatOk isDir \<Rightarrow>
          if \<not> isDir then (n, Some (Errorf (''path for cdi file generation is not a directory: '' @ [CHR 0x27] @ ''%v'' @ [CHR 0x27]) [root]))
          else (n, None))"

definition allow_unsafe_interrupts :: "'n startup \<Rightarrow> 'n \<Rightarrow> 'n \<times> go_error option" where
  "allow_unsafe_interrupts su n =
     (case ReadFile (suHost su n) allowUnsafeInterruptsFile of
        None \<Rightarrow> (n, None)
      | Some current \<Rightarrow>
          if TrimSpace current = ''Y'' then (n, None)
          else (case suWriteFile su allowUnsafeInterruptsFile ''Y'' n of
              (n, Some e) \<Rightarrow> (n, Some (ErrWrap ''unable to allow unsafe interrupts: %w'' [] e))
            | (n, None) \<Rightarrow> (n, None)))"

text \<open>What \<open>StartPlugin\<close> does before it makes the driver.\<close>

definition prepare_host :: "'n startup \<Rightarrow> Config \<Rightarrow> 'n \<Rightarrow> 'n \<times> go_error option" where
  "prepare_host su config n =
     (case suMkdirAll su (DriverPluginPath config) n of
        (n, Some e) \<Rightarrow> (n, Some e)
      | (n, None) \<Rightarrow>
     (case make_cdi_root su (cdiRoot (flags config)) n of
        (n, Some e) \<Rightarrow> (n, Some e)
      | (n, None) \<Rightarrow> allow_unsafe_interrupts su n))"

text \<open>
  How a wait for the next attempt ends: a signal, the end of the context, or the minute is over
  and the node is in some state. The loop is run on the ends of its waits; on a node that never
  gets a TPU it goes on for as long as minutes pass (\<open>Retrying\<close>).
\<close>

datatype 'n wait_end = SignalReceived | ContextDone | MinuteOver 'n

datatype 'd outcome = Exited "go_error option" | Serving 'd | Retrying

fun driver_loop :: "('n \<Rightarrow> 'n \<times> 'd result) \<Rightarrow> 'n \<times> 'd result \<Rightarrow> 'n wait_end list \<Rightarrow> 'n \<times> 'd outcome" where
  "driver_loop newDriver (n, Inr d) waits = (n, Serving d)"
| "driver_loop newDriver (n, Inl e) waits =
     (if \<not> errors_Is e ErrNoTPUDetected then (n, Exited (Some e))
      else (case waits of
          [] \<Rightarrow> (n, Retrying)
        | SignalReceived # ws \<Rightarrow> (n, Exited None)
        | ContextDone # ws \<Rightarrow> (n, Exited None)
        | MinuteOver m # ws \<Rightarrow> driver_loop newDriver (newDriver m) ws))"

definition StartPlugin :: "'n startup \<Rightarrow> Config \<Rightarrow> 'n wait_end list \<Rightarrow> 'n \<Rightarrow> 'n \<times> driver outcome" where
  "StartPlugin su config waits n =
     (case prepare_host su config n of
        (n, Some e) \<Rightarrow> (n, Exited (Some e))
      | (n, None) \<Rightarrow> driver_loop (NewDriver su config) (NewDriver su config n) waits)"

text \<open>The action of the application, with the clients the flags give.\<close>

definition plugin_action ::
  "'n startup \<Rightarrow> Flags \<Rightarrow> (string \<Rightarrow> strmap result) result \<Rightarrow> 'n wait_end list \<Rightarrow> 'n \<Rightarrow> 'n \<times> driver outcome" where
  "plugin_action su fl clients waits n =
     (case validateConsumableShares (suGate su) (consumableShares fl) of
        Some e \<Rightarrow> (n, Exited (Some e))
      | None \<Rightarrow>
     (case clients of
        Inl e \<Rightarrow> (n, Exited (Some (ErrText ''create client: %v'' [] e)))
      | Inr core \<Rightarrow> StartPlugin su \<lparr>flags = fl, coreclient = Some core\<rparr> waits n))"

end
