(* ===== verification/StartupLife.thy ===== *)
theory StartupLife
  imports Startup
begin

text \<open>
  Properties of the start: what the network settings leave behind, how the plugin waits for a TPU,
  and what a driver that serves is made of.
\<close>

section \<open>Network settings\<close>

text \<open>\<open>os.WriteFile\<close> on a file system that refuses some paths.\<close>

definition os_WriteFile ::
  "(string \<Rightarrow> bool) \<Rightarrow> string \<Rightarrow> string \<Rightarrow> (string \<rightharpoonup> string) \<Rightarrow> (string \<rightharpoonup> string) \<times> go_error option" where
  "os_WriteFile fails path contents files =
     (if fails path then (files, Some (ErrIO path)) else (files(path \<mapsto> contents), None))"

definition setting_path :: "SystemSetting \<Rightarrow> string" where
  "setting_path s = path_join [RootDirectory, FilePath s]"

lemma write_settings_files:
  assumes "distinct (map setting_path ss)"
  shows "write_settings (os_WriteFile fails) RootDirectory ss errs files =
    (files ++ map_of (map (\<lambda>s. (setting_path s, SettingValue s)) (filter (\<lambda>s. \<not> fails (setting_path s)) ss)),
     errs @ filter fails (map setting_path ss))"
  using assms
proof (induction ss arbitrary: errs files)
  case (Cons s ss)
  let ?tail = "map_of (map (\<lambda>s. (setting_path s, SettingValue s)) (filter (\<lambda>s. \<not> fails (setting_path s)) ss))"
  have "setting_path s \<notin> dom ?tail"
    using Cons.prems by (auto simp: dom_map_of_conv_image_fst)
  note upd = map_add_upd_left [OF this]
  show ?case
  proof (cases "fails (setting_path s)")
    case True
    with Cons show ?thesis by (simp add: os_WriteFile_def setting_path_def)
  next
    case False
    then have "os_WriteFile fails (path_join [RootDirectory, FilePath s]) (SettingValue s) files =
        (files(setting_path s \<mapsto> SettingValue s), None)" by (simp add: os_WriteFile_def setting_path_def)
    moreover have "distinct (map setting_path ss)" using Cons.prems by simp
    ultimately show ?thesis
      using False upd Cons.IH [of errs "files(setting_path s \<mapsto> SettingValue s)"]
      by (simp only: write_settings.simps Let_def prod.case option.case)
        (auto simp: fun_eq_iff map_add_def split: option.splits)
  qed
qed simp

lemma setting_paths_distinct: "distinct (map setting_path networkSettings)"
  by code_simp

text \<open>Every network setting is attempted, whatever happens to the others: afterwards each file that could
  be written holds its value and no other file has changed, and the error names exactly the files
  that could not be written.\<close>

theorem applyNetworkSettings_outcome:
  "applyNetworkSettings (os_WriteFile fails) RootDirectory files =
     (files ++ map_of (map (\<lambda>s. (setting_path s, SettingValue s)) (filter (\<lambda>s. \<not> fails (setting_path s)) networkSettings)),
      if filter fails (map setting_path networkSettings) = [] then None
      else Some (Errorf (join ''; '' (filter fails (map setting_path networkSettings))) []))"
  by (simp add: applyNetworkSettings_def write_settings_files [OF setting_paths_distinct])

section \<open>Errors that are not the missing TPU\<close>

abbreviation no_tpu_error :: "go_error \<Rightarrow> bool" where
  "no_tpu_error e \<equiv> errors_Is e ErrNoTPUDetected"

lemma Atoi_other: "Atoi s = Inl e \<Longrightarrow> \<not> no_tpu_error e"
  by (auto simp: Atoi_def Let_def split: if_splits)

lemma parse_dims_other: "parse_dims t ss = Inl e \<Longrightarrow> \<not> no_tpu_error e"
  by (induction ss arbitrary: e) (auto split: sum.splits if_splits dest: Atoi_other)

lemma getTopologyDims_other: "getTopologyDims t = Inl e \<Longrightarrow> \<not> no_tpu_error e"
  by (auto simp: getTopologyDims_def Let_def split: sum.splits if_splits dest: parse_dims_other)

lemma totalChips_other: "totalChips_loop n ds = Inl e \<Longrightarrow> \<not> no_tpu_error e"
  by (induction ds arbitrary: n) (auto split: if_splits)

lemma calculateTotalChips_other: "calculateTotalChips ds = Inl e \<Longrightarrow> \<not> no_tpu_error e"
  by (auto simp: calculateTotalChips_def dest: totalChips_other)

lemma dims_other:
  "isSingleHost n ds = Inl e \<Longrightarrow> \<not> no_tpu_error e"
  "convertAcceleratorType g ds = Inl e \<Longrightarrow> \<not> no_tpu_error e"
  "calculateHostBounds n ds = Inl e \<Longrightarrow> \<not> no_tpu_error e"
  "getChipsPerHostBounds n = Inl e \<Longrightarrow> \<not> no_tpu_error e"
  "wrap g ds = Inl e \<Longrightarrow> \<not> no_tpu_error e"
  by (auto simp: isSingleHost_def convertAcceleratorType_def numCores_def calculateHostBounds_def getChipsPerHostBounds_def
      wrap_def wrapLitePod_def split: sum.splits if_splits option.splits dest: calculateTotalChips_other)

lemma AcceleratorGen_other: "AcceleratorGen a = Inl e \<Longrightarrow> \<not> no_tpu_error e"
  by (auto simp: AcceleratorGen_def checkGen_def split: if_splits)

lemma ChipCount_other: "ChipCount c = Inl e \<Longrightarrow> \<not> no_tpu_error e"
  by (auto simp: ChipCount_def split: sum.splits if_splits)

lemma InitEnvs_other: "InitEnvs environ opts = Inl e \<Longrightarrow> \<not> no_tpu_error e"
  by (auto simp: InitEnvs_def Let_def topology_envs_def addPodsliceOrSliceEnvs_def split: sum.splits if_splits prod.splits
      dest: dims_other AcceleratorGen_other getTopologyDims_other)

lemma NewTPUManager_other: "NewTPUManager environ labels devDir = Inl e \<Longrightarrow> \<not> no_tpu_error e"
  by (auto simp: NewTPUManager_def Let_def split: sum.splits
      dest: AcceleratorGen_other ChipCount_other InitEnvs_other)

lemma NewDeviceState_other:
  "NewDeviceState sv u environ fs order cacheErr managerErr labels devDir policy n = (n', Inl e) \<Longrightarrow> \<not> no_tpu_error e"
  by (auto simp: NewDeviceState_def Let_def split: sum.splits prod.splits option.splits if_splits
      dest: NewTPUManager_other)

lemma getTPUNodeLabels_other: "getTPUNodeLabels fs mds config hw = Inl e \<Longrightarrow> \<not> no_tpu_error e"
  by (auto simp: getTPUNodeLabels_def getTPUNodeLabelsFromSources_def Let_def split: if_splits)

text \<open>The kubelet plugin library does not know the driver's sentinel.\<close>

definition library_errors_foreign :: "'n startup \<Rightarrow> bool" where
  "library_errors_foreign su \<longleftrightarrow>
     (\<forall>n n' e. suKubeletStart su n = (n', Some e) \<longrightarrow> \<not> no_tpu_error e) \<and>
     (\<forall>r n n' e. suPublish su r n = (n', Some e) \<longrightarrow> \<not> no_tpu_error e)"

definition finds_tpu :: "'n startup \<Rightarrow> 'n \<Rightarrow> bool" where
  "finds_tpu su n \<longleftrightarrow> is_ok (probeTPUHardware (suHost su n) RootDirectory)"

lemma NewDriver_on_other:
  assumes "library_errors_foreign su" and "NewDriver_on su config hw n = (n', Inl e)"
  shows "\<not> no_tpu_error e"
  using assms
  by (auto simp: NewDriver_on_def Let_def library_errors_foreign_def GatherStateAndPublish_def
      split: sum.splits prod.splits option.splits if_splits
      dest: getTPUNodeLabels_other AcceleratorGen_other NewDeviceState_other)

lemma probe_error: "\<not> finds_tpu su n \<Longrightarrow> \<exists>e. NewDriver su config n = (n, Inl e) \<and> no_tpu_error e"
  by (auto simp: finds_tpu_def NewDriver_def probeTPUHardware_def Let_def split: prod.splits if_splits sum.splits)

lemma finds_other:
  assumes "library_errors_foreign su" and "finds_tpu su n" and "NewDriver su config n = (n', Inl e)"
  shows "\<not> no_tpu_error e"
  using assms(2,3) by (auto simp: finds_tpu_def NewDriver_def split: sum.splits dest: NewDriver_on_other [OF assms(1)])

section \<open>The ingredients of the witnesses\<close>

text \<open>Everything works, and what the file system shows depends on the state.\<close>

definition quiet_su :: "('n \<Rightarrow> hostfs) \<Rightarrow> 'n services \<Rightarrow> 'n startup" where
  "quiet_su host sv = \<lparr>suHost = host, suStat = (\<lambda>_ _. StatOk True), suMkdirAll = (\<lambda>_ n. (n, None)),
     suWriteFile = (\<lambda>_ _ n. (n, None)), suEnviron = Map.empty, suMetadata = (\<lambda>_. \<lparr>OnGCE = False, attempts = []\<rparr>),
     suGate = True, suServices = sv, suUuid = example_uuid, suEnvOrder = [],
     suDeviceOrder = (\<lambda>m. sorted_list_of_fset (fmdom m)), suCacheErr = None, suManagerErr = None,
     suKubeletStart = (\<lambda>n. (n, None)), suPublish = (\<lambda>_ n. (n, None))\<rparr>"

lemma quiet_settings: "fst (ApplyNetworkSettings (quiet_su host sv) n) = n"
proof -
  have "fst (write_settings (\<lambda>_ _ n. (n, None)) root ss errs m) = m" for root ss errs and m :: 'a
    by (induction ss arbitrary: errs) (simp_all add: Let_def)
  then show ?thesis
    by (simp add: ApplyNetworkSettings_def applyNetworkSettings_def quiet_su_def case_prod_unfold)
qed

definition no_tpu_host :: hostfs where
  "no_tpu_host = \<lparr>ReadDir = Map.empty, ReadFile = Map.empty\<rparr>"

text \<open>A node that shows two accel devices once its disk holds a checkpoint file \<open>tpu\<close>.\<close>

definition late_host :: "disk \<Rightarrow> hostfs" where
  "late_host d = (if fmlookup (ckFiles d) ''tpu'' = None then no_tpu_host else accel_host)"

definition late_disk :: disk where
  "late_disk = empty_disk\<lparr>ckFiles := fmupd ''tpu'' (JStr []) fmempty\<rparr>"

abbreviation late_su :: "disk startup" where
  "late_su \<equiv> quiet_su late_host (disk_services example_ck no_faults)"

definition startup_flags :: Flags where
  "startup_flags = \<lparr>nodeName = ''node-1'', cdiRoot = ''/etc/cdi'', kubeletPluginsDirectoryPath = ''/var/lib/kubelet/plugins'',
     consumableShares = ''unlimited'', tpuAccelerator = ''tpu-v4-podslice'', tpuChipCount = [], tpuTopology = [],
     tpuICIResiliency = [], tpuEnvFilePath = []\<rparr>"

definition example_config :: Config where
  "example_config = \<lparr>flags = startup_flags, coreclient = Some (\<lambda>_. Inr Map.empty)\<rparr>"

definition example_labels :: "strmap result" where
  "example_labels = getTPUNodeLabels accel_host \<lparr>OnGCE = False, attempts = []\<rparr> example_config
     \<lparr>hwDevDirectory = devDirectory, hwDeviceRegex = accelDeviceRegex, hwChipCount = 2, hwGeneration = []\<rparr>"

lemma accel_probe: "probeTPUHardware accel_host RootDirectory =
    Inr \<lparr>hwDevDirectory = devDirectory, hwDeviceRegex = accelDeviceRegex, hwChipCount = 2, hwGeneration = []\<rparr>"
proof -
  have "countAccelDevices accel_host (path_join [RootDirectory, devDirectory]) = 2" by code_simp
  then show ?thesis by (simp add: probeTPUHardware_def)
qed

lemma no_tpu_probe: "isl (probeTPUHardware no_tpu_host RootDirectory)"
  by code_simp

lemma late_finds: "finds_tpu (quiet_su late_host sv) d \<longleftrightarrow> fmlookup (ckFiles d) ''tpu'' \<noteq> None"
  using no_tpu_probe by (auto simp: finds_tpu_def quiet_su_def late_host_def accel_probe)

lemma quiet_foreign: "library_errors_foreign (quiet_su host sv)"
  by (simp add: library_errors_foreign_def quiet_su_def)

lemma quiet_prepare:
  assumes "\<And>d. ReadFile (host d) allowUnsafeInterruptsFile = None"
  shows "prepare_host (quiet_su host sv) config n = (n, None)"
  using assms by (simp add: prepare_host_def quiet_su_def make_cdi_root_def allow_unsafe_interrupts_def)

lemma late_prepare: "prepare_host (quiet_su late_host sv) config n = (n, None)"
  by (rule quiet_prepare) (simp add: late_host_def no_tpu_host_def accel_host_def)

section \<open>Waiting for a TPU\<close>

lemma driver_loop_waits:
  assumes "\<forall>m\<in>set (n # ms). \<not> finds_tpu su m"
  shows "driver_loop (NewDriver su config) (NewDriver su config n) (map MinuteOver ms @ ws) =
    driver_loop (NewDriver su config) (NewDriver su config (last (n # ms))) ws"
  using assms
proof (induction ms arbitrary: n)
  case (Cons m ms)
  from probe_error [of su n config] Cons.prems obtain e where "NewDriver su config n = (n, Inl e)" "no_tpu_error e" by auto
  with Cons show ?case by simp
qed simp

lemma driver_loop_found:
  assumes "library_errors_foreign su" and "finds_tpu su m"
  shows "driver_loop (NewDriver su config) (NewDriver su config m) ws =
    (fst (NewDriver su config m),
     case snd (NewDriver su config m) of Inl e \<Rightarrow> Exited (Some e) | Inr dr \<Rightarrow> Serving dr)"
proof -
  obtain m' r where run: "NewDriver su config m = (m', r)" by force
  show ?thesis
  proof (cases r)
    case (Inl e)
    with finds_other [OF assms, of config m' e] run show ?thesis by simp
  qed (simp add: run)
qed

text \<open>C26 (liveness). A node without a TPU neither fails nor gives up, and is left alone: while no attempt finds a TPU the
  plugin keeps waiting, it leaves the node as it is, and a signal or the end of its context ends it
  without an error.\<close>

theorem plugin_waits_without_tpu:
  assumes "prepare_host su config n = (n0, None)" and "\<forall>m\<in>set (n0 # ms). \<not> finds_tpu su m"
  shows "StartPlugin su config (map MinuteOver ms) n = (last (n0 # ms), Retrying) \<and>
    StartPlugin su config (map MinuteOver ms @ SignalReceived # ws) n = (last (n0 # ms), Exited None) \<and>
    StartPlugin su config (map MinuteOver ms @ ContextDone # ws) n = (last (n0 # ms), Exited None)"
proof -
  have "last (n0 # ms) \<in> set (n0 # ms)" by (rule last_in_set) simp
  with assms(2) probe_error [of su "last (n0 # ms)" config] obtain e
    where "NewDriver su config (last (n0 # ms)) = (last (n0 # ms), Inl e)" "no_tpu_error e" by blast
  with driver_loop_waits [OF assms(2), of config] driver_loop_waits [OF assms(2), of config "[]"] assms(1)
  show ?thesis by (simp add: StartPlugin_def)
qed

lemma plugin_waits_without_tpu_witness:
  "StartPlugin late_su example_config (map MinuteOver [empty_disk] @ SignalReceived # []) empty_disk = (empty_disk, Exited None)"
proof -
  have "\<forall>m\<in>set (empty_disk # [empty_disk]). \<not> finds_tpu late_su m"
    by (simp add: late_finds empty_disk_def)
  from plugin_waits_without_tpu [OF late_prepare this, of example_config "[]"] show ?thesis by simp
qed

text \<open>C27 (liveness). The first attempt that finds a TPU is the last: the plugin then serves if the driver can be made and
  ends with that attempt's error otherwise, however long it had waited.\<close>

theorem plugin_starts_when_tpu_appears:
  assumes "prepare_host su config n = (n0, None)" and "library_errors_foreign su"
    and "n0 # ms = without @ m # later" and "\<forall>k\<in>set without. \<not> finds_tpu su k" and "finds_tpu su m"
  shows "StartPlugin su config (map MinuteOver ms) n =
    (fst (NewDriver su config m),
     case snd (NewDriver su config m) of Inl e \<Rightarrow> Exited (Some e) | Inr dr \<Rightarrow> Serving dr)"
proof (cases without)
  case Nil
  with assms driver_loop_found [OF assms(2,5)] show ?thesis by (simp add: StartPlugin_def)
next
  case (Cons k ks)
  with assms(3) have k: "k = n0" and ms: "ms = ks @ m # later" by simp_all
  have "\<forall>k\<in>set (n0 # ks). \<not> finds_tpu su k" using assms(4) Cons k by simp
  note waits = driver_loop_waits [OF this, of config "MinuteOver m # map MinuteOver later"]
  have "last (n0 # ks) \<in> set (n0 # ks)" by (rule last_in_set) simp
  with assms(4) Cons k probe_error [of su "last (n0 # ks)" config] obtain e
    where "NewDriver su config (last (n0 # ks)) = (last (n0 # ks), Inl e)" "no_tpu_error e" by blast
  with waits driver_loop_found [OF assms(2,5), of config] assms(1) show ?thesis
    by (simp add: StartPlugin_def ms)
qed

text \<open>Where the host shows the accel devices the driver comes up.\<close>

lemma accel_driver:
  assumes host: "host d = accel_host"
  shows "\<exists>d' dr. NewDriver (quiet_su host (disk_services example_ck no_faults)) example_config d = (d', Inr dr)"
proof -
  have "is_ok example_labels" by code_simp
  then obtain labels where labels: "example_labels = Inr labels" by (auto simp: result_simps)
  have "map (get (projr example_labels)) [AcceleratorLabel, AcceleratorCountLabel, TopologyLabel, ICIResiliency] =
      [''tpu-v4-podslice'', ''2'', ''1x2'', []]" by code_simp
  then have g: "get labels AcceleratorLabel = ''tpu-v4-podslice''" "get labels AcceleratorCountLabel = ''2''"
    "get labels TopologyLabel = ''1x2''" "get labels ICIResiliency = []"
    unfolding labels by simp_all
  have "is_ok (InitEnvs Map.empty \<lparr>Accelerator = ''tpu-v4-podslice'', Topology_opt = ''1x2'', EnableICIResiliency = [],
      ChipCount_opt = 2, AcceleratorCount = 2, RequestedChipCount = 2, SubSliceTopology = [],
      IsPriviledged = False, VisibleChipIds = [], EnableDeviceSpreading = False, NumaNodeIds = []\<rparr>)" by code_simp
  then obtain tm where tm: "NewTPUManager Map.empty labels ''/dev'' = Inr tm"
    by (auto simp: NewTPUManager_def Let_def g start_get result_simps)
  have "ChipCount (get labels AcceleratorCountLabel) = Inr 2" by (simp add: g start_get)
  note st = accel_host_starts [OF tm this]
  obtain d' s where "NewDeviceState (disk_services example_ck no_faults) example_uuid Map.empty accel_host [] None None
      labels ''/dev'' (resolveConsumableShares True (consumableShares (flags example_config)) labels) d = (d', Inr s)"
    using st by blast
  moreover have "getTPUNodeLabels accel_host \<lparr>OnGCE = False, attempts = []\<rparr> example_config
      \<lparr>hwDevDirectory = devDirectory, hwDeviceRegex = accelDeviceRegex, hwChipCount = 2, hwGeneration = []\<rparr> = Inr labels"
    using labels by (simp add: example_labels_def)
  ultimately show ?thesis
    using quiet_settings [of host "disk_services example_ck no_faults" d]
    by (simp add: NewDriver_def NewDriver_on_def quiet_su_def host accel_probe g start_get Let_def devDirectory_def
        GatherStateAndPublish_def)
qed

lemma example_driver: "\<exists>d' dr. NewDriver late_su example_config late_disk = (d', Inr dr)"
  by (rule accel_driver) (simp add: late_host_def late_disk_def)

lemma plugin_starts_when_tpu_appears_witness:
  "\<exists>d' dr. StartPlugin late_su example_config (map MinuteOver [empty_disk, late_disk]) empty_disk = (d', Serving dr)"
proof -
  have split: "empty_disk # [empty_disk, late_disk] = [empty_disk, empty_disk] @ late_disk # []" by simp
  have without: "\<forall>k\<in>set [empty_disk, empty_disk]. \<not> finds_tpu late_su k" by (simp add: late_finds empty_disk_def)
  have found: "finds_tpu late_su late_disk" by (simp add: late_finds late_disk_def)
  from plugin_starts_when_tpu_appears [OF late_prepare quiet_foreign split without found] example_driver
  show ?thesis by auto
qed

section \<open>A driver that serves\<close>

lemma NewDriver_Inr:
  assumes "NewDriver su config n = (n', Inr dr)"
  obtains hw labels gen d1 n1 where "probeTPUHardware (suHost su n) RootDirectory = Inr hw"
    and "getTPUNodeLabels (suHost su n) (suMetadata su n) config hw = Inr labels"
    and "AcceleratorGen (get labels AcceleratorLabel) = Inr gen"
    and "n1 = fst (ApplyNetworkSettings su n)"
    and "NewDeviceState (suServices su) (suUuid su) (suEnviron su) (suHost su n1) (suEnvOrder su) (suCacheErr su)
      (suManagerErr su) labels (hwDevDirectory hw) (drSharesPolicy dr) n1 = (d1, Inr (drState dr))"
    and "drSharesPolicy dr = resolveConsumableShares (suGate su) (consumableShares (flags config)) labels"
    and "drChecker dr = NewTPUHealthChecker (dsAllocatable (drState dr)) (hwDevDirectory hw) gen"
    and "drHealth dr = newHealthBroadcaster (nodeName (flags config))"
proof -
  obtain hw where hw: "probeTPUHardware (suHost su n) RootDirectory = Inr hw"
    and on: "NewDriver_on su config hw n = (n', Inr dr)"
    using assms by (auto simp: NewDriver_def split: sum.splits)
  obtain labels where labels: "getTPUNodeLabels (suHost su n) (suMetadata su n) config hw = Inr labels"
    using on by (auto simp: NewDriver_on_def split: sum.splits)
  obtain gen where gen: "AcceleratorGen (get labels AcceleratorLabel) = Inr gen"
    using on labels by (auto simp: NewDriver_on_def Let_def split: sum.splits if_splits)
  let ?n1 = "fst (ApplyNetworkSettings su n)"
  let ?policy = "resolveConsumableShares (suGate su) (consumableShares (flags config)) labels"
  obtain d1 s where st: "NewDeviceState (suServices su) (suUuid su) (suEnviron su) (suHost su ?n1) (suEnvOrder su)
      (suCacheErr su) (suManagerErr su) labels (hwDevDirectory hw) ?policy ?n1 = (d1, Inr s)"
    using on labels gen by (auto simp: NewDriver_on_def Let_def split: sum.splits prod.splits if_splits)
  from on labels gen st have "dr = \<lparr>drState = s, drChecker = NewTPUHealthChecker (dsAllocatable s) (hwDevDirectory hw) gen,
      drHealth = newHealthBroadcaster (nodeName (flags config)), drConfig = config, drSharesPolicy = ?policy\<rparr>"
    by (auto simp: NewDriver_on_def Let_def split: prod.splits option.splits if_splits)
  then show thesis using that [OF hw labels gen refl] st by simp
qed

text \<open>What every state the driver makes has in common, whatever the services are.\<close>

lemma NewDeviceState_parts:
  assumes "NewDeviceState sv u environ fs order cacheErr managerErr labels devDir policy n = (n', Inr s)"
  obtains tm where "dsTm s = Some tm" and "nodeLabels tm = labels" and "DevDirectory tm = devDir"
    and "dsSharesPolicy s = policy"
proof -
  obtain tm tm' devs where tm: "NewTPUManager environ labels devDir = Inr tm"
    and e: "enumerateAllPossibleTpuDevices u environ fs tm = Inr (devs, tm')"
    and s: "s = \<lparr>dsAllocatable = devs, dsTm = Some tm', dsSharesPolicy = policy, dsTpuLogDir = tpuLogDir tm'\<rparr>"
    using assms by (auto simp: NewDeviceState_def Let_def split: sum.splits prod.splits option.splits if_splits)
  have "tm' = tm\<lparr>devices := devs\<rparr>" using e by (auto simp: enumerate_Inr_iff)
  with NewTPUManager_Inr [OF tm] s show thesis by (intro that [of tm']) simp_all
qed

lemma driver_loop_Serving:
  "driver_loop newDriver r ws = (n', Serving dr) \<Longrightarrow> \<exists>m. r = (n', Inr dr) \<or> newDriver m = (n', Inr dr)"
  by (induction newDriver r ws rule: driver_loop.induct) (auto split: if_splits list.splits wait_end.splits)

lemma StartPlugin_Serving:
  assumes "StartPlugin su config waits n = (n', Serving dr)"
  obtains m where "NewDriver su config m = (n', Inr dr)"
proof -
  obtain n0 where "driver_loop (NewDriver su config) (NewDriver su config n0) waits = (n', Serving dr)"
    using assms by (auto simp: StartPlugin_def split: prod.splits option.splits)
  from driver_loop_Serving [OF this] that show thesis by blast
qed

lemma healthy_report:
  assumes "\<And>k dev. fmlookup (dsAllocatable s) k = Some dev \<Longrightarrow> allocatable dev \<and> adName dev = k"
    and "map_order (dsAllocatable s) order"
  shows "buildReport b now order s =
    map (\<lambda>k. \<lparr>dhPoolName = hbPoolName b, dhDeviceName = k, dhHealth = HealthStatusHealthy,
                dhLastUpdated = now k, dhMessage = ''TPU device file is present''\<rparr>) order"
proof -
  have "\<exists>dev. fmlookup (dsAllocatable s) k = Some dev \<and> allocatable dev" if "k \<in> set order" for k
  proof -
    from that assms(2) have "k |\<in>| fmdom (dsAllocatable s)" by (metis map_order_def fset_of_list_elem)
    with assms(1) show ?thesis by (auto simp: fmlookup_dom_iff)
  qed
  then show ?thesis by (induction order) (fastforce simp: buildReport_def range_over_def)+
qed

text \<open>C25 (type). A driver that is made is sound. Its state is well formed: its chips are the files of the probed
  directory that the manager's regex matches, and it tears down by the policy the driver publishes
  with. The checker has a copy of the same devices and looks in the same directory, for the
  generation of the node's label. The broadcaster has no subscriber yet, and its report lists
  every chip once, healthy, under the pool of the node's name.\<close>

theorem NewDriver_outcome:
  assumes "NewDriver su config n = (n', Inr dr)" and "suServices su = disk_services ck i"
    and "probeTPUHardware (suHost su n) RootDirectory = Inr hw"
    and "ReadDir (suHost su (fst (ApplyNetworkSettings su n))) (hwDevDirectory hw) = Some files"
    and "distinct (map Name files)" and "length files < 2 ^ 63"
  shows "state_ok (drState dr) \<and> devices_named (drState dr) \<and> dsSharesPolicy (drState dr) = drSharesPolicy dr \<and>
    (\<exists>tm. dsTm (drState dr) = Some tm \<and> DevDirectory tm = hwDevDirectory hw \<and>
       chips (drState dr) = set (tpu_files (deviceRegex tm) files) \<and>
       AcceleratorGen (get (nodeLabels tm) AcceleratorLabel) = Inr (hcTpuGen (drChecker dr))) \<and>
    hcDevices (drChecker dr) = dsAllocatable (drState dr) \<and> hcDevDirectory (drChecker dr) = hwDevDirectory hw \<and>
    hbSubscribers (drHealth dr) = [] \<and>
    (\<forall>now order. map_order (dsAllocatable (drState dr)) order \<longrightarrow>
       buildReport (drHealth dr) now order (drState dr) =
         map (\<lambda>k. \<lparr>dhPoolName = nodeName (flags config), dhDeviceName = k, dhHealth = HealthStatusHealthy,
                     dhLastUpdated = now k, dhMessage = ''TPU device file is present''\<rparr>) order)"
proof (rule NewDriver_Inr [OF assms(1)])
  fix hw' labels gen d1 n1
  assume p: "probeTPUHardware (suHost su n) RootDirectory = Inr hw'" "n1 = fst (ApplyNetworkSettings su n)"
    and gen: "AcceleratorGen (get labels AcceleratorLabel) = Inr gen"
    and st: "NewDeviceState (suServices su) (suUuid su) (suEnviron su) (suHost su n1) (suEnvOrder su) (suCacheErr su)
      (suManagerErr su) labels (hwDevDirectory hw') (drSharesPolicy dr) n1 = (d1, Inr (drState dr))"
    and hc: "drChecker dr = NewTPUHealthChecker (dsAllocatable (drState dr)) (hwDevDirectory hw') gen"
    and hb: "drHealth dr = newHealthBroadcaster (nodeName (flags config))"
  have hw: "hw' = hw" using p(1) assms(3) by simp
  have dir: "hwDevDirectory hw \<noteq> []"
    using assms(3) by (auto simp: probeTPUHardware_def Let_def devDirectory_def devDirectoryVfio_def split: prod.splits if_splits)
  note st' = st [unfolded assms(2) hw p(2)]
  note ok = NewDeviceState_state_ok [OF st' dsk.claim_services_axioms assms(4-6) dir]
  note devs = NewDeviceState_devices [OF st']
  obtain tm where tm: "dsTm (drState dr) = Some tm" "nodeLabels tm = labels" "DevDirectory tm = hwDevDirectory hw"
    "chips (drState dr) = set (tpu_files (deviceRegex tm) files)" "dsSharesPolicy (drState dr) = drSharesPolicy dr"
    by (rule NewDeviceState_chips [OF st' dsk.claim_services_axioms assms(4,5)], rule that)
  note report = healthy_report [OF devs]
  show ?thesis
    using ok devs tm gen report
    by (simp add: hc hb hw NewTPUHealthChecker_def newHealthBroadcaster_def devices_named_def)
qed

lemma NewDriver_outcome_witness:
  "\<exists>d' dr. NewDriver late_su example_config late_disk = (d', Inr dr) \<and> state_ok (drState dr) \<and> devices_named (drState dr)"
proof -
  obtain d' dr where run: "NewDriver late_su example_config late_disk = (d', Inr dr)" using example_driver by blast
  have host: "suHost late_su d = accel_host" if "d = late_disk" for d
    using that by (simp add: quiet_su_def late_host_def late_disk_def)
  have "suServices late_su = disk_services example_ck no_faults" by (simp add: quiet_su_def)
  moreover have "ReadDir (suHost late_su (fst (ApplyNetworkSettings late_su late_disk))) devDirectory = Some accel_files"
    by (simp add: quiet_settings host accel_host_def devDirectory_def)
  moreover have "distinct (map Name accel_files)" "length accel_files < 2 ^ 63" by (simp_all add: accel_files_def)
  moreover have "probeTPUHardware (suHost late_su late_disk) RootDirectory =
      Inr \<lparr>hwDevDirectory = devDirectory, hwDeviceRegex = accelDeviceRegex, hwChipCount = 2, hwGeneration = []\<rparr>"
    by (simp add: host accel_probe)
  ultimately show ?thesis
    using NewDriver_outcome [OF run, of example_ck no_faults] run by fastforce
qed

text \<open>A serving driver advertises and tears down by one policy: the state it cleans up with has the policy
  it publishes with, and chips are shared exactly when the flag asks for it and the labels the
  state was built from describe a single host. (Whether the gate is on was settled when the flag was
  validated.)\<close>

theorem serving_policy_is_consistent:
  assumes "plugin_action su fl clients waits n = (n', Serving dr)"
  shows "\<exists>tm. dsTm (drState dr) = Some tm \<and> dsSharesPolicy (drState dr) = drSharesPolicy dr \<and>
    (enabled (drSharesPolicy dr) \<longleftrightarrow>
       TrimSpace (consumableShares fl) \<noteq> [] \<and> TrimSpace (consumableShares fl) \<noteq> consumableSharesDisabled \<and>
       isSingleHostNode (nodeLabels tm))"
proof -
  from assms obtain core where valid: "validateConsumableShares (suGate su) (consumableShares fl) = None"
    and run: "StartPlugin su \<lparr>flags = fl, coreclient = Some core\<rparr> waits n = (n', Serving dr)"
    by (auto simp: plugin_action_def split: option.splits sum.splits)
  from run obtain m where m: "NewDriver su \<lparr>flags = fl, coreclient = Some core\<rparr> m = (n', Inr dr)"
    by (rule StartPlugin_Serving)
  show ?thesis
  proof (rule NewDriver_Inr [OF m])
    fix hw labels gen d1 n1
    assume st: "NewDeviceState (suServices su) (suUuid su) (suEnviron su) (suHost su n1) (suEnvOrder su) (suCacheErr su)
        (suManagerErr su) labels (hwDevDirectory hw) (drSharesPolicy dr) n1 = (d1, Inr (drState dr))"
      and policy: "drSharesPolicy dr = resolveConsumableShares (suGate su)
        (consumableShares (flags \<lparr>flags = fl, coreclient = Some core\<rparr>)) labels"
    obtain tm where "dsTm (drState dr) = Some tm" "nodeLabels tm = labels" "dsSharesPolicy (drState dr) = drSharesPolicy dr"
      by (rule NewDeviceState_parts [OF st], rule that)
    moreover have "enabled (drSharesPolicy dr) \<longleftrightarrow> TrimSpace (consumableShares fl) \<noteq> [] \<and>
        TrimSpace (consumableShares fl) \<noteq> consumableSharesDisabled \<and> isSingleHostNode labels"
      using valid policy
      by (auto simp: validateConsumableShares_def resolveConsumableShares_def noShares_def Let_def split: if_splits sum.splits)
    ultimately show ?thesis by auto
  qed
qed

lemma serving_policy_is_consistent_witness:
  "\<exists>d' dr. plugin_action late_su startup_flags (Inr (\<lambda>_. Inr Map.empty)) [] late_disk = (d', Serving dr) \<and>
     dsSharesPolicy (drState dr) = drSharesPolicy dr"
proof -
  obtain d' dr where run: "NewDriver late_su example_config late_disk = (d', Inr dr)" using example_driver by blast
  have "validateConsumableShares True ''unlimited'' = None" by code_simp
  then have "plugin_action late_su startup_flags (Inr (\<lambda>_. Inr Map.empty)) [] late_disk = (d', Serving dr)"
    using run late_prepare [of "disk_services example_ck no_faults" example_config late_disk]
    by (simp add: plugin_action_def StartPlugin_def example_config_def quiet_su_def startup_flags_def)
  from serving_policy_is_consistent [OF this] this show ?thesis by blast
qed

end
