(* ===== verification/FeatureGates.thy ===== *)
theory FeatureGates
  imports GoNumbers
begin

text \<open>
  The feature gates of pkg/featuregates: the registry of the driver's gate and the logging gates,
  what the \<open>--feature-gates\<close> flag does to it, and the question \<open>Enabled\<close>. The registry itself is
  the versioned feature gate of the vendored k8s.io/component-base, translated as far as this driver
  reaches it (adding versioned features, setting them from a map or a flag value, asking; no
  dependency between features is ever added, so that check has nothing to look at). A Go map is
  ranged over in any order: \<open>order\<close> gives the one of each map.
\<close>

section \<open>Versions\<close>

datatype version = MajorMinor nat nat

fun version_pair :: "version \<Rightarrow> nat \<times> nat" where
  "version_pair (MajorMinor a b) = (a, b)"

instantiation version :: linorder
begin

fun less_version :: "version \<Rightarrow> version \<Rightarrow> bool" where
  "less_version (MajorMinor a b) (MajorMinor c d) \<longleftrightarrow> a < c \<or> a = c \<and> b < d"

fun less_eq_version :: "version \<Rightarrow> version \<Rightarrow> bool" where
  "less_eq_version (MajorMinor a b) (MajorMinor c d) \<longleftrightarrow> a < c \<or> a = c \<and> b \<le> d"

instance
proof
  fix x y z :: version
  show "x < y \<longleftrightarrow> x \<le> y \<and> \<not> y \<le> x" by (cases x; cases y) auto
  show "x \<le> x" by (cases x) simp
  show "x \<le> y \<Longrightarrow> y \<le> z \<Longrightarrow> x \<le> z" by (cases x; cases y; cases z) auto
  show "x \<le> y \<Longrightarrow> y \<le> x \<Longrightarrow> x = y" by (cases x; cases y) auto
  show "x \<le> y \<or> y \<le> x" by (cases x; cases y) auto
qed

end

fun SubtractMinor :: "version \<Rightarrow> nat \<Rightarrow> version" where
  "SubtractMinor (MajorMinor a b) d = MajorMinor a (b - d)"

fun version_string :: "version \<Rightarrow> string" where
  "version_string (MajorMinor a b) = nat_digits a @ ''.'' @ nat_digits b"

section \<open>Specifications of features\<close>

datatype prerelease = PreAlpha | Alpha | Beta | GA | Deprecated

fun prerelease_string :: "prerelease \<Rightarrow> string" where
  "prerelease_string PreAlpha = ''PRE-ALPHA''"
| "prerelease_string Alpha = ''ALPHA''"
| "prerelease_string Beta = ''BETA''"
| "prerelease_string GA = []"
| "prerelease_string Deprecated = ''DEPRECATED''"

record FeatureSpec =
  spDefault :: bool
  spLockToDefault :: bool
  spPreRelease :: prerelease
  spVersion :: version
  spMinCompatibility :: "version option"

type_synonym features = "(string \<times> FeatureSpec list) list"
type_synonym settings = "string \<rightharpoonup> bool"

definition feature_spec :: "bool \<Rightarrow> prerelease \<Rightarrow> version \<Rightarrow> FeatureSpec" where
  "feature_spec b p v = \<lparr>spDefault = b, spLockToDefault = False, spPreRelease = p, spVersion = v, spMinCompatibility = None\<rparr>"

definition ConsumableShares :: string where "ConsumableShares = ''ConsumableShares''"
definition ContextualLogging :: string where "ContextualLogging = ''ContextualLogging''"
definition LoggingAlphaOptions :: string where "LoggingAlphaOptions = ''LoggingAlphaOptions''"
definition LoggingBetaOptions :: string where "LoggingBetaOptions = ''LoggingBetaOptions''"
definition allAlphaGate :: string where "allAlphaGate = ''AllAlpha''"
definition allBetaGate :: string where "allBetaGate = ''AllBeta''"

lemmas gate_names = ConsumableShares_def ContextualLogging_def LoggingAlphaOptions_def LoggingBetaOptions_def
  allAlphaGate_def allBetaGate_def

definition defaultFeatures :: features where
  "defaultFeatures = [(allAlphaGate, [feature_spec False Alpha (MajorMinor 0 0)]),
                      (allBetaGate, [feature_spec False Beta (MajorMinor 0 0)])]"

definition loggingFeatureGates :: features where
  "loggingFeatureGates =
     [(ContextualLogging, [feature_spec False Alpha (MajorMinor 1 24), feature_spec True Beta (MajorMinor 1 30)]),
      (LoggingAlphaOptions, [feature_spec False Alpha (MajorMinor 1 24)]),
      (LoggingBetaOptions, [feature_spec True Beta (MajorMinor 1 24)])]"

definition defaultFeatureGates :: features where
  "defaultFeatureGates = [(ConsumableShares, [feature_spec False Alpha (MajorMinor 0 3)])]"

definition featureGateEmulationVersion :: version where
  "featureGateEmulationVersion = MajorMinor 1 37"

text \<open>The specification in force: the last one whose versions are not above the emulated ones.\<close>

fun last_spec :: "version \<Rightarrow> version \<Rightarrow> FeatureSpec list \<Rightarrow> FeatureSpec option" where
  "last_spec emu mc [] = None"
| "last_spec emu mc (s # ss) =
     (case last_spec emu mc ss of
        Some t \<Rightarrow> Some t
      | None \<Rightarrow>
          if spVersion s > emu then None
          else (case spMinCompatibility s of
              Some m \<Rightarrow> if \<not> mc \<ge> m then None else Some s
            | None \<Rightarrow> Some s))"

definition featureSpecAt :: "FeatureSpec list \<Rightarrow> version \<Rightarrow> version \<Rightarrow> FeatureSpec" where
  "featureSpecAt v emu mc =
     (case last_spec emu mc v of None \<Rightarrow> feature_spec False PreAlpha (MajorMinor 0 0) | Some s \<Rightarrow> s)"

section \<open>The registry\<close>

record featureGate =
  fgKnown :: "string \<rightharpoonup> FeatureSpec list"
  fgEnabled :: settings
  fgEnabledRaw :: settings
  fgClosed :: bool
  fgEmulation :: version
  fgMinCompatibility :: version

definition NewVersionedFeatureGate :: "version \<Rightarrow> featureGate" where
  "NewVersionedFeatureGate v =
     \<lparr>fgKnown = map_of defaultFeatures, fgEnabled = Map.empty, fgEnabledRaw = Map.empty, fgClosed = False,
      fgEmulation = v, fgMinCompatibility = SubtractMinor v 1\<rparr>"

text \<open>An aggregate of errors is the list of them; the empty list is the nil error.\<close>

type_synonym aggregate = "go_error list"

definition bool_string :: "bool \<Rightarrow> string" where
  "bool_string b = (if b then ''true'' else ''false'')"

text \<open>
  \<open>AddVersioned\<close>: the checks of one specification against the ones before it (\<open>scLast\<close> is the
  completed last one, none before the first), the completed list, the loop over the features.
\<close>

record spec_scan =
  scLast :: "FeatureSpec option"
  scBeta :: bool
  scGA :: bool
  scDeprecated :: bool
  scLocked :: bool
  scCompleted :: "FeatureSpec list"

definition no_specs :: spec_scan where
  "no_specs = \<lparr>scLast = None, scBeta = False, scGA = False, scDeprecated = False, scLocked = False, scCompleted = []\<rparr>"

definition min_compatibility_error :: "string \<Rightarrow> spec_scan \<Rightarrow> FeatureSpec \<Rightarrow> go_error option" where
  "min_compatibility_error name sc spec =
     (case spMinCompatibility spec of
        None \<Rightarrow> None
      | Some m \<Rightarrow>
          if (case scLast sc of None \<Rightarrow> True | Some l \<Rightarrow> spVersion spec \<noteq> spVersion l) then
            Some (Errorf ''feature %q specified MinCompatibilityVersion: %s without a preceding entry at the same Version without MinCompatibilityVersion set''
              [name, version_string m])
          else if m > spVersion spec then
            Some (Errorf ''feature %q MinCompatibilityVersion %s greater than Version %s''
              [name, version_string m, version_string (spVersion spec)])
          else None)"

definition same_version_error :: "string \<Rightarrow> FeatureSpec \<Rightarrow> FeatureSpec \<Rightarrow> go_error option" where
  "same_version_error name l spec =
     (if spVersion spec \<noteq> spVersion l then None
      else if spMinCompatibility spec = spMinCompatibility l then
        Some (Errorf ''feature %q lists duplicate entries with the same versions (%s = %s)''
          [name, version_string (spVersion spec), version_string (spVersion l)])
      else if spPreRelease spec \<noteq> spPreRelease l then
        Some (Errorf ''feature %q lists stability changes with the same version (%s -> %s)''
          [name, prerelease_string (spPreRelease l), prerelease_string (spPreRelease spec)])
      else if spLockToDefault spec \<noteq> spLockToDefault l then
        Some (Errorf ''feature %q lists locked to default changes with the same version (%v -> %v)''
          [name, bool_string (spLockToDefault l), bool_string (spLockToDefault spec)])
      else None)"

definition stability_error :: "string \<Rightarrow> spec_scan \<Rightarrow> FeatureSpec \<Rightarrow> FeatureSpec \<Rightarrow> go_error option" where
  "stability_error name sc l spec =
     (if spPreRelease spec = spPreRelease l \<and> spDefault spec = spDefault l \<and> spLockToDefault spec = spLockToDefault l then
        Some (Errorf ''feature %q lists transition without stability change (%s -> %s)''
          [name, version_string (spVersion l), version_string (spVersion spec)])
      else if scLocked sc \<and> \<not> spLockToDefault spec then
        Some (Errorf ''feature %q must not unlock after locking to default'' [name])
      else if spPreRelease spec \<noteq> Deprecated \<and> scDeprecated sc then
        Some (Errorf ''deprecated feature %q must not resurrect from its terminal state'' [name])
      else if spPreRelease spec = Alpha \<and> (scBeta sc \<or> scGA sc) \<or> spPreRelease spec = Beta \<and> scGA sc then
        Some (Errorf ''feature %q regresses stability from more stable level to %s in %s''
          [name, prerelease_string (spPreRelease spec), version_string (spVersion spec)])
      else None)"

definition transition_error :: "string \<Rightarrow> spec_scan \<Rightarrow> FeatureSpec \<Rightarrow> FeatureSpec \<Rightarrow> go_error option" where
  "transition_error name sc l spec =
     (if spVersion spec < spVersion l then
        Some (Errorf ''feature %q lists version transitions in decreasing order (%s < %s)''
          [name, version_string (spVersion spec), version_string (spVersion l)])
      else (case (spMinCompatibility spec, spMinCompatibility l) of
          (Some m, Some k) \<Rightarrow>
            if m < k then Some (Errorf ''feature %q lists min compatibility version transitions in decreasing order (%s < %s)''
              [name, version_string m, version_string k])
            else (case same_version_error name l spec of Some e \<Rightarrow> Some e | None \<Rightarrow> stability_error name sc l spec)
        | _ \<Rightarrow> (case same_version_error name l spec of Some e \<Rightarrow> Some e | None \<Rightarrow> stability_error name sc l spec)))"

fun version_minor :: "version \<Rightarrow> nat" where
  "version_minor (MajorMinor a b) = b"

definition spec_error :: "string \<Rightarrow> spec_scan \<Rightarrow> FeatureSpec \<Rightarrow> go_error option" where
  "spec_error name sc spec =
     (case min_compatibility_error name sc spec of
        Some e \<Rightarrow> Some e
      | None \<Rightarrow>
     (case scLast sc of
        None \<Rightarrow>
          if spPreRelease spec = Deprecated \<and> version_minor (spVersion spec) \<noteq> 0 then
            Some (Errorf ''feature %q introduced as deprecated must provide a 1.0 entry indicating initial state'' [name])
          else None
      | Some l \<Rightarrow> transition_error name sc l spec))"

definition next_spec :: "spec_scan \<Rightarrow> FeatureSpec \<Rightarrow> spec_scan" where
  "next_spec sc spec =
     (let completed = (case (spMinCompatibility spec, scLast sc) of
            (None, Some l) \<Rightarrow> spec\<lparr>spMinCompatibility := spMinCompatibility l\<rparr> | _ \<Rightarrow> spec) in
      \<lparr>scLast = Some completed, scBeta = (scBeta sc \<or> spPreRelease spec = Beta), scGA = (scGA sc \<or> spPreRelease spec = GA),
       scDeprecated = (scDeprecated sc \<or> spPreRelease spec = Deprecated),
       scLocked = (scLocked sc \<or> spLockToDefault spec), scCompleted = scCompleted sc @ [completed]\<rparr>)"

fun complete_specs :: "string \<Rightarrow> spec_scan \<Rightarrow> FeatureSpec list \<Rightarrow> FeatureSpec list result" where
  "complete_specs name sc [] = Inr (scCompleted sc)"
| "complete_specs name sc (spec # specs) =
     (case spec_error name sc spec of
        Some e \<Rightarrow> Inl e
      | None \<Rightarrow> complete_specs name (next_spec sc spec) specs)"

fun add_features :: "(string \<rightharpoonup> FeatureSpec list) \<Rightarrow> features \<Rightarrow> (string \<rightharpoonup> FeatureSpec list) result" where
  "add_features known [] = Inr known"
| "add_features known ((name, specs) # fs) =
     (case complete_specs name no_specs specs of
        Inl e \<Rightarrow> Inl e
      | Inr completed \<Rightarrow>
     (case known name of
        Some existing \<Rightarrow>
          if existing = completed then add_features known fs
          else Inl (Errorf ''feature gate %q with different spec already exists: %v'' [name])
      | None \<Rightarrow> add_features (known(name \<mapsto> completed)) fs))"

definition AddVersioned :: "features \<Rightarrow> featureGate \<Rightarrow> featureGate \<times> aggregate" where
  "AddVersioned fs f =
     (if fgClosed f then (f, [Errorf ''cannot add a feature gate after adding it to the flag set'' []])
      else (case add_features (fgKnown f) fs of
          Inl e \<Rightarrow> (f, [e])
        | Inr known \<Rightarrow> (f\<lparr>fgKnown := known\<rparr>, [])))"

section \<open>Setting gates\<close>

text \<open>What the special gates do: they set every gate of their stage that is not set.\<close>

definition setUnset :: "prerelease \<Rightarrow> (string \<rightharpoonup> FeatureSpec list) \<Rightarrow> version \<Rightarrow> version \<Rightarrow> bool \<Rightarrow> settings \<Rightarrow> settings" where
  "setUnset stage known emu mc val en k =
     (if k = allAlphaGate \<or> k = allBetaGate then en k
      else (case known k of
          None \<Rightarrow> en k
        | Some v \<Rightarrow> if spPreRelease (featureSpecAt v emu mc) = stage \<and> en k = None then Some val else en k))"

definition special :: "string \<Rightarrow> prerelease option" where
  "special k = (if k = allAlphaGate then Some Alpha else if k = allBetaGate then Some Beta else None)"

definition preAlpha_error :: "string \<Rightarrow> bool \<Rightarrow> version \<Rightarrow> version \<Rightarrow> go_error" where
  "preAlpha_error k v emu mc =
     Errorf ''cannot set feature gate %v to %v, feature is PreAlpha at emulated version %s, min compatibility version %s''
       [k, bool_string v, version_string emu, version_string mc]"

fun set_gates :: "featureGate \<Rightarrow> (string \<times> bool) list \<Rightarrow> settings \<Rightarrow> aggregate \<Rightarrow> settings \<times> aggregate" where
  "set_gates f [] en errs = (en, errs)"
| "set_gates f ((k, v) # kvs) en errs =
     (case fgKnown f k of
        None \<Rightarrow> (en, errs @ [Errorf ''unrecognized feature gate: %s'' [k]])
      | Some specs \<Rightarrow>
     (let spec = featureSpecAt specs (fgEmulation f) (fgMinCompatibility f) in
      if spLockToDefault spec \<and> spDefault spec \<noteq> v then
        set_gates f kvs en (errs @ [Errorf ''cannot set feature gate %v to %v, feature is locked to %v''
          [k, bool_string v, bool_string (spDefault spec)]])
      else (case special k of
          Some stage \<Rightarrow>
            set_gates f kvs ((setUnset stage (fgKnown f) (fgEmulation f) (fgMinCompatibility f) v en)(k \<mapsto> v)) errs
        | None \<Rightarrow>
            if spPreRelease spec = PreAlpha then
              set_gates f kvs en (errs @ [preAlpha_error k v (fgEmulation f) (fgMinCompatibility f)])
            else set_gates f kvs (en(k \<mapsto> v)) errs)))"

definition ranged :: "(settings \<Rightarrow> string list) \<Rightarrow> settings \<Rightarrow> (string \<times> bool) list" where
  "ranged order m = map (\<lambda>k. (k, the (m k))) (order m)"

definition SetFromMap :: "(settings \<Rightarrow> string list) \<Rightarrow> settings \<Rightarrow> featureGate \<Rightarrow> featureGate \<times> aggregate" where
  "SetFromMap order m f =
     (let raw = fgEnabledRaw f ++ m; f = f\<lparr>fgEnabledRaw := raw\<rparr> in
      case set_gates f (ranged order raw) (fgEnabled f) [] of
        (en, errs) \<Rightarrow> if length errs = 0 then (f\<lparr>fgEnabled := en\<rparr>, errs) else (f, errs))"

text \<open>\<open>strconv.ParseBool\<close>.\<close>

definition ParseBool :: "string \<Rightarrow> bool result" where
  "ParseBool s =
     (if s \<in> {''1'', ''t'', ''T'', ''true'', ''TRUE'', ''True''} then Inr True
      else if s \<in> {''0'', ''f'', ''F'', ''false'', ''FALSE'', ''False''} then Inr False
      else Inl (Errorf ''strconv.ParseBool: parsing %q: invalid syntax'' [s]))"

fun gate_settings :: "string list \<Rightarrow> settings \<Rightarrow> settings result" where
  "gate_settings [] m = Inr m"
| "gate_settings (s # ss) m =
     (if length s = 0 then gate_settings ss m
      else (let arr = split_first (CHR ''='') s; k = TrimSpace (arr ! 0) in
        if length arr \<noteq> 2 then Inl (Errorf ''missing bool value for %s'' [k])
        else (let v = TrimSpace (arr ! 1) in
          case ParseBool v of
            Inl e \<Rightarrow> Inl (ErrText ''invalid value of %s=%s, err: %v'' [k, v] e)
          | Inr b \<Rightarrow> gate_settings ss (m(k \<mapsto> b)))))"

definition Set :: "(settings \<Rightarrow> string list) \<Rightarrow> string \<Rightarrow> featureGate \<Rightarrow> featureGate \<times> aggregate" where
  "Set order value f =
     (case gate_settings (split_on (CHR '','') value) Map.empty of
        Inl e \<Rightarrow> (f, [e])
      | Inr m \<Rightarrow> SetFromMap order m f)"

text \<open>Asking for a gate that is not known panics.\<close>

definition featureEnabled :: "string \<Rightarrow> featureGate \<Rightarrow> bool result" where
  "featureEnabled k f =
     (case fgEnabled f k of
        Some v \<Rightarrow> Inr v
      | None \<Rightarrow>
     (case fgKnown f k of
        Some v \<Rightarrow> Inr (spDefault (featureSpecAt v (fgEmulation f) (fgMinCompatibility f)))
      | None \<Rightarrow> Inl (Panic (''feature '' @ k @ '' is not registered in FeatureGate''))))"

section \<open>The registry of the driver\<close>

text \<open>\<open>utilruntime.Must\<close>: any error is a panic, whose value is the error (kept as its format and arguments).\<close>

fun error_words :: "go_error \<Rightarrow> string" where
  "error_words (Errorf fmt args) = join '' '' (fmt # args)"
| "error_words (ErrWrap fmt args e) = join '' '' (fmt # args) @ error_words e"
| "error_words (ErrText fmt args e) = join '' '' (fmt # args) @ error_words e"
| "error_words (ErrIO m) = m"
| "error_words (Panic m) = m"
| "error_words e = []"

definition Must :: "featureGate \<times> aggregate \<Rightarrow> featureGate result" where
  "Must r = (case r of (f, errs) \<Rightarrow> if length errs = 0 then Inr f else Inl (Panic (join '', '' (map error_words errs))))"

definition loggingOverrides :: settings where
  "loggingOverrides = Map.empty(ContextualLogging \<mapsto> True)"

text \<open>\<open>fs\<close> lists the logging gates in the order their map is ranged over.\<close>

definition newFeatureGates :: "features \<Rightarrow> (settings \<Rightarrow> string list) \<Rightarrow> version \<Rightarrow> featureGate result" where
  "newFeatureGates fs order v =
     rbind (Must (AddVersioned fs (NewVersionedFeatureGate v))) (\<lambda>f.
     rbind (Must (AddVersioned defaultFeatureGates f)) (\<lambda>f.
     Must (SetFromMap order loggingOverrides f)))"

text \<open>The process-wide registry is made on first use; \<open>once\<close> is what \<open>featureGatesOnce\<close> guards.\<close>

definition FeatureGates :: "features \<Rightarrow> (settings \<Rightarrow> string list) \<Rightarrow> featureGate option \<Rightarrow> featureGate result" where
  "FeatureGates fs order once =
     (case once of Some f \<Rightarrow> Inr f | None \<Rightarrow> newFeatureGates fs order featureGateEmulationVersion)"

definition Enabled :: "features \<Rightarrow> (settings \<Rightarrow> string list) \<Rightarrow> featureGate option \<Rightarrow> string \<Rightarrow> bool result" where
  "Enabled fs order once feature = rbind (FeatureGates fs order once) (featureEnabled feature)"

text \<open>The usage text of the gates that may be set.\<close>

definition HelpString :: "string \<Rightarrow> FeatureSpec \<Rightarrow> string" where
  "HelpString k spec =
     (if spPreRelease spec = GA \<or> spPreRelease spec = Deprecated \<or> spPreRelease spec = PreAlpha then []
      else k @ ''=true|false ('' @ prerelease_string (spPreRelease spec) @ '' - default='' @ bool_string (spDefault spec) @ '')'')"

definition HelpString_compat :: "string \<Rightarrow> FeatureSpec \<Rightarrow> string" where
  "HelpString_compat k spec =
     (case spMinCompatibility spec of
        Some m \<Rightarrow> if HelpString k spec = [] then [] else HelpString k spec @ '' if --min-compatibility-version>='' @ version_string m
      | None \<Rightarrow> HelpString k spec)"

definition known_feature :: "featureGate \<Rightarrow> string \<Rightarrow> FeatureSpec list \<Rightarrow> string list" where
  "known_feature f k v =
     (if k = allAlphaGate \<or> k = allBetaGate then
        [k @ ''=true|false ('' @ prerelease_string (spPreRelease (v ! 0)) @ '' - default='' @ bool_string (spDefault (v ! 0)) @ '')'']
      else (let spec = featureSpecAt v (fgEmulation f) (fgMinCompatibility f);
                compat = featureSpecAt v (fgEmulation f) (fgEmulation f);
                components = filter (\<lambda>s. s \<noteq> []) (if spec = compat then [HelpString k spec]
                               else [HelpString k spec, HelpString_compat k compat]) in
            if length components > 0 then [join '', or '' components] else []))"

definition KnownFeatures :: "string list \<Rightarrow> featureGate \<Rightarrow> string list" where
  "KnownFeatures ks f = sort (concat (map (\<lambda>k. known_feature f k (the (fgKnown f k))) ks))"

section \<open>The registry that is made\<close>

text \<open>An order in which every finite map is ranged over: each key once.\<close>

definition ranges :: "(settings \<Rightarrow> string list) \<Rightarrow> bool" where
  "ranges order \<longleftrightarrow> (\<forall>m. finite (dom m) \<longrightarrow> distinct (order m) \<and> set (order m) = dom m)"

lemma ranges_sorted: "ranges (\<lambda>m. sorted_list_of_set (dom m))"
  by (simp add: ranges_def)

lemma ranged_map_of:
  assumes "ranges order" and "finite (dom m)"
  shows "map_of (ranged order m) = m" and "distinct (map fst (ranged order m))"
proof -
  have o: "distinct (order m)" "set (order m) = dom m" using assms by (auto simp: ranges_def)
  then show "distinct (map fst (ranged order m))" by (simp add: ranged_def comp_def)
  show "map_of (ranged order m) = m"
  proof
    fix k
    show "map_of (ranged order m) k = m k"
      using o by (cases "m k") (auto simp: ranged_def map_of_map_restrict restrict_map_def)
  qed
qed

definition known_gates :: "string \<rightharpoonup> FeatureSpec list" where
  "known_gates = map_of (defaultFeatureGates @ loggingFeatureGates @ defaultFeatures)"

text \<open>A listing of the logging gates in some order.\<close>

definition lists_logging :: "features \<Rightarrow> bool" where
  "lists_logging fs \<longleftrightarrow> distinct (map fst fs) \<and> set fs = set loggingFeatureGates"

lemma lists_logging_map_of: "lists_logging fs \<Longrightarrow> map_of fs = map_of loggingFeatureGates"
  by (subst map_of_inject_set) (auto simp: lists_logging_def loggingFeatureGates_def gate_names)

lemma add_features_new:
  assumes "list_all (\<lambda>(k, v). complete_specs k no_specs v = Inr v) fs" and "distinct (map fst fs)"
    and "dom known \<inter> fst ` set fs = {}"
  shows "add_features known fs = Inr (known ++ map_of fs)"
  using assms
proof (induction fs arbitrary: known)
  case Nil
  then show ?case by simp
next
  case (Cons f fs)
  obtain k v where f: "f = (k, v)" by (cases f)
  have new: "known k = None" using Cons.prems f by auto
  have ih: "add_features (known(k \<mapsto> v)) fs = Inr (known(k \<mapsto> v) ++ map_of fs)"
  proof (rule Cons.IH)
    show "dom (known(k \<mapsto> v)) \<inter> fst ` set fs = {}" using Cons.prems(2,3) f by auto
  qed (use Cons.prems f in simp_all)
  have eq: "known(k \<mapsto> v) ++ map_of fs = (known ++ map_of fs)(k \<mapsto> v)"
    using Cons.prems(2) f by (simp add: map_add_upd_left dom_map_of_conv_image_fst)
  have "known ++ map_of (f # fs) = (known ++ map_of fs)(k \<mapsto> v)" by (rule ext) (simp add: f map_add_def)
  with Cons.prems(1) new ih show ?case unfolding eq by (simp only: f add_features.simps list.pred_inject prod.case sum.case option.case)
qed

lemmas spec_checks = complete_specs.simps spec_error_def min_compatibility_error_def transition_error_def
  same_version_error_def stability_error_def next_spec_def no_specs_def feature_spec_def Let_def

lemma logging_specs_ok: "list_all (\<lambda>(k, v). complete_specs k no_specs v = Inr v) loggingFeatureGates"
  by (simp add: loggingFeatureGates_def spec_checks)

lemma driver_specs_ok: "list_all (\<lambda>(k, v). complete_specs k no_specs v = Inr v) defaultFeatureGates"
  by (simp add: defaultFeatureGates_def spec_checks)

lemma logging_names: "fst ` set loggingFeatureGates = {ContextualLogging, LoggingAlphaOptions, LoggingBetaOptions}"
  by (simp add: loggingFeatureGates_def)

lemma dom_known_gates: "dom known_gates = {ConsumableShares, ContextualLogging, LoggingAlphaOptions, LoggingBetaOptions,
    allAlphaGate, allBetaGate}"
  by (auto simp: known_gates_def dom_map_of_conv_image_fst defaultFeatureGates_def loggingFeatureGates_def defaultFeatures_def)

text \<open>The registry before the logging override.\<close>

definition bare_gates :: "version \<Rightarrow> featureGate" where
  "bare_gates v = (NewVersionedFeatureGate v)\<lparr>fgKnown := known_gates\<rparr>"

lemma gates_added:
  assumes "lists_logging fs"
  shows "rbind (Must (AddVersioned fs (NewVersionedFeatureGate v))) (\<lambda>f. Must (AddVersioned defaultFeatureGates f)) =
    Inr (bare_gates v)"
proof -
  let ?k = "map_of defaultFeatures ++ map_of loggingFeatureGates"
  have fs: "distinct (map fst fs)" "set fs = set loggingFeatureGates" using assms by (auto simp: lists_logging_def)
  have "list_all (\<lambda>(k, v). complete_specs k no_specs v = Inr v) fs"
    using logging_specs_ok by (simp add: list_all_iff fs(2))
  moreover have "dom (map_of defaultFeatures) \<inter> fst ` set fs = {}"
    by (auto simp: fs(2) logging_names dom_map_of_conv_image_fst defaultFeatures_def gate_names)
  ultimately have 1: "add_features (map_of defaultFeatures) fs = Inr ?k"
    using add_features_new [OF _ fs(1)] lists_logging_map_of [OF assms] by simp
  have 2: "add_features ?k defaultFeatureGates = Inr (?k ++ map_of defaultFeatureGates)"
    by (rule add_features_new [OF driver_specs_ok])
       (auto simp: dom_map_of_conv_image_fst defaultFeatureGates_def loggingFeatureGates_def defaultFeatures_def gate_names)
  have 3: "?k ++ map_of defaultFeatureGates = known_gates"
    by (simp add: known_gates_def map_of_append)
  show ?thesis
    by (simp add: AddVersioned_def NewVersionedFeatureGate_def Must_def 1 2 3 bare_gates_def)
qed

section \<open>What setting gates comes to\<close>

abbreviation spec_of :: "featureGate \<Rightarrow> FeatureSpec list \<Rightarrow> FeatureSpec" where
  "spec_of f specs \<equiv> featureSpecAt specs (fgEmulation f) (fgMinCompatibility f)"

definition settable :: "featureGate \<Rightarrow> string \<Rightarrow> bool \<Rightarrow> bool" where
  "settable f k v \<longleftrightarrow> (case fgKnown f k of None \<Rightarrow> False
     | Some specs \<Rightarrow> \<not> (spLockToDefault (spec_of f specs) \<and> spDefault (spec_of f specs) \<noteq> v) \<and>
         (special k = None \<longrightarrow> spPreRelease (spec_of f specs) \<noteq> PreAlpha))"

definition set_gate :: "featureGate \<Rightarrow> string \<Rightarrow> bool \<Rightarrow> settings \<Rightarrow> settings" where
  "set_gate f k v en = (case special k of
       None \<Rightarrow> en(k \<mapsto> v)
     | Some stage \<Rightarrow> (setUnset stage (fgKnown f) (fgEmulation f) (fgMinCompatibility f) v en)(k \<mapsto> v))"

lemma set_gates_settable:
  "settable f k v \<Longrightarrow> set_gates f ((k, v) # kvs) en errs = set_gates f kvs (set_gate f k v en) errs"
  by (cases "fgKnown f k"; cases "special k") (auto simp: settable_def set_gate_def Let_def)

lemma set_gates_refused:
  assumes "\<not> settable f k v"
  shows "\<exists>e. set_gates f ((k, v) # kvs) en errs \<in> {(en, errs @ [e]), set_gates f kvs en (errs @ [e])}"
proof (cases "fgKnown f k")
  case None
  then show ?thesis by auto
next
  case (Some specs)
  with assms show ?thesis by (cases "spLockToDefault (spec_of f specs) \<and> spDefault (spec_of f specs) \<noteq> v") (auto simp: settable_def)
qed

lemma set_gates_Nil: "set_gates f [] en errs = (en, errs)"
  by simp

declare set_gates.simps [simp del]
declare set_gates_Nil [simp]

lemma set_gates_keeps: "errs \<noteq> [] \<Longrightarrow> snd (set_gates f kvs en errs) \<noteq> []"
proof (induction kvs arbitrary: en errs)
  case Nil
  then show ?case by simp
next
  case (Cons kv kvs)
  obtain k v where kv: "kv = (k, v)" by (cases kv)
  show ?case
  proof (cases "settable f k v")
    case True
    with Cons show ?thesis by (simp add: kv set_gates_settable)
  next
    case False
    from set_gates_refused [OF False, of kvs en errs] Cons.IH [of "errs @ [e]" en for e] show ?thesis
      by (auto simp: kv)
  qed
qed

lemma set_gates_ok_iff:
  "snd (set_gates f kvs en errs) = [] \<longleftrightarrow> errs = [] \<and> list_all (\<lambda>(k, v). settable f k v) kvs"
proof (induction kvs arbitrary: en errs)
  case Nil
  then show ?case by simp
next
  case (Cons kv kvs)
  obtain k v where kv: "kv = (k, v)" by (cases kv)
  show ?case
  proof (cases "settable f k v")
    case True
    with Cons show ?thesis by (simp add: kv set_gates_settable)
  next
    case False
    then have "snd (set_gates f ((k, v) # kvs) en errs) \<noteq> []"
      using set_gates_refused [OF False, of kvs en errs] by (auto simp: set_gates_keeps)
    with False show ?thesis by (simp add: kv)
  qed
qed

lemma special_cases: "special k = Some stage \<longleftrightarrow> k = allAlphaGate \<and> stage = Alpha \<or> k = allBetaGate \<and> stage = Beta"
  by (auto simp: special_def gate_names)

lemma special_None: "special k = None \<longleftrightarrow> k \<noteq> allAlphaGate \<and> k \<noteq> allBetaGate"
  by (auto simp: special_def)

text \<open>
  The value of an ordinary gate: its own setting; else what it was set to before; else the setting
  of the special gate of its stage.
\<close>

definition resolved :: "settings \<Rightarrow> settings \<Rightarrow> string \<Rightarrow> string \<Rightarrow> bool option" where
  "resolved en m g k = (case m k of Some b \<Rightarrow> Some b | None \<Rightarrow> (case en k of Some b \<Rightarrow> Some b | None \<Rightarrow> m g))"

lemma set_gates_value:
  assumes "special k = None" and "special g = Some stage"
    and "fgKnown f k = Some specs" and "spPreRelease (spec_of f specs) = stage"
    and "distinct (map fst kvs)" and "snd (set_gates f kvs en errs) = []"
  shows "fst (set_gates f kvs en errs) k = resolved en (map_of kvs) g k"
  using assms(5,6)
proof (induction kvs arbitrary: en errs)
  case Nil
  then show ?case by (simp add: resolved_def split: option.splits)
next
  case (Cons kv kvs)
  obtain k' v where kv: "kv = (k', v)" by (cases kv)
  have ok: "errs = []" "settable f k' v" "list_all (\<lambda>(k, v). settable f k v) kvs"
    using Cons.prems(2) by (simp_all add: set_gates_ok_iff kv)
  have new: "map_of kvs k' = None" "distinct (map fst kvs)" using Cons.prems(1) by (auto simp: kv map_of_eq_None_iff)
  have rest: "fst (set_gates f kvs e []) k = resolved e (map_of kvs) g k" for e
    using Cons.IH [OF new(2), of e "[]"] ok(3) by (simp add: set_gates_ok_iff)
  show ?case
  proof (cases "special k'")
    case None
    with ok have "set_gates f (kv # kvs) en errs = set_gates f kvs (en(k' \<mapsto> v)) []"
      by (simp add: kv set_gates_settable set_gate_def)
    moreover have "k' \<noteq> g" using None assms(2) by auto
    ultimately show ?thesis using rest [of "en(k' \<mapsto> v)"] new(1) by (auto simp: kv resolved_def split: option.splits)
  next
    case (Some st)
    with ok have "set_gates f (kv # kvs) en errs =
        set_gates f kvs ((setUnset st (fgKnown f) (fgEmulation f) (fgMinCompatibility f) v en)(k' \<mapsto> v)) []"
      by (simp add: kv set_gates_settable set_gate_def)
    moreover have "k' \<noteq> k" using Some assms(1) by auto
    moreover have "st = stage \<longleftrightarrow> k' = g" using Some assms(2) by (auto simp: special_cases gate_names)
    moreover have "setUnset st (fgKnown f) (fgEmulation f) (fgMinCompatibility f) v en k =
        (if st = stage \<and> en k = None then Some v else en k)"
      using assms(1,3,4) by (auto simp: setUnset_def special_None)
    ultimately show ?thesis using rest new(1) by (auto simp: kv resolved_def split: option.splits)
  qed
qed

section \<open>The registry as the flag sets it\<close>

lemmas known_gates_defs = known_gates_def defaultFeatureGates_def loggingFeatureGates_def defaultFeatures_def gate_names

lemma known_gate [simp]:
  "known_gates ConsumableShares = Some [feature_spec False Alpha (MajorMinor 0 3)]"
  "known_gates ContextualLogging = Some [feature_spec False Alpha (MajorMinor 1 24), feature_spec True Beta (MajorMinor 1 30)]"
  "known_gates LoggingAlphaOptions = Some [feature_spec False Alpha (MajorMinor 1 24)]"
  "known_gates LoggingBetaOptions = Some [feature_spec True Beta (MajorMinor 1 24)]"
  "known_gates allAlphaGate = Some [feature_spec False Alpha (MajorMinor 0 0)]"
  "known_gates allBetaGate = Some [feature_spec False Beta (MajorMinor 0 0)]"
  by (simp_all add: known_gates_defs)

lemma special_gate [simp]:
  "special ConsumableShares = None" "special ContextualLogging = None" "special LoggingAlphaOptions = None"
  "special LoggingBetaOptions = None" "special allAlphaGate = Some Alpha" "special allBetaGate = Some Beta"
  by (simp_all add: special_def gate_names)

lemma featureSpecAt_single [simp]:
  "featureSpecAt [feature_spec b p w] v mc = (if w \<le> v then feature_spec b p w else feature_spec False PreAlpha (MajorMinor 0 0))"
  by (simp add: featureSpecAt_def feature_spec_def flip: not_le)

lemma featureSpecAt_two [simp]:
  "featureSpecAt [feature_spec b p w, feature_spec c q u] v mc =
     (if u \<le> v then feature_spec c q u else if w \<le> v then feature_spec b p w else feature_spec False PreAlpha (MajorMinor 0 0))"
  by (simp add: featureSpecAt_def feature_spec_def flip: not_le)

lemma feature_spec_sel [simp]:
  "spDefault (feature_spec b p v) = b" "spLockToDefault (feature_spec b p v) = False" "spPreRelease (feature_spec b p v) = p"
  "spVersion (feature_spec b p v) = v"
  by (simp_all add: feature_spec_def)

lemma kubernetes_versions:
  assumes "MajorMinor 1 24 \<le> v"
  shows "MajorMinor 0 0 \<le> v" and "MajorMinor 0 3 \<le> v"
  using assms by (cases v; auto)+

lemma settable_known:
  assumes "fgKnown f = known_gates" and "MajorMinor 1 24 \<le> fgEmulation f"
  shows "settable f k b \<longleftrightarrow> k \<in> dom known_gates"
proof (cases "k \<in> dom known_gates")
  case False
  then show ?thesis using assms(1) by (auto simp: settable_def dom_def)
next
  case True
  then have "k \<in> {ConsumableShares, ContextualLogging, LoggingAlphaOptions, LoggingBetaOptions, allAlphaGate, allBetaGate}"
    by (simp add: dom_known_gates)
  then have "settable f k b"
    using assms kubernetes_versions [OF assms(2)] by (auto simp: settable_def)
  with True show ?thesis by simp
qed

text \<open>The settings of a sequence of maps: what was set last, and what was set first.\<close>

fun last_setting :: "settings list \<Rightarrow> settings" where
  "last_setting [] k = None"
| "last_setting (m # ms) k = (case last_setting ms k of Some b \<Rightarrow> Some b | None \<Rightarrow> m k)"

fun first_setting :: "settings list \<Rightarrow> settings" where
  "first_setting [] k = None"
| "first_setting (m # ms) k = (case m k of Some b \<Rightarrow> Some b | None \<Rightarrow> first_setting ms k)"

lemma last_setting_snoc: "last_setting (ms @ [m]) = last_setting ms ++ m"
  by (induction ms) (auto simp: fun_eq_iff map_add_def split: option.splits)

lemma last_setting_Nil [simp]: "last_setting [] = Map.empty"
  by (simp add: fun_eq_iff)

lemma first_setting_None: "first_setting ms k = None \<longleftrightarrow> last_setting ms k = None"
  by (induction ms) (auto split: option.splits)

lemma first_setting_snoc: "first_setting (ms @ [m]) = m ++ first_setting ms"
  by (induction ms) (auto simp: fun_eq_iff map_add_def split: option.splits)

text \<open>The registry after the maps \<open>ms\<close> were set.\<close>

definition shares_setting :: "settings list \<Rightarrow> bool option" where
  "shares_setting ms = (case last_setting ms ConsumableShares of Some b \<Rightarrow> Some b | None \<Rightarrow> first_setting ms allAlphaGate)"

definition registry :: "version \<Rightarrow> settings list \<Rightarrow> featureGate \<Rightarrow> bool" where
  "registry v ms f \<longleftrightarrow> fgKnown f = known_gates \<and> \<not> fgClosed f \<and> fgEmulation f = v \<and>
     fgEnabledRaw f = loggingOverrides ++ last_setting ms \<and> dom (last_setting ms) \<subseteq> dom known_gates \<and>
     fgEnabled f ConsumableShares = shares_setting ms \<and>
     fgEnabled f ContextualLogging = fgEnabledRaw f ContextualLogging"

lemma finite_known: "dom (m :: settings) \<subseteq> dom known_gates \<Longrightarrow> finite (dom m)"
  by (erule finite_subset) (simp only: dom_known_gates finite_insert finite.emptyI)

lemma loggingOverrides_other [simp]:
  "loggingOverrides ConsumableShares = None" "loggingOverrides allAlphaGate = None"
  "loggingOverrides ContextualLogging = Some True"
  by (simp_all add: loggingOverrides_def gate_names)

lemma shares_setting_snoc:
  "shares_setting (ms @ [m]) =
     (case (last_setting ms ++ m) ConsumableShares of Some b \<Rightarrow> Some b
      | None \<Rightarrow> (case shares_setting ms of Some b \<Rightarrow> Some b | None \<Rightarrow> (last_setting ms ++ m) allAlphaGate))"
  using first_setting_None [of ms allAlphaGate]
  by (auto simp: shares_setting_def last_setting_snoc first_setting_snoc map_add_def split: option.splits)

lemma SetFromMap_outcome:
  assumes r: "registry v ms f" and v: "MajorMinor 1 24 \<le> v" and fin: "finite (dom m)" and ord: "ranges order"
    and run: "SetFromMap order m f = (f', errs)"
  shows "errs = [] \<longleftrightarrow> dom m \<subseteq> dom known_gates" and "errs = [] \<Longrightarrow> registry v (ms @ [m]) f'"
proof -
  let ?raw = "fgEnabledRaw f ++ m"
  let ?f = "f\<lparr>fgEnabledRaw := ?raw\<rparr>"
  let ?run = "set_gates ?f (ranged order ?raw) (fgEnabled f) []"
  note r' = r [unfolded registry_def]
  have log: "dom loggingOverrides \<subseteq> dom known_gates" by (simp add: loggingOverrides_def dom_known_gates)
  then have old: "dom (fgEnabledRaw f) \<subseteq> dom known_gates" using r' by auto
  then have "finite (dom ?raw)" using fin finite_known by simp
  note rg = ranged_map_of [OF ord this]
  have keys: "fst ` set (ranged order ?raw) = dom ?raw" using rg(1) by (metis dom_map_of_conv_image_fst)
  have ok: "snd ?run = [] \<longleftrightarrow> dom m \<subseteq> dom known_gates"
  proof -
    have "snd ?run = [] \<longleftrightarrow> fst ` set (ranged order ?raw) \<subseteq> dom known_gates"
      using r' v by (simp add: set_gates_ok_iff list_all_iff settable_known case_prod_beta image_subset_iff)
    also have "\<dots> \<longleftrightarrow> dom m \<subseteq> dom known_gates" using old by (simp add: keys)
    finally show ?thesis .
  qed
  obtain en es where run': "?run = (en, es)" by (cases ?run)
  have f': "errs = es" "es = [] \<Longrightarrow> f' = ?f\<lparr>fgEnabled := en\<rparr>"
    using run run' by (auto simp: SetFromMap_def Let_def split: if_splits)
  show "errs = [] \<longleftrightarrow> dom m \<subseteq> dom known_gates" using ok run' f' by simp
  assume "errs = []"
  then have es: "es = []" "snd ?run = []" using f' run' by simp_all
  have val: "en k = resolved (fgEnabled f) ?raw g k"
    if "special k = None" "special g = Some stage" "known_gates k = Some specs" "spPreRelease (spec_of f specs) = stage" for k g stage specs
    using set_gates_value [of k g stage ?f specs, OF that(1,2) _ _ rg(2) es(2)] that(3,4) r' rg(1) run' by simp
  have "en ConsumableShares = resolved (fgEnabled f) ?raw allAlphaGate ConsumableShares"
    by (rule val) (use r' kubernetes_versions [OF v] in simp_all)
  moreover have "en ContextualLogging = resolved (fgEnabled f) ?raw (if MajorMinor 1 30 \<le> v then allBetaGate else allAlphaGate) ContextualLogging"
    by (cases "MajorMinor 1 30 \<le> v"; simp; rule val) (use r' v in simp_all)
  ultimately have "en ConsumableShares = shares_setting (ms @ [m])" "en ContextualLogging = ?raw ContextualLogging"
    using r' by (auto simp: resolved_def shares_setting_snoc map_add_def split: option.splits)
  moreover have "dom (last_setting (ms @ [m])) \<subseteq> dom known_gates" using r' ok es(2) by (simp add: last_setting_snoc)
  ultimately show "registry v (ms @ [m]) f'"
    using r' by (simp add: registry_def f'(2) [OF es(1)] last_setting_snoc)
qed

lemma gate_neq: "ConsumableShares \<noteq> ContextualLogging"
  by (simp add: gate_names)

lemma distinct_singleton: "distinct xs \<Longrightarrow> set xs = {a} \<Longrightarrow> xs = [a]"
  by (cases xs; cases "tl xs") auto

lemma newFeatureGates_registry:
  assumes "lists_logging fs" and ord: "ranges order"
  shows "MajorMinor 1 24 \<le> v \<Longrightarrow> \<exists>f. newFeatureGates fs order v = Inr f \<and> registry v [] f"
    and "\<not> MajorMinor 1 24 \<le> v \<Longrightarrow> newFeatureGates fs order v =
      Inl (Panic (error_words (preAlpha_error ContextualLogging True v (SubtractMinor v 1))))"
proof -
  have run: "newFeatureGates fs order v = Must (SetFromMap order loggingOverrides (bare_gates v))"
    using gates_added [OF assms(1), of v] unfolding newFeatureGates_def
    by (cases "Must (AddVersioned fs (NewVersionedFeatureGate v))") simp_all
  have "finite (dom loggingOverrides)" by (simp add: loggingOverrides_def)
  then have "distinct (order loggingOverrides)" "set (order loggingOverrides) = {ContextualLogging}"
    using ord by (simp_all add: ranges_def loggingOverrides_def)
  then have "order loggingOverrides = [ContextualLogging]"
    by (rule distinct_singleton)
  then have rg: "ranged order loggingOverrides = [(ContextualLogging, True)]"
    by (simp add: ranged_def loggingOverrides_def)
  have bare: "fgKnown (bare_gates v) = known_gates" "fgEnabledRaw (bare_gates v) = Map.empty" "fgEmulation (bare_gates v) = v"
    "\<not> fgClosed (bare_gates v)" "fgEnabled (bare_gates v) = Map.empty" "fgMinCompatibility (bare_gates v) = SubtractMinor v 1"
    by (simp_all add: bare_gates_def NewVersionedFeatureGate_def)
  let ?f = "(bare_gates v)\<lparr>fgEnabledRaw := loggingOverrides\<rparr>"
  {
    assume v: "MajorMinor 1 24 \<le> v"
    then have "settable ?f ContextualLogging True" by (simp add: settable_known bare dom_known_gates)
    then have "SetFromMap order loggingOverrides (bare_gates v) = (?f\<lparr>fgEnabled := Map.empty(ContextualLogging \<mapsto> True)\<rparr>, [])"
      by (simp add: SetFromMap_def rg bare set_gates_settable set_gate_def)
    then show "\<exists>f. newFeatureGates fs order v = Inr f \<and> registry v [] f"
      by (simp add: run Must_def registry_def bare shares_setting_def dom_known_gates loggingOverrides_def gate_neq)
  next
    assume "\<not> MajorMinor 1 24 \<le> v"
    then have v: "\<not> MajorMinor 1 24 \<le> v" "\<not> MajorMinor 1 30 \<le> v" by (cases v; auto)+
    then show "newFeatureGates fs order v =
      Inl (Panic (error_words (preAlpha_error ContextualLogging True v (SubtractMinor v 1))))"
      by (simp add: run SetFromMap_def rg bare set_gates.simps Must_def)
  }
qed

text \<open>The usage text is sorted and names the driver's gate and contextual logging with stage and default.\<close>

lemma gate_usage:
  assumes "k \<noteq> allAlphaGate" and "k \<noteq> allBetaGate" and "p = Alpha \<or> p = Beta"
    and "featureSpecAt v (fgEmulation f) (fgMinCompatibility f) = feature_spec b p w"
    and "featureSpecAt v (fgEmulation f) (fgEmulation f) = feature_spec b p w"
  shows "known_feature f k v = [HelpString k (feature_spec b p w)]"
  using assms by (auto simp: known_feature_def HelpString_def)

lemma known_features_listed:
  assumes "registry featureGateEmulationVersion ms f" and "set ks = dom known_gates"
  shows "sorted (KnownFeatures ks f)"
    and "HelpString ConsumableShares (feature_spec False Alpha (MajorMinor 0 3)) \<in> set (KnownFeatures ks f)"
    and "HelpString ContextualLogging (feature_spec True Beta (MajorMinor 1 30)) \<in> set (KnownFeatures ks f)"
proof -
  show "sorted (KnownFeatures ks f)" by (simp add: KnownFeatures_def)
  have r: "fgKnown f = known_gates" "fgEmulation f = MajorMinor 1 37"
    using assms(1) by (simp_all add: registry_def featureGateEmulationVersion_def)
  have names: "ConsumableShares \<noteq> allAlphaGate" "ConsumableShares \<noteq> allBetaGate"
    "ContextualLogging \<noteq> allAlphaGate" "ContextualLogging \<noteq> allBetaGate" by (simp_all add: gate_names)
  have listed: "x \<in> set (KnownFeatures ks f)" if "k \<in> dom known_gates" "known_feature f k (the (known_gates k)) = [x]" for k x
    using that by (force simp: KnownFeatures_def r assms(2))
  show "HelpString ConsumableShares (feature_spec False Alpha (MajorMinor 0 3)) \<in> set (KnownFeatures ks f)"
    by (rule listed [of ConsumableShares], simp add: dom_known_gates, rule gate_usage) (simp_all add: names r)
  show "HelpString ContextualLogging (feature_spec True Beta (MajorMinor 1 30)) \<in> set (KnownFeatures ks f)"
    by (rule listed [of ContextualLogging], simp add: dom_known_gates, rule gate_usage) (simp_all add: names r)
qed

section \<open>Values of the flag\<close>

text \<open>The flag may be set several times, by its environment variable first: each value is one \<open>Set\<close>.\<close>

fun set_values :: "(settings \<Rightarrow> string list) \<Rightarrow> string list \<Rightarrow> featureGate \<Rightarrow> featureGate \<times> aggregate" where
  "set_values order [] f = (f, [])"
| "set_values order (v # vs) f =
     (case Set order v f of (f, errs) \<Rightarrow> if length errs = 0 then set_values order vs f else (f, errs))"

definition gate_value :: "string \<Rightarrow> settings result" where
  "gate_value v = gate_settings (split_on (CHR '','') v) Map.empty"

lemma gate_settings_finite: "gate_settings ss m = Inr m' \<Longrightarrow> finite (dom m) \<Longrightarrow> finite (dom m')"
  by (induction ss m rule: gate_settings.induct) (auto simp: Let_def split: if_splits sum.splits)

lemma gate_value_finite: "gate_value v = Inr m \<Longrightarrow> finite (dom m)"
  by (auto simp: gate_value_def dest: gate_settings_finite)

lemma Set_value: "Set order v f = (case gate_value v of Inl e \<Rightarrow> (f, [e]) | Inr m \<Rightarrow> SetFromMap order m f)"
  by (simp add: Set_def gate_value_def)

definition known_settings :: "settings \<Rightarrow> bool" where
  "known_settings m \<longleftrightarrow> dom m \<subseteq> dom known_gates"

lemma set_values_outcome:
  assumes "registry v ms f" and "MajorMinor 1 24 \<le> v" and "ranges order"
  shows "case set_values order vs f of (f', errs) \<Rightarrow>
    (errs = [] \<longleftrightarrow> (\<exists>ns. rtraverse gate_value vs = Inr ns \<and> list_all known_settings ns)) \<and>
    (\<forall>ns. errs = [] \<longrightarrow> rtraverse gate_value vs = Inr ns \<longrightarrow> registry v (ms @ ns) f')"
  using assms(1)
proof (induction vs arbitrary: ms f)
  case Nil
  then show ?case by simp
next
  case (Cons w ws)
  show ?case
  proof (cases "gate_value w")
    case (Inl e)
    then show ?thesis by (simp add: Set_value)
  next
    case (Inr m)
    obtain f1 errs where run: "SetFromMap order m f = (f1, errs)" by (cases "SetFromMap order m f")
    note step = SetFromMap_outcome [OF Cons.prems assms(2) gate_value_finite [OF Inr] assms(3) run]
    show ?thesis
    proof (cases "errs = []")
      case False
      then have bad: "\<not> known_settings m" using step(1) by (simp add: known_settings_def)
      have "rtraverse gate_value (w # ws) = rbind (rtraverse gate_value ws) (\<lambda>ns. Inr (m # ns))" by (simp add: Inr)
      then have "\<not> (\<exists>ns. rtraverse gate_value (w # ws) = Inr ns \<and> list_all known_settings ns)"
        using bad by (cases "rtraverse gate_value ws") auto
      with False show ?thesis by (simp add: Set_value Inr run del: rtraverse.simps)
    next
      case True
      then have good: "known_settings m" using step(1) by (simp add: known_settings_def)
      have "set_values order (w # ws) f = set_values order ws f1" by (simp add: Set_value Inr run True)
      moreover have "rtraverse gate_value (w # ws) = rbind (rtraverse gate_value ws) (\<lambda>ns. Inr (m # ns))" by (simp add: Inr)
      ultimately show ?thesis using Cons.IH [OF step(2) [OF True]] good
        by (cases "rtraverse gate_value ws"; cases "set_values order ws f1") (auto simp del: rtraverse.simps set_values.simps)
    qed
  qed
qed

lemma registry_gates:
  assumes "registry v ms f" and "MajorMinor 1 24 \<le> v"
  shows "featureEnabled ConsumableShares f = Inr (case last_setting ms ConsumableShares of Some b \<Rightarrow> b
         | None \<Rightarrow> (case first_setting ms allAlphaGate of Some b \<Rightarrow> b | None \<Rightarrow> False))"
    and "featureEnabled ContextualLogging f = Inr (case last_setting ms ContextualLogging of Some b \<Rightarrow> b | None \<Rightarrow> True)"
  using assms(1) kubernetes_versions [OF assms(2)]
  by (auto simp: registry_def featureEnabled_def shares_setting_def map_add_def split: option.splits)

lemma set_values_registry:
  assumes "lists_logging fs" and "ranges order" and "newFeatureGates fs order v = Inr f"
    and "set_values order vs f = (f', errs)"
  shows "MajorMinor 1 24 \<le> v"
    and "errs = [] \<longleftrightarrow> (\<exists>ms. rtraverse gate_value vs = Inr ms \<and> list_all known_settings ms)"
    and "errs = [] \<Longrightarrow> rtraverse gate_value vs = Inr ms \<Longrightarrow> registry v ms f'"
proof -
  show v: "MajorMinor 1 24 \<le> v" using newFeatureGates_registry(2) [OF assms(1,2), of v] assms(3) by auto
  then have "registry v [] f" using newFeatureGates_registry(1) [OF assms(1,2) v] assms(3) by auto
  from set_values_outcome [OF this v assms(2), of vs] assms(4)
  show "errs = [] \<longleftrightarrow> (\<exists>ms. rtraverse gate_value vs = Inr ms \<and> list_all known_settings ms)"
    "errs = [] \<Longrightarrow> rtraverse gate_value vs = Inr ms \<Longrightarrow> registry v ms f'" by auto
qed

section \<open>Properties\<close>

text \<open>C31 (error). The registry needs a Kubernetes version: it is made exactly when the emulated version is at least 1.24,
  and below that the process panics on the override of the contextual logging gate, as the comment
  on \<open>featureGateEmulationVersion\<close> warns. The version in use is high enough: the driver's gate, whose
  specification has a driver version, can be asked for and is off, contextual logging is on.\<close>

theorem registry_needs_kubernetes_version:
  assumes "lists_logging fs" and "ranges order"
  shows "((\<exists>f. newFeatureGates fs order v = Inr f) \<longleftrightarrow> MajorMinor 1 24 \<le> v) \<and>
    (newFeatureGates fs order v = Inl (Panic (error_words (preAlpha_error ContextualLogging True v (SubtractMinor v 1))))
       \<longleftrightarrow> \<not> MajorMinor 1 24 \<le> v) \<and>
    Enabled fs order None ConsumableShares = Inr False \<and> Enabled fs order None ContextualLogging = Inr True"
proof -
  note r = newFeatureGates_registry [OF assms]
  obtain f where f: "newFeatureGates fs order featureGateEmulationVersion = Inr f" "registry featureGateEmulationVersion [] f"
    using r(1) [of featureGateEmulationVersion] by (auto simp: featureGateEmulationVersion_def)
  then have "Enabled fs order None ConsumableShares = Inr False" "Enabled fs order None ContextualLogging = Inr True"
    by (simp_all add: Enabled_def FeatureGates_def featureEnabled_def registry_def shares_setting_def
          featureGateEmulationVersion_def)
  with r [of v] show ?thesis by (cases "MajorMinor 1 24 \<le> v") auto
qed

lemma registry_needs_kubernetes_version_witness:
  "(\<exists>m. newFeatureGates loggingFeatureGates (\<lambda>m. sorted_list_of_set (dom m)) (MajorMinor 0 4) = Inl (Panic m)) \<and>
   Enabled loggingFeatureGates (\<lambda>m. sorted_list_of_set (dom m)) None ConsumableShares = Inr False"
proof -
  have "lists_logging loggingFeatureGates" by (simp add: lists_logging_def loggingFeatureGates_def gate_names)
  from registry_needs_kubernetes_version [OF this ranges_sorted, of "MajorMinor 0 4"] show ?thesis by auto
qed

text \<open>C30 (equivalence). Whatever values the feature gates flag is given, one after the other and whatever order the
  maps are ranged over in: they are accepted exactly when each of them parses and names only the
  driver's gate, the logging gates and the two gates for a whole stage; then the sharing gate has
  its own last setting, or else the first setting of \<open>AllAlpha\<close>, or else is off, and contextual
  logging has its last setting or is on.\<close>

theorem feature_gates_flag:
  assumes "lists_logging fs" and "ranges order" and "newFeatureGates fs order v = Inr f"
    and "set_values order vs f = (f', errs)"
  shows "(errs = [] \<longleftrightarrow> (\<exists>ms. rtraverse gate_value vs = Inr ms \<and> list_all known_settings ms)) \<and>
    (\<forall>ms. errs = [] \<longrightarrow> rtraverse gate_value vs = Inr ms \<longrightarrow>
       featureEnabled ConsumableShares f' = Inr (case last_setting ms ConsumableShares of Some b \<Rightarrow> b
         | None \<Rightarrow> (case first_setting ms allAlphaGate of Some b \<Rightarrow> b | None \<Rightarrow> False)) \<and>
       featureEnabled ContextualLogging f' = Inr (case last_setting ms ContextualLogging of Some b \<Rightarrow> b | None \<Rightarrow> True))"
proof -
  note r = set_values_registry [OF assms]
  show ?thesis using r(2) registry_gates [OF r(3) r(1)] by blast
qed

lemma feature_gates_flag_witness:
  "\<exists>f f'. newFeatureGates loggingFeatureGates (\<lambda>m. sorted_list_of_set (dom m)) featureGateEmulationVersion = Inr f \<and>
     set_values (\<lambda>m. sorted_list_of_set (dom m)) [''AllAlpha=true'', ''ConsumableShares=f,AllAlpha=false''] f = (f', []) \<and>
     featureEnabled ConsumableShares f' = Inr False"
proof -
  let ?o = "\<lambda>m. sorted_list_of_set (dom m)"
  let ?ms = "[[allAlphaGate \<mapsto> True], [ConsumableShares \<mapsto> False, allAlphaGate \<mapsto> False]]"
  have fs: "lists_logging loggingFeatureGates" by (simp add: lists_logging_def loggingFeatureGates_def gate_names)
  obtain f where f: "newFeatureGates loggingFeatureGates ?o featureGateEmulationVersion = Inr f"
    using newFeatureGates_registry(1) [OF fs ranges_sorted, of featureGateEmulationVersion]
    by (auto simp: featureGateEmulationVersion_def)
  obtain f' errs where run: "set_values ?o [''AllAlpha=true'', ''ConsumableShares=f,AllAlpha=false''] f = (f', errs)"
    by (cases "set_values ?o [''AllAlpha=true'', ''ConsumableShares=f,AllAlpha=false''] f")
  have parse: "rtraverse gate_value [''AllAlpha=true'', ''ConsumableShares=f,AllAlpha=false''] = Inr ?ms"
    by (simp add: gate_value_def go_defs is_space_def ParseBool_def gate_names)
  have known: "list_all known_settings ?ms" by (simp add: known_settings_def dom_known_gates)
  note out = feature_gates_flag [OF fs ranges_sorted f run]
  from out parse known have ok: "errs = []" by blast
  with out parse have "featureEnabled ConsumableShares f' = Inr False" by (auto simp: gate_names)
  with f run ok show ?thesis by blast
qed

end
