(* ===== verification/App.thy ===== *)
theory App
  imports StartupLife FeatureGates
begin

text \<open>
  The application of main.go with the flags of pkg/flags: the table of flags \<open>newApp\<close> registers, how
  urfave/cli and Go's \<open>flag\<close> package resolve them from the environment and the command line, the
  checks before the action, and the action. A flag changes a state of type \<open>'a\<close>; the application's
  is \<open>app_state\<close>. Parameters are the parsing of the two numeric flags of the Kubernetes client
  (\<open>'f\<close> is Go's float64), client-go (\<open>'c\<close> is a \<open>rest.Config\<close>) and the logging configuration of
  component-base (\<open>'l\<close>) with the flags it adds.
\<close>

section \<open>Flags and the command line\<close>

record 'a cli_flag =
  flName :: string
  flEnvVars :: "string list"
  flRequired :: bool
  flIsBool :: bool
  flTakesEmptyEnv :: bool     \<comment> \<open>a string takes an empty variable, the other kinds ignore it\<close>
  flEnvError :: string
  flRegister :: "'a \<Rightarrow> 'a"    \<comment> \<open>what registering writes when no variable is set\<close>
  flFromEnv :: "string \<Rightarrow> 'a \<Rightarrow> 'a result"
  flSet :: "string \<Rightarrow> 'a \<Rightarrow> 'a result"

text \<open>\<open>flagFromEnvOrFile\<close> (no flag of this application names a file).\<close>

fun flagFromEnv :: "strmap \<Rightarrow> string list \<Rightarrow> string option" where
  "flagFromEnv environ [] = None"
| "flagFromEnv environ (v # vs) =
     (case environ (TrimSpace v) of Some x \<Rightarrow> Some x | None \<Rightarrow> flagFromEnv environ vs)"

text \<open>The value of a variable that counts, and \<open>Apply\<close> of the flags in their order.\<close>

definition env_value :: "strmap \<Rightarrow> 'a cli_flag \<Rightarrow> string option" where
  "env_value environ fl =
     (case flagFromEnv environ (flEnvVars fl) of
        None \<Rightarrow> None
      | Some v \<Rightarrow> if v \<noteq> [] \<or> flTakesEmptyEnv fl then Some v else None)"

fun apply_flags :: "strmap \<Rightarrow> 'a cli_flag list \<Rightarrow> 'a \<Rightarrow> 'a result" where
  "apply_flags environ [] a = Inr a"
| "apply_flags environ (fl # fls) a =
     (case env_value environ fl of
        None \<Rightarrow> apply_flags environ fls (flRegister fl a)
      | Some v \<Rightarrow>
          (case flFromEnv fl v a of
             Inl e \<Rightarrow> Inl (ErrText (flEnvError fl) [v, flName fl] e)
           | Inr a \<Rightarrow> apply_flags environ fls a))"

text \<open>
  \<open>FlagSet.Parse\<close>: the state, the flags set with their values in order, and the arguments left.
\<close>

fun parse_args ::
  "'a cli_flag list \<Rightarrow> string list \<Rightarrow> 'a \<Rightarrow> (string \<times> string) list \<Rightarrow> ('a \<times> (string \<times> string) list \<times> string list) result" where
  "parse_args fls [] a given = Inr (a, given, [])"
| "parse_args fls (s # rest) a given =
     (if length s < 2 \<or> s ! 0 \<noteq> CHR ''-'' then Inr (a, given, s # rest)
      else if s = ''--'' then Inr (a, given, rest)
      else (let body = (if s ! 1 = CHR ''-'' then drop 2 s else drop 1 s) in
        if length body = 0 \<or> body ! 0 = CHR ''-'' \<or> body ! 0 = CHR ''='' then Inl (Errorf ''bad flag syntax: %s'' [s])
        else (let arr = split_first (CHR ''='') body; name = arr ! 0 in
          case find (\<lambda>fl. flName fl = name) fls of
            None \<Rightarrow> Inl (Errorf ''flag provided but not defined: -%s'' [name])
          | Some fl \<Rightarrow>
              if flIsBool fl then
                (let v = (if length arr = 2 then arr ! 1 else ''true'') in
                 case flSet fl v a of
                   Inl e \<Rightarrow> Inl (if length arr = 2 then ErrText ''invalid boolean value %q for -%s: %v'' [v, name] e
                                else ErrText ''invalid boolean flag %s: %v'' [name] e)
                 | Inr a \<Rightarrow> parse_args fls rest a (given @ [(name, v)]))
              else if length arr = 2 then
                (case flSet fl (arr ! 1) a of
                   Inl e \<Rightarrow> Inl (ErrText ''invalid value %q for flag -%s: %v'' [arr ! 1, name] e)
                 | Inr a \<Rightarrow> parse_args fls rest a (given @ [(name, arr ! 1)]))
              else (case rest of
                  [] \<Rightarrow> Inl (Errorf ''flag needs an argument: -%s'' [name])
                | v # rest' \<Rightarrow>
                   (case flSet fl v a of
                      Inl e \<Rightarrow> Inl (ErrText ''invalid value %q for flag -%s: %v'' [v, name] e)
                    | Inr a \<Rightarrow> parse_args fls rest' a (given @ [(name, v)]))))))"

text \<open>A flag is set by its variable or on the command line; the required ones must be.\<close>

definition is_set :: "strmap \<Rightarrow> (string \<times> string) list \<Rightarrow> 'a cli_flag \<Rightarrow> bool" where
  "is_set environ given fl \<longleftrightarrow> env_value environ fl \<noteq> None \<or> flName fl \<in> fst ` set given"

definition missingFlags :: "strmap \<Rightarrow> (string \<times> string) list \<Rightarrow> 'a cli_flag list \<Rightarrow> string list" where
  "missingFlags environ given fls = map flName (filter (\<lambda>fl. flRequired fl \<and> \<not> is_set environ given fl) fls)"

definition checkRequiredFlags :: "strmap \<Rightarrow> (string \<times> string) list \<Rightarrow> 'a cli_flag list \<Rightarrow> go_error option" where
  "checkRequiredFlags environ given fls =
     (let missing = missingFlags environ given fls in
      if length missing \<noteq> 0 then
        (if length missing = 1 then Some (Errorf ''Required flag %q not set'' missing)
         else Some (Errorf ''Required flags %q not set'' [join '', '' missing]))
      else None)"

section \<open>Kinds of flags\<close>

definition StringFlag :: "string \<Rightarrow> string list \<Rightarrow> bool \<Rightarrow> string \<Rightarrow> (string \<Rightarrow> 'a \<Rightarrow> 'a) \<Rightarrow> 'a cli_flag" where
  "StringFlag name vars req dflt put =
     \<lparr>flName = name, flEnvVars = vars, flRequired = req, flIsBool = False, flTakesEmptyEnv = True, flEnvError = [],
      flRegister = put dflt, flFromEnv = (\<lambda>v a. Inr (put v a)), flSet = (\<lambda>v a. Inr (put v a))\<rparr>"

text \<open>A numeric flag; \<open>kind\<close> is the word of its error message.\<close>

definition NumberFlag ::
  "string \<Rightarrow> string \<Rightarrow> string list \<Rightarrow> 'v \<Rightarrow> (string \<Rightarrow> 'v result) \<Rightarrow> ('v \<Rightarrow> 'a \<Rightarrow> 'a) \<Rightarrow> 'a cli_flag" where
  "NumberFlag kind name vars dflt parse put =
     \<lparr>flName = name, flEnvVars = vars, flRequired = False, flIsBool = False, flTakesEmptyEnv = False,
      flEnvError = ''could not parse %q as '' @ kind @ '' value from environment for flag %s: %s'',
      flRegister = put dflt, flFromEnv = (\<lambda>v a. rbind (parse v) (\<lambda>x. Inr (put x a))),
      flSet = (\<lambda>v a. rbind (parse v) (\<lambda>x. Inr (put x a)))\<rparr>"

text \<open>A flag whose value is an object with a setter of its own.\<close>

definition GenericFlag :: "string \<Rightarrow> string list \<Rightarrow> bool \<Rightarrow> (string \<Rightarrow> 'a \<Rightarrow> 'a result) \<Rightarrow> 'a cli_flag" where
  "GenericFlag name vars isBool put =
     \<lparr>flName = name, flEnvVars = vars, flRequired = False, flIsBool = isBool, flTakesEmptyEnv = False,
      flEnvError = ''could not parse %q from environment as value for flag %s: %s'',
      flRegister = (\<lambda>a. a), flFromEnv = put, flSet = put\<rparr>"

text \<open>A slice of strings with the mark that tells whether the next value starts it afresh.\<close>

type_synonym string_slice = "string list \<times> bool"

fun slice_set :: "string \<Rightarrow> string_slice \<Rightarrow> string_slice" where
  "slice_set v (sl, hasBeenSet) = ((if hasBeenSet then sl else []) @ map TrimSpace (split_on (CHR '','') v), True)"

definition slice_from_env :: "string \<Rightarrow> string_slice \<Rightarrow> string_slice" where
  "slice_from_env v sl = (fst (fold slice_set (map TrimSpace (split_on (CHR '','') v)) sl), False)"

definition StringSliceFlag :: "string \<Rightarrow> string list \<Rightarrow> string list \<Rightarrow> ((string_slice \<Rightarrow> string_slice) \<Rightarrow> 'a \<Rightarrow> 'a) \<Rightarrow> 'a cli_flag" where
  "StringSliceFlag name vars dflt upd =
     \<lparr>flName = name, flEnvVars = vars, flRequired = False, flIsBool = False, flTakesEmptyEnv = True, flEnvError = [],
      flRegister = upd (\<lambda>_. (dflt, False)), flFromEnv = (\<lambda>v a. Inr (upd (\<lambda>_. slice_from_env v (dflt, False)) a)),
      flSet = (\<lambda>v a. Inr (upd (slice_set v) a))\<rparr>"

section \<open>The Kubernetes client, pkg/flags/kubeclient.go\<close>

record 'f KubeClientConfig =
  KubeConfig :: string
  KubeAPIQPS :: 'f
  KubeAPIBurst :: i64

type_synonym core_client = "string \<Rightarrow> strmap result"

text \<open>client-go, and the parsing of numbers: \<open>clLimits\<close> sets the rate (as float32) and the burst.\<close>

record ('f, 'c) client_lib =
  clParseFloat :: "string \<Rightarrow> 'f result"
  clParseInt :: "string \<Rightarrow> i64 result"
  clZero :: 'f
  clFive :: 'f
  clInCluster :: "'c result"
  clBuildConfig :: "string \<Rightarrow> string \<Rightarrow> 'c result"
  clLimits :: "'f \<Rightarrow> i64 \<Rightarrow> 'c \<Rightarrow> 'c"
  clNewForConfig :: "'c \<Rightarrow> core_client result"

definition NewClientSetConfig :: "('f, 'c) client_lib \<Rightarrow> 'f KubeClientConfig \<Rightarrow> 'c result" where
  "NewClientSetConfig lib k =
     (case (if KubeConfig k = [] then
              (case clInCluster lib of
                 Inl e \<Rightarrow> Inl (ErrText ''create in-cluster client configuration: %v'' [] e) | Inr c \<Rightarrow> Inr c)
            else
              (case clBuildConfig lib [] (KubeConfig k) of
                 Inl e \<Rightarrow> Inl (ErrText ''create out-of-cluster client configuration: %v'' [] e) | Inr c \<Rightarrow> Inr c)) of
        Inl e \<Rightarrow> Inl e
      | Inr c \<Rightarrow> Inr (clLimits lib (KubeAPIQPS k) (KubeAPIBurst k) c))"

definition NewClientSets :: "('f, 'c) client_lib \<Rightarrow> 'f KubeClientConfig \<Rightarrow> core_client result" where
  "NewClientSets lib k =
     (case NewClientSetConfig lib k of
        Inl e \<Rightarrow> Inl (ErrText ''create client configuration: %v'' [] e)
      | Inr c \<Rightarrow>
     (case clNewForConfig lib c of
        Inl e \<Rightarrow> Inl (ErrText ''create core client: %v'' [] e)
      | Inr core \<Rightarrow> Inr core))"

section \<open>The state the flags fill\<close>

text \<open>\<open>Flags\<close> of main.go with the fields only the library reads.\<close>

record 'f AppFlags = Flags +
  kubeClientConfig :: "'f KubeClientConfig"
  deviceClasses :: "string set"
  kubeletRegistrarDirectoryPath :: string

record ('f, 'l) app_state =
  apFlags :: "'f AppFlags"
  apDeviceClasses :: string_slice
  apGates :: featureGate
  apLogging :: 'l
  apHelp :: bool

type_synonym ('f, 'l) app_flag = "('f, 'l) app_state cli_flag"

definition KubeletRegistryDir :: string where "KubeletRegistryDir = ''/var/lib/kubelet/plugins_registry''"
definition KubeletPluginsDir :: string where "KubeletPluginsDir = ''/var/lib/kubelet/plugins''"

definition KubeClientConfig_Flags :: "('f, 'c) client_lib \<Rightarrow> ('f, 'l) app_flag list" where
  "KubeClientConfig_Flags lib =
     [StringFlag ''kubeconfig'' [''KUBECONFIG''] False []
        (\<lambda>v. apFlags_update (kubeClientConfig_update (KubeConfig_update (\<lambda>_. v)))),
      NumberFlag ''float64'' ''kube-api-qps'' [''KUBE_API_QPS''] (clFive lib) (clParseFloat lib)
        (\<lambda>v. apFlags_update (kubeClientConfig_update (KubeAPIQPS_update (\<lambda>_. v)))),
      NumberFlag ''int'' ''kube-api-burst'' [''KUBE_API_BURST''] 10 (clParseInt lib)
        (\<lambda>v. apFlags_update (kubeClientConfig_update (KubeAPIBurst_update (\<lambda>_. v))))]"

text \<open>The aggregate as one error, and the flag bound to the registry.\<close>

definition aggregate_error :: "aggregate \<Rightarrow> go_error" where
  "aggregate_error errs =
     (if length errs = 1 then errs ! 0 else Errorf ''[%s]'' [join '', '' (map error_words errs)])"

definition set_feature_gates :: "(settings \<Rightarrow> string list) \<Rightarrow> string \<Rightarrow> ('f, 'l) app_state \<Rightarrow> ('f, 'l) app_state result" where
  "set_feature_gates order v st =
     (case Set order v (apGates st) of
        (g, errs) \<Rightarrow> if length errs = 0 then Inr (st\<lparr>apGates := g\<rparr>) else Inl (aggregate_error errs))"

definition FeatureGateConfig_Flags :: "(settings \<Rightarrow> string list) \<Rightarrow> ('f, 'l) app_flag list" where
  "FeatureGateConfig_Flags order = [GenericFlag ''feature-gates'' [''FEATURE_GATES''] False (set_feature_gates order)]"

text \<open>
  The flags of component-base's logging configuration are a parameter: a name, whether the value is
  a switch, and its setter. \<open>pflagToCLI\<close> gives each the variable its name spells.
\<close>

record 'l pflag =
  pfName :: string
  pfIsBool :: bool
  pfSet :: "string \<Rightarrow> 'l \<Rightarrow> 'l result"

definition char_upper :: "char \<Rightarrow> char" where
  "char_upper c = (if is_lower c then char_of ((of_char c :: nat) - 32) else c)"

definition ToUpper :: "string \<Rightarrow> string" where
  "ToUpper s = map char_upper s"

definition replace_char :: "char \<Rightarrow> char \<Rightarrow> string \<Rightarrow> string" where
  "replace_char c d s = map (\<lambda>x. if x = c then d else x) s"

definition pflagToCLI :: "'l pflag \<Rightarrow> ('f, 'l) app_flag" where
  "pflagToCLI p = GenericFlag (pfName p) [ToUpper (replace_char (CHR ''-'') (CHR ''_'') (pfName p))] (pfIsBool p)
     (\<lambda>v st. rbind (pfSet p v (apLogging st)) (\<lambda>l. Inr (st\<lparr>apLogging := l\<rparr>)))"

definition LoggingConfig_Flags :: "'l pflag list \<Rightarrow> ('f, 'l) app_flag list" where
  "LoggingConfig_Flags ps = map pflagToCLI ps"

text \<open>The help flag the library appends, under its two names.\<close>

definition HelpFlag :: "string \<Rightarrow> ('f, 'l) app_flag" where
  "HelpFlag name =
     \<lparr>flName = name, flEnvVars = [], flRequired = False, flIsBool = True, flTakesEmptyEnv = True, flEnvError = [],
      flRegister = apHelp_update (\<lambda>_. False), flFromEnv = (\<lambda>v a. Inr a),
      flSet = (\<lambda>v a. case ParseBool v of Inl e \<Rightarrow> Inl (Errorf ''parse error'' []) | Inr b \<Rightarrow> Inr (a\<lparr>apHelp := b\<rparr>))\<rparr>"

definition string_flag :: "string \<Rightarrow> string \<Rightarrow> bool \<Rightarrow> string \<Rightarrow> (string \<Rightarrow> 'f AppFlags \<Rightarrow> 'f AppFlags) \<Rightarrow> ('f, 'l) app_flag" where
  "string_flag name var req dflt put = StringFlag name [var] req dflt (\<lambda>v. apFlags_update (put v))"

definition plugin_flags :: "('f, 'l) app_flag list" where
  "plugin_flags =
     [string_flag ''node-name'' ''NODE_NAME'' True [] (\<lambda>v. nodeName_update (\<lambda>_. v)),
      string_flag ''cdi-root'' ''CDI_ROOT'' False ''/etc/cdi'' (\<lambda>v. cdiRoot_update (\<lambda>_. v)),
      StringSliceFlag ''device-classes'' [''DEVICE_CLASSES''] [''tpu''] apDeviceClasses_update,
      string_flag ''kubelet-registrar-directory-path'' ''KUBELET_REGISTRAR_DIRECTORY_PATH'' False KubeletRegistryDir
        (\<lambda>v. kubeletRegistrarDirectoryPath_update (\<lambda>_. v)),
      string_flag ''kubelet-plugins-directory-path'' ''KUBELET_PLUGINS_DIRECTORY_PATH'' False KubeletPluginsDir
        (\<lambda>v. kubeletPluginsDirectoryPath_update (\<lambda>_. v)),
      string_flag ''tpu-accelerator'' ''TPU_ACCELERATOR'' False [] (\<lambda>v. tpuAccelerator_update (\<lambda>_. v)),
      string_flag ''tpu-chip-count'' ''TPU_CHIP_COUNT'' False [] (\<lambda>v. Flags.tpuChipCount_update (\<lambda>_. v)),
      string_flag ''tpu-topology'' ''TPU_TOPOLOGY'' False [] (\<lambda>v. tpuTopology_update (\<lambda>_. v)),
      string_flag ''tpu-ici-resiliency'' ''TPU_ICI_RESILIENCY'' False [] (\<lambda>v. tpuICIResiliency_update (\<lambda>_. v)),
      string_flag ''tpu-env-file'' ''TPU_ENV_FILE'' False ''/etc/tpu/tpu-env'' (\<lambda>v. tpuEnvFilePath_update (\<lambda>_. v)),
      string_flag ''consumable-shares'' ''CONSUMABLE_SHARES'' False consumableSharesDisabled
        (\<lambda>v. consumableShares_update (\<lambda>_. v))]"

section \<open>The application\<close>

text \<open>
  What the process finds outside: \<open>axStartup\<close> is the node and the plugin's environment, \<open>axClient\<close>
  client-go, \<open>axLogFlags\<close>, \<open>axLogging\<close> and \<open>axApplyLogging\<close> the logging configuration, \<open>axLoggingGates\<close>
  and \<open>axOrder\<close> the order in which maps are ranged over.
\<close>

record ('n, 'f, 'c, 'l) app_outside =
  axStartup :: "'n startup"
  axClient :: "('f, 'c) client_lib"
  axLogFlags :: "'l pflag list"
  axLogging :: 'l
  axApplyLogging :: "'l \<Rightarrow> featureGate \<Rightarrow> go_error option"
  axLoggingGates :: features
  axOrder :: "settings \<Rightarrow> string list"

definition app_flags :: "('n, 'f, 'c, 'l) app_outside \<Rightarrow> ('f, 'l) app_flag list" where
  "app_flags ax =
     plugin_flags @ KubeClientConfig_Flags (axClient ax) @ FeatureGateConfig_Flags (axOrder ax) @
     LoggingConfig_Flags (axLogFlags ax) @ [HelpFlag ''help'', HelpFlag ''h'']"

text \<open>
  \<open>newApp\<close> makes the registry (it may panic) and zero flags; registering the flags writes their
  defaults or the environment over them.
\<close>

definition zero_flags :: "('f, 'c) client_lib \<Rightarrow> 'f AppFlags" where
  "zero_flags lib =
     \<lparr>nodeName = [], cdiRoot = [], kubeletPluginsDirectoryPath = [], consumableShares = [], tpuAccelerator = [],
      tpuChipCount = [], tpuTopology = [], tpuICIResiliency = [], tpuEnvFilePath = [],
      kubeClientConfig = \<lparr>KubeConfig = [], KubeAPIQPS = clZero lib, KubeAPIBurst = 0\<rparr>,
      deviceClasses = {}, kubeletRegistrarDirectoryPath = []\<rparr>"

definition newApp :: "('n, 'f, 'c, 'l) app_outside \<Rightarrow> ('f, 'l) app_state result" where
  "newApp ax =
     (case FeatureGates (axLoggingGates ax) (axOrder ax) None of
        Inl e \<Rightarrow> Inl e
      | Inr g \<Rightarrow> Inr \<lparr>apFlags = zero_flags (axClient ax), apDeviceClasses = ([], False), apGates = g,
                      apLogging = axLogging ax, apHelp = False\<rparr>)"

text \<open>The flags as the library resolves them, with the two forms of the help flag.\<close>

definition parse_flags ::
  "('n, 'f, 'c, 'l) app_outside \<Rightarrow> string list \<Rightarrow> ('f, 'l) app_state \<Rightarrow>
     (('f, 'l) app_state \<times> (string \<times> string) list \<times> string list) result" where
  "parse_flags ax args st =
     (case apply_flags (suEnviron (axStartup ax)) (app_flags ax) st of
        Inl e \<Rightarrow> Inl e
      | Inr st \<Rightarrow>
     (case parse_args (app_flags ax) args st [] of
        Inl e \<Rightarrow> Inl e
      | Inr (st, given, rest) \<Rightarrow>
          if ''help'' \<in> fst ` set given \<and> ''h'' \<in> fst ` set given then
            Inl (Errorf ''Cannot use two forms of the same flag: h help'' [])
          else Inr (st, given, rest)))"

text \<open>The \<open>Before\<close> hook, and the action with the flags it was given.\<close>

definition app_before :: "('n, 'f, 'c, 'l) app_outside \<Rightarrow> ('f, 'l) app_state \<Rightarrow> string list \<Rightarrow> go_error option" where
  "app_before ax st rest =
     (if length rest > 0 then Some (Errorf ''arguments not supported: %v'' rest)
      else axApplyLogging ax (apLogging st) (apGates st))"

datatype 'd app_end =
    AppFailed go_error
  | AppHelp "string list"     \<comment> \<open>the library prints help on these arguments\<close>
  | AppRan "'d outcome"

definition app_action ::
  "('n, 'f, 'c, 'l) app_outside \<Rightarrow> ('f, 'l) app_state \<Rightarrow> 'n wait_end list \<Rightarrow> 'n \<Rightarrow> 'n \<times> driver app_end" where
  "app_action ax st waits n =
     (case featureEnabled ConsumableShares (apGates st) of
        Inl e \<Rightarrow> (n, AppFailed e)
      | Inr gate \<Rightarrow>
     (let fl = (apFlags st)\<lparr>deviceClasses := set (fst (apDeviceClasses st))\<rparr> in
      case plugin_action ((axStartup ax)\<lparr>suGate := gate\<rparr>) (Flags.truncate fl)
             (NewClientSets (axClient ax) (kubeClientConfig fl)) waits n of
        (n, r) \<Rightarrow> (n, AppRan r)))"

definition run_app ::
  "('n, 'f, 'c, 'l) app_outside \<Rightarrow> string list \<Rightarrow> 'n wait_end list \<Rightarrow> 'n \<Rightarrow> 'n \<times> driver app_end" where
  "run_app ax args waits n =
     (case newApp ax of
        Inl e \<Rightarrow> (n, AppFailed e)
      | Inr st \<Rightarrow>
     (case parse_flags ax args st of
        Inl e \<Rightarrow> (n, AppFailed e)
      | Inr (st, given, rest) \<Rightarrow>
          if apHelp st then (n, AppHelp rest)
          else (case checkRequiredFlags (suEnviron (axStartup ax)) given (app_flags ax) of
              Some e \<Rightarrow> (n, AppFailed e)
            | None \<Rightarrow>
          (case app_before ax st rest of
              Some e \<Rightarrow> (n, AppFailed e)
            | None \<Rightarrow> app_action ax st waits n))))"

text \<open>\<open>main\<close>: an error of the application is printed and the process exits with 1; a panic exits with 2.\<close>

definition main_error :: "driver app_end \<Rightarrow> go_error option" where
  "main_error r = (case r of AppFailed e \<Rightarrow> Some e | AppRan (Exited (Some e)) \<Rightarrow> Some e | _ \<Rightarrow> None)"

definition main_status :: "driver app_end \<Rightarrow> nat" where
  "main_status r = (case main_error r of None \<Rightarrow> 0 | Some e \<Rightarrow> if is_panic e then 2 else 1)"

end
