(* ===== verification/AppLife.thy ===== *)
theory AppLife
  imports App
begin

text \<open>
  How the flags come out: a string flag has its last value on the command line, else its variable,
  else its default; a canonical command line is read back as it was meant; chips are shared only
  when the feature gates were told so.
\<close>

section \<open>What the command line does to the state\<close>

text \<open>One flag at a time, on a view \<open>g\<close> of the state.\<close>

fun given_ok :: "(string \<Rightarrow> string \<Rightarrow> 'b \<Rightarrow> bool) \<Rightarrow> (string \<Rightarrow> string \<Rightarrow> 'b \<Rightarrow> 'b) \<Rightarrow> (string \<times> string) list \<Rightarrow> 'b \<Rightarrow> bool" where
  "given_ok ok upd [] b \<longleftrightarrow> True"
| "given_ok ok upd ((k, v) # kvs) b \<longleftrightarrow> ok k v b \<and> given_ok ok upd kvs (upd k v b)"

fun given_fold :: "(string \<Rightarrow> string \<Rightarrow> 'b \<Rightarrow> 'b) \<Rightarrow> (string \<times> string) list \<Rightarrow> 'b \<Rightarrow> 'b" where
  "given_fold upd [] b = b"
| "given_fold upd ((k, v) # kvs) b = given_fold upd kvs (upd k v b)"

lemma parse_args_step:
  assumes "parse_args fls (s # rest) a given = Inr r"
  shows "(\<exists>left. r = (a, given, left)) \<or>
    (\<exists>name fl v a1 rest'. find (\<lambda>fl. flName fl = name) fls = Some fl \<and> flSet fl v a = Inr a1 \<and>
       parse_args fls rest' a1 (given @ [(name, v)]) = Inr r \<and> length rest' \<le> length rest)"
proof -
  let ?body = "if s ! 1 = CHR ''-'' then drop 2 s else drop 1 s"
  let ?arr = "split_first (CHR ''='') ?body"
  consider "r = (a, given, s # rest)" | "r = (a, given, rest)"
    | fl v a1 rest' where "find (\<lambda>fl. flName fl = ?arr ! 0) fls = Some fl" "flSet fl v a = Inr a1"
        "parse_args fls rest' a1 (given @ [(?arr ! 0, v)]) = Inr r" "length rest' \<le> length rest"
    using assms
    by (auto simp: Let_def split: if_splits option.splits sum.splits list.splits)
  then show ?thesis by cases blast+
qed

lemma parse_args_view:
  assumes step: "\<And>name fl v a a'. find (\<lambda>fl. flName fl = name) fls = Some fl \<Longrightarrow> flSet fl v a = Inr a' \<Longrightarrow>
      ok name v (g a) \<and> g a' = upd name v (g a)"
    and "parse_args fls args a given = Inr (a', given', left)"
  shows "\<exists>new. given' = given @ new \<and> given_ok ok upd new (g a) \<and> g a' = given_fold upd new (g a)"
  using assms(2)
proof (induction "length args" arbitrary: args a given rule: less_induct)
  case less
  show ?case
  proof (cases args)
    case Nil
    with less.prems show ?thesis by (intro exI [of _ "[]"]) simp
  next
    case (Cons s rest)
    from parse_args_step [OF less.prems [unfolded Cons]] show ?thesis
    proof (elim disjE exE conjE)
      fix left'
      assume "(a', given', left) = (a, given, left')"
      then show ?thesis by (intro exI [of _ "[]"]) simp
    next
      fix name fl v a1 rest'
      assume fl: "find (\<lambda>fl. flName fl = name) fls = Some fl" "flSet fl v a = Inr a1"
        and run: "parse_args fls rest' a1 (given @ [(name, v)]) = Inr (a', given', left)" and len: "length rest' \<le> length rest"
      obtain new where "given' = (given @ [(name, v)]) @ new" "given_ok ok upd new (g a1)" "g a' = given_fold upd new (g a1)"
        using less.hyps [OF _ run] len Cons by auto
      with step [OF fl] show ?thesis by (intro exI [of _ "(name, v) # new"]) simp
    qed
  qed
qed

lemma apply_flags_append:
  "apply_flags environ (xs @ ys) a = rbind (apply_flags environ xs a) (apply_flags environ ys)"
  by (induction xs arbitrary: a) (auto split: option.splits sum.splits)

text \<open>A view that registering and environment leave alone.\<close>

lemma apply_flags_view:
  assumes "\<And>fl v a a'. fl \<in> set fls \<Longrightarrow> flFromEnv fl v a = Inr a' \<Longrightarrow> g a' = g a"
    and "\<And>fl a. fl \<in> set fls \<Longrightarrow> g (flRegister fl a) = g a"
    and "apply_flags environ fls a = Inr a'"
  shows "g a' = g a"
  using assms
proof (induction fls arbitrary: a)
  case Nil
  then show ?case by simp
next
  case (Cons fl fls)
  have IH: "g a' = g a1" if "apply_flags environ fls a1 = Inr a'" for a1
    by (rule Cons.IH [OF _ _ that]) (use Cons.prems(1,2) in auto)
  show ?case
  proof (cases "env_value environ fl")
    case None
    with Cons.prems(3) have "apply_flags environ fls (flRegister fl a) = Inr a'" by simp
    then show ?thesis using IH Cons.prems(2) by simp
  next
    case (Some v)
    with Cons.prems(3) obtain a1 where a1: "flFromEnv fl v a = Inr a1" "apply_flags environ fls a1 = Inr a'"
      by (auto split: sum.splits)
    with IH [OF a1(2)] Cons.prems(1) [OF _ a1(1)] show ?thesis by simp
  qed
qed

section \<open>The string flags\<close>

text \<open>A flag's value: the last one given, else the variable even when it is empty, else the default.\<close>

fun given_value :: "(string \<times> string) list \<Rightarrow> string \<Rightarrow> string \<Rightarrow> string" where
  "given_value [] name dflt = dflt"
| "given_value ((k, v) # kvs) name dflt = given_value kvs name (if k = name then v else dflt)"

definition flag_value :: "strmap \<Rightarrow> (string \<times> string) list \<Rightarrow> string \<Rightarrow> string \<Rightarrow> string \<Rightarrow> string" where
  "flag_value environ given name var dflt =
     given_value given name (case environ var of Some v \<Rightarrow> v | None \<Rightarrow> dflt)"

definition resolved_flags :: "strmap \<Rightarrow> (string \<times> string) list \<Rightarrow> Flags" where
  "resolved_flags environ given =
     \<lparr>nodeName = flag_value environ given ''node-name'' ''NODE_NAME'' [],
      cdiRoot = flag_value environ given ''cdi-root'' ''CDI_ROOT'' ''/etc/cdi'',
      kubeletPluginsDirectoryPath = flag_value environ given ''kubelet-plugins-directory-path'' ''KUBELET_PLUGINS_DIRECTORY_PATH'' KubeletPluginsDir,
      consumableShares = flag_value environ given ''consumable-shares'' ''CONSUMABLE_SHARES'' consumableSharesDisabled,
      tpuAccelerator = flag_value environ given ''tpu-accelerator'' ''TPU_ACCELERATOR'' [],
      tpuChipCount = flag_value environ given ''tpu-chip-count'' ''TPU_CHIP_COUNT'' [],
      tpuTopology = flag_value environ given ''tpu-topology'' ''TPU_TOPOLOGY'' [],
      tpuICIResiliency = flag_value environ given ''tpu-ici-resiliency'' ''TPU_ICI_RESILIENCY'' [],
      tpuEnvFilePath = flag_value environ given ''tpu-env-file'' ''TPU_ENV_FILE'' ''/etc/tpu/tpu-env''\<rparr>"

definition set_field :: "string \<Rightarrow> string \<Rightarrow> Flags \<Rightarrow> Flags" where
  "set_field k v fl =
     \<lparr>nodeName = (if k = ''node-name'' then v else nodeName fl),
      cdiRoot = (if k = ''cdi-root'' then v else cdiRoot fl),
      kubeletPluginsDirectoryPath = (if k = ''kubelet-plugins-directory-path'' then v else kubeletPluginsDirectoryPath fl),
      consumableShares = (if k = ''consumable-shares'' then v else consumableShares fl),
      tpuAccelerator = (if k = ''tpu-accelerator'' then v else tpuAccelerator fl),
      tpuChipCount = (if k = ''tpu-chip-count'' then v else Flags.tpuChipCount fl),
      tpuTopology = (if k = ''tpu-topology'' then v else tpuTopology fl),
      tpuICIResiliency = (if k = ''tpu-ici-resiliency'' then v else tpuICIResiliency fl),
      tpuEnvFilePath = (if k = ''tpu-env-file'' then v else tpuEnvFilePath fl)\<rparr>"

lemma given_fold_fields:
  "given_fold set_field new fl =
     \<lparr>nodeName = given_value new ''node-name'' (nodeName fl),
      cdiRoot = given_value new ''cdi-root'' (cdiRoot fl),
      kubeletPluginsDirectoryPath = given_value new ''kubelet-plugins-directory-path'' (kubeletPluginsDirectoryPath fl),
      consumableShares = given_value new ''consumable-shares'' (consumableShares fl),
      tpuAccelerator = given_value new ''tpu-accelerator'' (tpuAccelerator fl),
      tpuChipCount = given_value new ''tpu-chip-count'' (Flags.tpuChipCount fl),
      tpuTopology = given_value new ''tpu-topology'' (tpuTopology fl),
      tpuICIResiliency = given_value new ''tpu-ici-resiliency'' (tpuICIResiliency fl),
      tpuEnvFilePath = given_value new ''tpu-env-file'' (tpuEnvFilePath fl)\<rparr>"
proof (induction new arbitrary: fl)
  case Nil
  then show ?case by simp
next
  case (Cons kv new)
  obtain k v where kv: "kv = (k, v)" by (cases kv)
  show ?case unfolding kv given_fold.simps given_value.simps Cons.IH by (simp only: set_field_def Flags.simps)
qed

abbreviation own_flags :: "('f, 'l) app_state \<Rightarrow> Flags" where
  "own_flags st \<equiv> Flags.truncate (apFlags st)"

lemma find_append: "find P (xs @ ys) = (case find P xs of Some x \<Rightarrow> Some x | None \<Rightarrow> find P ys)"
  by (induction xs) auto

text \<open>The flags beside those of \<open>newApp\<close>'s own table leave the fields alone.\<close>

definition other_flags :: "('n, 'f, 'c, 'l) app_outside \<Rightarrow> ('f, 'l) app_flag list" where
  "other_flags ax = KubeClientConfig_Flags (axClient ax) @ FeatureGateConfig_Flags (axOrder ax) @
     LoggingConfig_Flags (axLogFlags ax) @ [HelpFlag ''help'', HelpFlag ''h'']"

lemma app_flags_split: "app_flags ax = plugin_flags @ other_flags ax"
  by (simp add: app_flags_def other_flags_def)

lemmas flag_kinds = StringFlag_def NumberFlag_def GenericFlag_def StringSliceFlag_def HelpFlag_def string_flag_def
  KubeClientConfig_Flags_def FeatureGateConfig_Flags_def LoggingConfig_Flags_def pflagToCLI_def

lemma rbind_Inr_iff: "rbind r f = Inr y \<longleftrightarrow> (\<exists>x. r = Inr x \<and> f x = Inr y)"
  by (cases r) auto

lemma other_flags_own:
  assumes "fl \<in> set (other_flags ax)"
  shows "flSet fl v st = Inr st' \<Longrightarrow> own_flags st' = own_flags st"
    and "flFromEnv fl v st = Inr st' \<Longrightarrow> own_flags st' = own_flags st"
    and "own_flags (flRegister fl st) = own_flags st"
  using assms
  by (auto simp: other_flags_def flag_kinds rbind_Inr_iff set_feature_gates_def Flags.defs split: prod.splits if_splits sum.splits)

lemma plugin_flag_names: "map flName (plugin_flags :: ('f, 'l) app_flag list) =
  [''node-name'', ''cdi-root'', ''device-classes'', ''kubelet-registrar-directory-path'', ''kubelet-plugins-directory-path'',
   ''tpu-accelerator'', ''tpu-chip-count'', ''tpu-topology'', ''tpu-ici-resiliency'', ''tpu-env-file'', ''consumable-shares'']"
  by (simp add: plugin_flags_def flag_kinds)

lemma own_string_flag:
  assumes "\<And>fl. Flags.truncate (put v fl) = set_field name v (Flags.truncate fl)"
    and "flSet (string_flag name var req d put) v st = Inr st'"
  shows "own_flags st' = set_field (flName (string_flag name var req d put)) v (own_flags st)"
  using assms by (auto simp: string_flag_def StringFlag_def)

lemma own_slice_flag:
  assumes "\<And>fl. set_field name v fl = fl" and "flSet (StringSliceFlag name vars d apDeviceClasses_update) v st = Inr st'"
  shows "own_flags st' = set_field (flName (StringSliceFlag name vars d apDeviceClasses_update)) v (own_flags st)"
  using assms by (auto simp: StringSliceFlag_def)

lemma plugin_flags_own:
  fixes st :: "('f, 'l) app_state"
  assumes "fl \<in> set plugin_flags" and "flSet fl v st = Inr st'"
  shows "own_flags st' = set_field (flName fl) v (own_flags st)"
proof -
  have "list_all (\<lambda>fl. \<forall>v st st'. flSet fl v st = Inr st' \<longrightarrow> own_flags st' = set_field (flName fl) v (own_flags st))
      (plugin_flags :: ('f, 'l) app_flag list)"
    unfolding plugin_flags_def list.pred_inject
    by (intro conjI allI impI list.pred_inject(1); (erule own_string_flag [rotated] | erule own_slice_flag [rotated]);
        simp add: set_field_def Flags.defs)
  with assms show ?thesis by (simp add: list_all_iff)
qed

lemma set_field_other:
  "name \<notin> flName ` set (plugin_flags :: ('f, 'l) app_flag list) \<Longrightarrow> set_field name v fl = fl"
proof -
  assume "name \<notin> flName ` set (plugin_flags :: ('f, 'l) app_flag list)"
  then have "name \<notin> set (map flName (plugin_flags :: ('f, 'l) app_flag list))" by simp
  then show ?thesis unfolding plugin_flag_names by (simp add: set_field_def)
qed

lemma set_own:
  fixes ax :: "('n, 'f, 'c, 'l) app_outside"
  assumes "find (\<lambda>fl. flName fl = name) (app_flags ax) = Some fl" and "flSet fl v st = Inr st'"
  shows "own_flags st' = set_field name v (own_flags st)"
proof (cases "find (\<lambda>fl. flName fl = name) (plugin_flags :: ('f, 'l) app_flag list)")
  case (Some fl')
  then have "fl' = fl" using assms(1) by (simp add: app_flags_split find_append)
  with Some have "fl \<in> set plugin_flags" "flName fl = name" by (auto simp: find_Some_iff)
  with plugin_flags_own [OF _ assms(2)] show ?thesis by auto
next
  case None
  then have "name \<notin> flName ` set (plugin_flags :: ('f, 'l) app_flag list)" by (auto simp: find_None_iff)
  moreover have "fl \<in> set (other_flags ax)" using assms(1) None by (auto simp: app_flags_split find_append find_Some_iff)
  ultimately show ?thesis using other_flags_own(1) [OF _ assms(2)] set_field_other by metis
qed

lemma apply_string_flag:
  "apply_flags environ (string_flag name var req d put # fls) a =
     apply_flags environ fls (apFlags_update (put (case environ (TrimSpace var) of Some v \<Rightarrow> v | None \<Rightarrow> d)) a)"
  by (cases "environ (TrimSpace var)") (simp_all add: string_flag_def StringFlag_def env_value_def)

lemma apply_slice_flag:
  "apply_flags environ (StringSliceFlag name vars d apDeviceClasses_update # fls) a =
     apply_flags environ fls (a\<lparr>apDeviceClasses :=
       (case flagFromEnv environ vars of Some v \<Rightarrow> slice_from_env v (d, False) | None \<Rightarrow> (d, False))\<rparr>)"
  by (cases "flagFromEnv environ vars") (simp_all add: StringSliceFlag_def env_value_def)

lemma trimmed_variables:
  "TrimSpace ''NODE_NAME'' = ''NODE_NAME''" "TrimSpace ''CDI_ROOT'' = ''CDI_ROOT''"
  "TrimSpace ''KUBELET_PLUGINS_DIRECTORY_PATH'' = ''KUBELET_PLUGINS_DIRECTORY_PATH''"
  "TrimSpace ''TPU_ACCELERATOR'' = ''TPU_ACCELERATOR''" "TrimSpace ''TPU_CHIP_COUNT'' = ''TPU_CHIP_COUNT''"
  "TrimSpace ''TPU_TOPOLOGY'' = ''TPU_TOPOLOGY''" "TrimSpace ''TPU_ICI_RESILIENCY'' = ''TPU_ICI_RESILIENCY''"
  "TrimSpace ''TPU_ENV_FILE'' = ''TPU_ENV_FILE''" "TrimSpace ''CONSUMABLE_SHARES'' = ''CONSUMABLE_SHARES''"
  by code_simp+

lemma apply_plugin_flags:
  "\<exists>st'. apply_flags environ plugin_flags st = Inr st' \<and> own_flags st' = resolved_flags environ [] \<and>
     apGates st' = apGates st \<and> apLogging st' = apLogging st \<and> apHelp st' = apHelp st \<and>
     kubeClientConfig (apFlags st') = kubeClientConfig (apFlags st)"
  by (simp add: plugin_flags_def apply_string_flag apply_slice_flag resolved_flags_def flag_value_def Flags.defs
      trimmed_variables del: apply_flags.simps(2))

lemma apply_app_flags:
  assumes "apply_flags environ (app_flags ax) st = Inr st'"
  shows "own_flags st' = resolved_flags environ []"
proof -
  obtain st1 where st1: "apply_flags environ plugin_flags st = Inr st1" "own_flags st1 = resolved_flags environ []"
    using apply_plugin_flags by blast
  then have "apply_flags environ (other_flags ax) st1 = Inr st'"
    using assms by (simp add: app_flags_split apply_flags_append)
  then have "own_flags st' = own_flags st1"
    by (rule apply_flags_view [where g = own_flags, rotated 2]) (use other_flags_own in blast)+
  with st1 show ?thesis by simp
qed

lemma given_fold_resolved: "given_fold set_field given (resolved_flags environ []) = resolved_flags environ given"
  by (simp add: given_fold_fields resolved_flags_def flag_value_def)

lemma parse_flags_own:
  assumes "parse_flags ax args st0 = Inr (st, given, rest)"
  shows "own_flags st = resolved_flags (suEnviron (axStartup ax)) given"
proof -
  obtain st1 where st1: "apply_flags (suEnviron (axStartup ax)) (app_flags ax) st0 = Inr st1"
    "parse_args (app_flags ax) args st1 [] = Inr (st, given, rest)"
    using assms by (auto simp: parse_flags_def split: sum.splits if_splits)
  have "given_ok (\<lambda>_ _ _. True) set_field given (own_flags st1) \<and> own_flags st = given_fold set_field given (own_flags st1)"
    using parse_args_view [of "app_flags ax" "\<lambda>_ _ _. True" own_flags set_field, OF _ st1(2)] set_own by fastforce
  then show ?thesis by (simp add: apply_app_flags [OF st1(1)] given_fold_resolved)
qed

section \<open>One flag alone\<close>

text \<open>
  A view \<open>g\<close> of the state that a single flag writes: what the flag finds in the environment, then
  every value given on the command line, in order, by the relation \<open>R\<close> between old and new view.
\<close>

definition untouched :: "('a \<Rightarrow> 'b) \<Rightarrow> 'a cli_flag \<Rightarrow> bool" where
  "untouched g fl \<longleftrightarrow>
     (\<forall>v a a'. flSet fl v a = Inr a' \<or> flFromEnv fl v a = Inr a' \<longrightarrow> g a' = g a) \<and> (\<forall>a. g (flRegister fl a) = g a)"

definition given_values :: "(string \<times> string) list \<Rightarrow> string \<Rightarrow> string list" where
  "given_values given name = map snd (filter (\<lambda>(k, v). k = name) given)"

fun through :: "(string \<Rightarrow> 'b \<Rightarrow> 'b \<Rightarrow> bool) \<Rightarrow> string list \<Rightarrow> 'b \<Rightarrow> 'b \<Rightarrow> bool" where
  "through R [] x y \<longleftrightarrow> x = y"
| "through R (v # vs) x y \<longleftrightarrow> (\<exists>z. R v x z \<and> through R vs z y)"

lemma apply_one_flag:
  assumes "apply_flags environ (xs @ fl # ys) a = Inr a'" and "list_all (untouched g) ys"
  shows "\<exists>b. case env_value environ fl of
      None \<Rightarrow> g a' = g (flRegister fl b) | Some v \<Rightarrow> (\<exists>c. flFromEnv fl v b = Inr c \<and> g a' = g c)"
proof -
  obtain b where b: "apply_flags environ (fl # ys) b = Inr a'"
    using assms(1) by (auto simp: apply_flags_append rbind_Inr_iff simp del: apply_flags.simps)
  have left: "g a' = g c" if "apply_flags environ ys c = Inr a'" for c
    by (rule apply_flags_view [OF _ _ that]) (use assms(2) in \<open>auto simp: list_all_iff untouched_def\<close>)
  show ?thesis
  proof (cases "env_value environ fl")
    case None
    with b left [of "flRegister fl b"] show ?thesis by auto
  next
    case (Some v)
    with b obtain c where "flFromEnv fl v b = Inr c" "apply_flags environ ys c = Inr a'" by (auto split: sum.splits)
    with Some left [of c] show ?thesis by auto
  qed
qed

lemma parse_one_flag:
  assumes parse: "parse_args (xs @ fl # ys) args a given = Inr (a', given', left)"
    and others: "list_all (untouched g) xs" "list_all (untouched g) ys" "flName fl \<notin> set (map flName xs)"
    and R: "\<And>v a a'. flSet fl v a = Inr a' \<Longrightarrow> R v (g a) (g a')"
  shows "\<exists>new. given' = given @ new \<and> through R (given_values new (flName fl)) (g a) (g a')"
  using parse
proof (induction "length args" arbitrary: args a given rule: less_induct)
  case less
  show ?case
  proof (cases args)
    case Nil
    with less.prems show ?thesis by (intro exI [of _ "[]"]) (simp add: given_values_def)
  next
    case (Cons s rest)
    from parse_args_step [OF less.prems [unfolded Cons]] show ?thesis
    proof (elim disjE exE conjE)
      fix left'
      assume "(a', given', left) = (a, given, left')"
      then show ?thesis by (intro exI [of _ "[]"]) (simp add: given_values_def)
    next
      fix name fl' v a1 rest'
      assume fl': "find (\<lambda>fl. flName fl = name) (xs @ fl # ys) = Some fl'" "flSet fl' v a = Inr a1"
        and run: "parse_args (xs @ fl # ys) rest' a1 (given @ [(name, v)]) = Inr (a', given', left)" and len: "length rest' \<le> length rest"
      obtain new where new: "given' = (given @ [(name, v)]) @ new" "through R (given_values new (flName fl)) (g a1) (g a')"
        using less.hyps [OF _ run] len Cons by auto
      have "if name = flName fl then R v (g a) (g a1) else g a1 = g a"
      proof (cases "name = flName fl")
        case True
        then have "find (\<lambda>fl. flName fl = name) xs = None"
          using others(3) by (simp add: find_None_iff) (metis image_eqI)
        with True fl'(1) have "fl' = fl" by (simp add: find_append)
        with True R [of v a a1] fl'(2) show ?thesis by simp
      next
        case False
        with fl'(1) have "fl' \<in> set xs \<union> set ys" by (auto simp: find_Some_iff nth_append nth_Cons split: if_splits nat.splits)
        with False others(1,2) fl'(2) show ?thesis by (auto simp: list_all_iff untouched_def)
      qed
      with new show ?thesis
        by (intro exI [of _ "(name, v) # new"]) (auto simp: given_values_def split: if_splits)
    qed
  qed
qed

lemma one_flag:
  assumes parse: "parse_flags ax args st0 = Inr (st, given, rest)" and i: "i < length (app_flags ax)"
    and others: "list_all (untouched g) (take i (app_flags ax))" "list_all (untouched g) (drop (Suc i) (app_flags ax))"
      "flName (app_flags ax ! i) \<notin> set (map flName (take i (app_flags ax)))"
    and R: "\<forall>v a a'. flSet (app_flags ax ! i) v a = Inr a' \<longrightarrow> R v (g a) (g a')"
  shows "\<exists>b x. (case env_value (suEnviron (axStartup ax)) (app_flags ax ! i) of
      None \<Rightarrow> x = g (flRegister (app_flags ax ! i) b) | Some v \<Rightarrow> (\<exists>c. flFromEnv (app_flags ax ! i) v b = Inr c \<and> x = g c)) \<and>
    through R (given_values given (flName (app_flags ax ! i))) x (g st)"
proof -
  let ?fl = "app_flags ax ! i"
  note split = id_take_nth_drop [OF i]
  obtain st1 where st1: "apply_flags (suEnviron (axStartup ax)) (app_flags ax) st0 = Inr st1"
    "parse_args (app_flags ax) args st1 [] = Inr (st, given, rest)"
    using parse by (auto simp: parse_flags_def split: sum.splits if_splits)
  have applied: "apply_flags (suEnviron (axStartup ax)) (take i (app_flags ax) @ ?fl # drop (Suc i) (app_flags ax)) st0 = Inr st1"
    and parsed: "parse_args (take i (app_flags ax) @ ?fl # drop (Suc i) (app_flags ax)) args st1 [] = Inr (st, given, rest)"
    unfolding split [symmetric] by (rule st1)+
  obtain b where "case env_value (suEnviron (axStartup ax)) ?fl of
      None \<Rightarrow> g st1 = g (flRegister ?fl b) | Some v \<Rightarrow> (\<exists>c. flFromEnv ?fl v b = Inr c \<and> g st1 = g c)"
    using apply_one_flag [OF applied others(2)] by blast
  moreover have "through R (given_values given (flName ?fl)) (g st1) (g st)"
    using parse_one_flag [where R = R, OF parsed others] R by simp
  ultimately show ?thesis by (intro exI [of _ b] exI [of _ "g st1"]) simp
qed

section \<open>The remaining flags of the plugin and its client\<close>

text \<open>
  The elements of a value of a flag that takes a list; a list flag has the elements of all the
  values given, else of the variable even when it is empty, else the default. A numeric flag has the
  last value given, else that of a variable that is not empty, else the default.
\<close>

definition slice_elems :: "string \<Rightarrow> string list" where
  "slice_elems v = map TrimSpace (split_on (CHR '','') v)"

definition flag_slice :: "strmap \<Rightarrow> (string \<times> string) list \<Rightarrow> string \<Rightarrow> string \<Rightarrow> string list \<Rightarrow> string list" where
  "flag_slice environ given name var dflt =
     (let vs = given_values given name in
      if vs \<noteq> [] then concat (map slice_elems vs)
      else (case environ var of Some v \<Rightarrow> slice_elems v | None \<Rightarrow> dflt))"

definition flag_setting :: "strmap \<Rightarrow> (string \<times> string) list \<Rightarrow> string \<Rightarrow> string \<Rightarrow> string option" where
  "flag_setting environ given name var =
     (let vs = given_values given name in
      if vs \<noteq> [] then Some (last vs)
      else (case environ var of Some v \<Rightarrow> if v = [] then None else Some v | None \<Rightarrow> None))"

definition number_is :: "(string \<Rightarrow> 'v result) \<Rightarrow> 'v \<Rightarrow> string option \<Rightarrow> 'v \<Rightarrow> bool" where
  "number_is parse dflt setting x \<longleftrightarrow> (case setting of None \<Rightarrow> x = dflt | Some v \<Rightarrow> parse v = Inr x)"

lemma through_last:
  assumes "through (\<lambda>v x y. Q v y) vs x y"
  shows "if vs = [] then y = x else Q (last vs) y"
  using assms
proof (induction vs arbitrary: x)
  case (Cons v vs)
  then obtain z where z: "Q v z" "through (\<lambda>v x y. Q v y) vs z y" by auto
  with Cons.IH [OF z(2)] show ?case by (auto split: if_splits)
qed simp

lemma through_slice_started:
  "through (\<lambda>v x y. y = slice_set v x) vs (sl, True) y \<Longrightarrow> y = (sl @ concat (map slice_elems vs), True)"
proof (induction vs arbitrary: sl)
  case (Cons v vs)
  then show ?case using Cons.IH [of "sl @ slice_elems v"] by (simp add: slice_elems_def)
qed simp

lemma through_slice:
  "through (\<lambda>v x y. y = slice_set v x) vs (sl, False) y \<Longrightarrow> fst y = (if vs = [] then sl else concat (map slice_elems vs))"
  by (cases vs) (auto simp: slice_elems_def dest: through_slice_started)

lemma given_value_last: "given_value given name d = (if given_values given name = [] then d else last (given_values given name))"
  by (induction given name d rule: given_value.induct) (auto simp: given_values_def)

lemma slice_from_env_elems: "slice_from_env v (d, False) = (slice_elems v, False)"
proof -
  have one: "slice_set w (sl, b) = ((if b then sl else []) @ [w], True)" if "CHR '','' \<notin> set w" "TrimSpace w = w" for w sl b
    using that by (simp add: split_on_absent)
  have started: "fold slice_set ws (sl, True) = (sl @ ws, True)"
    if "\<forall>w\<in>set ws. CHR '','' \<notin> set w \<and> TrimSpace w = w" for ws sl
    using that by (induction ws arbitrary: sl) (simp_all add: one del: slice_set.simps)
  have parts: "\<forall>w\<in>set (slice_elems v). CHR '','' \<notin> set w \<and> TrimSpace w = w"
    using split_on_parts trim_by_set by (fastforce simp: slice_elems_def TrimSpace_def trim_by_idem)
  obtain w ws where ws: "slice_elems v = w # ws" by (cases "slice_elems v") (simp_all add: slice_elems_def)
  with parts have "fold slice_set (slice_elems v) (d, False) = (slice_elems v, True)"
    by (simp add: one started del: slice_set.simps)
  then show ?thesis by (simp add: slice_from_env_def flip: slice_elems_def)
qed

lemma untouched_flags:
  "untouched g (string_flag n var r d put) \<longleftrightarrow> (\<forall>v a. g (apFlags_update (put v) a) = g a)"
  "untouched g (StringFlag n vars r d put') \<longleftrightarrow> (\<forall>v a. g (put' v a) = g a) \<and> (\<forall>a. g (put' d a) = g a)"
  "(\<And>h a. g (apDeviceClasses_update h a) = g a) \<Longrightarrow> untouched g (StringSliceFlag n vars ds apDeviceClasses_update)"
  "(\<And>v a. g (putn v a) = g a) \<Longrightarrow> untouched g (NumberFlag kind n vars x parse putn)"
  "(\<And>h a. g (apGates_update h a) = g a) \<Longrightarrow> list_all (untouched g) (FeatureGateConfig_Flags order)"
  "(\<And>h a. g (apLogging_update h a) = g a) \<Longrightarrow> list_all (untouched g) (LoggingConfig_Flags ps)"
  "(\<And>h a. g (apHelp_update h a) = g a) \<Longrightarrow> untouched g (HelpFlag n)"
  by (auto simp: untouched_def list_all_iff rbind_Inr_iff string_flag_def StringFlag_def StringSliceFlag_def NumberFlag_def
      FeatureGateConfig_Flags_def GenericFlag_def set_feature_gates_def LoggingConfig_Flags_def pflagToCLI_def HelpFlag_def
      split: prod.splits if_splits sum.splits)

lemmas rest_flags = app_flags_def plugin_flags_def KubeClientConfig_Flags_def untouched_flags list_all_append

lemma string_flag_resolved:
  assumes "parse_flags ax args st0 = Inr (st, given, rest)" and "i < length (app_flags ax)"
    and F: "app_flags ax ! i = StringFlag name [var] req d put" and var: "TrimSpace var = var"
    and "list_all (untouched g) (take i (app_flags ax))" "list_all (untouched g) (drop (Suc i) (app_flags ax))"
    and "name \<notin> set (map flName (take i (app_flags ax)))" and put: "\<And>v a. g (put v a) = v"
  shows "g st = flag_value (suEnviron (axStartup ax)) given name var d"
proof -
  have name: "flName (app_flags ax ! i) = name" by (simp add: F StringFlag_def)
  have fresh: "flName (app_flags ax ! i) \<notin> set (map flName (take i (app_flags ax)))" using assms(7) name by simp
  have set: "\<forall>v a a'. flSet (app_flags ax ! i) v a = Inr a' \<longrightarrow> g a' = v"
    using put by (auto simp: F StringFlag_def)
  obtain b x where x: "case env_value (suEnviron (axStartup ax)) (app_flags ax ! i) of
      None \<Rightarrow> x = g (flRegister (app_flags ax ! i) b) | Some v \<Rightarrow> (\<exists>c. flFromEnv (app_flags ax ! i) v b = Inr c \<and> x = g c)"
    and t: "through (\<lambda>v x y. y = v) (given_values given name) x (g st)"
    using one_flag [where R = "\<lambda>v x y. y = v", OF assms(1,2,5,6) fresh set] unfolding name by blast
  have "x = (case suEnviron (axStartup ax) var of Some v \<Rightarrow> v | None \<Rightarrow> d)"
    using x put by (auto simp: F StringFlag_def env_value_def var split: option.splits)
  with through_last [OF t] show ?thesis by (auto simp: flag_value_def given_value_last split: if_splits)
qed

lemma number_flag_resolved:
  assumes "parse_flags ax args st0 = Inr (st, given, rest)" and "i < length (app_flags ax)"
    and F: "app_flags ax ! i = NumberFlag kind name [var] d parse put" and var: "TrimSpace var = var"
    and "list_all (untouched g) (take i (app_flags ax))" "list_all (untouched g) (drop (Suc i) (app_flags ax))"
    and "name \<notin> set (map flName (take i (app_flags ax)))" and put: "\<And>v a. g (put v a) = v"
  shows "number_is parse d (flag_setting (suEnviron (axStartup ax)) given name var) (g st)"
proof -
  have name: "flName (app_flags ax ! i) = name" by (simp add: F NumberFlag_def)
  have fresh: "flName (app_flags ax ! i) \<notin> set (map flName (take i (app_flags ax)))" using assms(7) name by simp
  have set: "\<forall>v a a'. flSet (app_flags ax ! i) v a = Inr a' \<longrightarrow> parse v = Inr (g a')"
    using put by (auto simp: F NumberFlag_def rbind_Inr_iff)
  obtain b x where x: "case env_value (suEnviron (axStartup ax)) (app_flags ax ! i) of
      None \<Rightarrow> x = g (flRegister (app_flags ax ! i) b) | Some v \<Rightarrow> (\<exists>c. flFromEnv (app_flags ax ! i) v b = Inr c \<and> x = g c)"
    and t: "through (\<lambda>v x y. parse v = Inr y) (given_values given name) x (g st)"
    using one_flag [where R = "\<lambda>v x y. parse v = Inr y", OF assms(1,2,5,6) fresh set] unfolding name by blast
  have "case suEnviron (axStartup ax) var of
      None \<Rightarrow> x = d | Some v \<Rightarrow> if v = [] then x = d else parse v = Inr x"
    using x put by (auto simp: F NumberFlag_def env_value_def var rbind_Inr_iff split: option.splits)
  with through_last [OF t] show ?thesis
    by (auto simp: number_is_def flag_setting_def Let_def split: option.splits if_splits)
qed

lemma slice_flag_resolved:
  assumes "parse_flags ax args st0 = Inr (st, given, rest)" and "i < length (app_flags ax)"
    and F: "app_flags ax ! i = StringSliceFlag name [var] d apDeviceClasses_update" and var: "TrimSpace var = var"
    and "list_all (untouched apDeviceClasses) (take i (app_flags ax))"
      "list_all (untouched apDeviceClasses) (drop (Suc i) (app_flags ax))"
    and "name \<notin> set (map flName (take i (app_flags ax)))"
  shows "fst (apDeviceClasses st) = flag_slice (suEnviron (axStartup ax)) given name var d"
proof -
  have name: "flName (app_flags ax ! i) = name" by (simp add: F StringSliceFlag_def)
  have fresh: "flName (app_flags ax ! i) \<notin> set (map flName (take i (app_flags ax)))" using assms(7) name by simp
  have set: "\<forall>v a a'. flSet (app_flags ax ! i) v a = Inr a' \<longrightarrow> apDeviceClasses a' = slice_set v (apDeviceClasses a)"
    by (auto simp: F StringSliceFlag_def)
  obtain b x where x: "case env_value (suEnviron (axStartup ax)) (app_flags ax ! i) of
      None \<Rightarrow> x = apDeviceClasses (flRegister (app_flags ax ! i) b)
    | Some v \<Rightarrow> (\<exists>c. flFromEnv (app_flags ax ! i) v b = Inr c \<and> x = apDeviceClasses c)"
    and t: "through (\<lambda>v x y. y = slice_set v x) (given_values given name) x (apDeviceClasses st)"
    using one_flag [where R = "\<lambda>v x y. y = slice_set v x", OF assms(1,2,5,6) fresh set] unfolding name by blast
  have x': "x = (case suEnviron (axStartup ax) var of None \<Rightarrow> d | Some v \<Rightarrow> slice_elems v, False)"
    using x by (auto simp: F StringSliceFlag_def env_value_def var slice_from_env_elems split: option.splits)
  from through_slice [OF t [unfolded x']] show ?thesis
    by (cases "suEnviron (axStartup ax) var") (simp_all add: flag_slice_def Let_def)
qed

lemma flag_names:
  "flName (string_flag n var r d put) = n" "flName (StringFlag n vars r d put') = n"
  "flName (StringSliceFlag n vars ds upd) = n" "flName (NumberFlag kind n vars x parse putn) = n"
  by (simp_all add: string_flag_def StringFlag_def StringSliceFlag_def NumberFlag_def)

lemma rest_variables:
  "TrimSpace ''KUBELET_REGISTRAR_DIRECTORY_PATH'' = ''KUBELET_REGISTRAR_DIRECTORY_PATH''"
  "TrimSpace ''DEVICE_CLASSES'' = ''DEVICE_CLASSES''" "TrimSpace ''KUBECONFIG'' = ''KUBECONFIG''"
  "TrimSpace ''KUBE_API_QPS'' = ''KUBE_API_QPS''" "TrimSpace ''KUBE_API_BURST'' = ''KUBE_API_BURST''"
  by code_simp+

lemma parse_flags_rest:
  assumes "parse_flags ax args st0 = Inr (st, given, rest)"
  shows "kubeletRegistrarDirectoryPath (apFlags st) = flag_value (suEnviron (axStartup ax)) given
      ''kubelet-registrar-directory-path'' ''KUBELET_REGISTRAR_DIRECTORY_PATH'' KubeletRegistryDir" (is ?registrar)
    and "fst (apDeviceClasses st) = flag_slice (suEnviron (axStartup ax)) given
      ''device-classes'' ''DEVICE_CLASSES'' [''tpu'']" (is ?classes)
    and "KubeConfig (kubeClientConfig (apFlags st)) = flag_value (suEnviron (axStartup ax)) given
      ''kubeconfig'' ''KUBECONFIG'' []" (is ?config)
    and "number_is (clParseFloat (axClient ax)) (clFive (axClient ax))
      (flag_setting (suEnviron (axStartup ax)) given ''kube-api-qps'' ''KUBE_API_QPS'') (KubeAPIQPS (kubeClientConfig (apFlags st)))" (is ?qps)
    and "number_is (clParseInt (axClient ax)) 10
      (flag_setting (suEnviron (axStartup ax)) given ''kube-api-burst'' ''KUBE_API_BURST'') (KubeAPIBurst (kubeClientConfig (apFlags st)))" (is ?burst)
proof -
  note table = rest_flags rest_variables flag_names
  show ?registrar
    by (rule string_flag_resolved [OF assms, of 3, where put = "\<lambda>v. apFlags_update (kubeletRegistrarDirectoryPath_update (\<lambda>_. v))"])
      (simp_all add: table string_flag_def)
  show ?classes by (rule slice_flag_resolved [OF assms, of 2]) (simp_all add: table)
  show ?config
    by (rule string_flag_resolved [OF assms, of 11, where put = "\<lambda>v. apFlags_update (kubeClientConfig_update (KubeConfig_update (\<lambda>_. v)))"])
      (simp_all add: table)
  show ?qps
    by (rule number_flag_resolved [OF assms, of 12, where put = "\<lambda>v. apFlags_update (kubeClientConfig_update (KubeAPIQPS_update (\<lambda>_. v)))"])
      (simp_all add: table)
  show ?burst
    by (rule number_flag_resolved [OF assms, of 13, where put = "\<lambda>v. apFlags_update (kubeClientConfig_update (KubeAPIBurst_update (\<lambda>_. v)))"])
      (simp_all add: table)
qed


section \<open>The feature gates of the application\<close>

text \<open>The values the flag is given: its variable's unless empty, then those of the command line.\<close>

definition gate_flag_values :: "strmap \<Rightarrow> (string \<times> string) list \<Rightarrow> string list" where
  "gate_flag_values environ given =
     (case environ ''FEATURE_GATES'' of None \<Rightarrow> [] | Some v \<Rightarrow> if v = [] then [] else [v]) @
     map snd (filter (\<lambda>(k, v). k = ''feature-gates'') given)"

definition set_gate_flag :: "(settings \<Rightarrow> string list) \<Rightarrow> string \<Rightarrow> string \<Rightarrow> featureGate \<Rightarrow> featureGate" where
  "set_gate_flag order k v g = (if k = ''feature-gates'' then fst (Set order v g) else g)"

definition gate_flag_ok :: "(settings \<Rightarrow> string list) \<Rightarrow> string \<Rightarrow> string \<Rightarrow> featureGate \<Rightarrow> bool" where
  "gate_flag_ok order k v g \<longleftrightarrow> k = ''feature-gates'' \<longrightarrow> snd (Set order v g) = []"

lemma set_values_given:
  "given_ok (gate_flag_ok order) (set_gate_flag order) given g \<Longrightarrow>
   set_values order (map snd (filter (\<lambda>(k, v). k = ''feature-gates'') given)) g = (given_fold (set_gate_flag order) given g, [])"
  by (induction given arbitrary: g) (auto simp: gate_flag_ok_def set_gate_flag_def split: prod.splits)

lemma gates_flag_found:
  "find (\<lambda>fl. flName fl = ''feature-gates'') (app_flags ax) =
     Some (GenericFlag ''feature-gates'' [''FEATURE_GATES''] False (set_feature_gates (axOrder ax)))"
  by (simp add: app_flags_def plugin_flags_def flag_kinds)

lemma plugin_flags_gates:
  fixes st :: "('f, 'l) app_state"
  assumes "fl \<in> set plugin_flags" and "flSet fl v st = Inr st'"
  shows "apGates st' = apGates st"
proof -
  have "list_all (\<lambda>fl. \<forall>v st st'. flSet fl v st = Inr st' \<longrightarrow> apGates st' = apGates st) (plugin_flags :: ('f, 'l) app_flag list)"
    unfolding plugin_flags_def list.pred_inject
    by (intro conjI allI impI list.pred_inject(1)) (auto simp: string_flag_def StringFlag_def StringSliceFlag_def)
  with assms show ?thesis by (simp add: list_all_iff)
qed

lemma other_flags_gates:
  assumes "fl \<in> set (KubeClientConfig_Flags lib @ LoggingConfig_Flags ps @ [HelpFlag ''help'', HelpFlag ''h''])"
  shows "flSet fl v st = Inr st' \<Longrightarrow> apGates st' = apGates st"
    and "flFromEnv fl v st = Inr st' \<Longrightarrow> apGates st' = apGates st"
    and "apGates (flRegister fl st) = apGates st"
  using assms by (auto simp: flag_kinds rbind_Inr_iff split: sum.splits)

lemma set_gates_flag:
  assumes "find (\<lambda>fl. flName fl = name) (app_flags ax) = Some fl" and "flSet fl v st = Inr st'"
  shows "gate_flag_ok (axOrder ax) name v (apGates st) \<and> apGates st' = set_gate_flag (axOrder ax) name v (apGates st)"
proof (cases "name = ''feature-gates''")
  case True
  then have "fl = GenericFlag ''feature-gates'' [''FEATURE_GATES''] False (set_feature_gates (axOrder ax))"
    using assms(1) [unfolded True gates_flag_found] by simp
  then show ?thesis using assms(2) True
    by (auto simp: GenericFlag_def set_feature_gates_def gate_flag_ok_def set_gate_flag_def split: prod.splits if_splits)
next
  case False
  have "fl \<in> set (app_flags ax)" "flName fl = name" using assms(1) by (auto simp: find_Some_iff)
  then have "fl \<in> set plugin_flags \<or>
      fl \<in> set (KubeClientConfig_Flags (axClient ax) @ LoggingConfig_Flags (axLogFlags ax) @ [HelpFlag ''help'', HelpFlag ''h''])"
    using False by (auto simp: app_flags_def FeatureGateConfig_Flags_def GenericFlag_def)
  then have "apGates st' = apGates st" using plugin_flags_gates [OF _ assms(2)] other_flags_gates(1) [OF _ assms(2)] by blast
  with False show ?thesis by (simp add: gate_flag_ok_def set_gate_flag_def)
qed

lemma generic_flag_sel:
  "flFromEnv (GenericFlag n vars b put) = put" "flRegister (GenericFlag n vars b put) st = st"
  by (simp_all add: GenericFlag_def)

lemma apply_gates_flag:
  fixes st :: "('f, 'l) app_state"
  assumes "apply_flags environ (app_flags ax) st = Inr st'"
  shows "set_values (axOrder ax) (gate_flag_values environ []) (apGates st) = (apGates st', [])"
proof -
  let ?rest = "LoggingConfig_Flags (axLogFlags ax) @ [HelpFlag ''help'', HelpFlag ''h''] :: ('f, 'l) app_flag list"
  let ?kube = "KubeClientConfig_Flags (axClient ax) :: ('f, 'l) app_flag list"
  let ?gate = "GenericFlag ''feature-gates'' [''FEATURE_GATES''] False (set_feature_gates (axOrder ax)) :: ('f, 'l) app_flag"
  obtain st1 where st1: "apply_flags environ plugin_flags st = Inr st1" "apGates st1 = apGates st"
    using apply_plugin_flags by blast
  then obtain st2 where st2: "apply_flags environ ?kube st1 = Inr st2" "apply_flags environ (?gate # ?rest) st2 = Inr st'"
    using assms by (auto simp: app_flags_def apply_flags_append rbind_Inr_iff FeatureGateConfig_Flags_def simp del: apply_flags.simps)
  have view: "apGates b = apGates a" if "apply_flags environ fls a = Inr b"
    "set fls \<subseteq> set (?kube @ ?rest)" for fls a b
  proof (rule apply_flags_view [OF _ _ that(1)])
    show "apGates a' = apGates a" if "fl \<in> set fls" "flFromEnv fl v a = Inr a'" for fl v a a'
      using other_flags_gates(2) [OF _ that(2)] that(1) \<open>set fls \<subseteq> _\<close> by blast
    show "apGates (flRegister fl a) = apGates a" if "fl \<in> set fls" for fl a
      using other_flags_gates(3) that \<open>set fls \<subseteq> _\<close> by blast
  qed
  have g2: "apGates st2 = apGates st" using view [OF st2(1)] st1(2) by auto
  have trim: "TrimSpace ''FEATURE_GATES'' = ''FEATURE_GATES''" by code_simp
  show ?thesis
  proof (cases "env_value environ ?gate")
    case None
    then have "gate_flag_values environ [] = []"
      by (auto simp: env_value_def GenericFlag_def gate_flag_values_def trim split: option.splits if_splits)
    moreover have left: "apply_flags environ ?rest st2 = Inr st'" using st2(2) None by (simp add: generic_flag_sel)
    moreover have "apGates st' = apGates st2" by (rule view [OF left]) auto
    ultimately show ?thesis using g2 by simp
  next
    case (Some v)
    then have "gate_flag_values environ [] = [v]"
      by (auto simp: env_value_def GenericFlag_def gate_flag_values_def trim split: option.splits if_splits)
    moreover obtain st3 where st3: "set_feature_gates (axOrder ax) v st2 = Inr st3" "apply_flags environ ?rest st3 = Inr st'"
      using st2(2) Some by (auto simp: generic_flag_sel split: sum.splits)
    moreover have "apGates st' = apGates st3" by (rule view [OF st3(2)]) auto
    ultimately show ?thesis using g2
      by (auto simp: set_feature_gates_def split: prod.splits if_splits)
  qed
qed

lemma set_values_append:
  "set_values order (xs @ ys) f =
     (case set_values order xs f of (f, errs) \<Rightarrow> if errs = [] then set_values order ys f else (f, errs))"
  by (induction xs arbitrary: f) (auto split: prod.splits)

lemma parse_flags_gates:
  assumes "parse_flags ax args st0 = Inr (st, given, rest)"
  shows "set_values (axOrder ax) (gate_flag_values (suEnviron (axStartup ax)) given) (apGates st0) = (apGates st, [])"
proof -
  let ?env = "suEnviron (axStartup ax)"
  obtain st1 where st1: "apply_flags ?env (app_flags ax) st0 = Inr st1"
    "parse_args (app_flags ax) args st1 [] = Inr (st, given, rest)"
    using assms by (auto simp: parse_flags_def split: sum.splits if_splits)
  have "given_ok (gate_flag_ok (axOrder ax)) (set_gate_flag (axOrder ax)) given (apGates st1) \<and>
      apGates st = given_fold (set_gate_flag (axOrder ax)) given (apGates st1)"
    using parse_args_view [of "app_flags ax" "gate_flag_ok (axOrder ax)" apGates "set_gate_flag (axOrder ax)", OF _ st1(2)]
      set_gates_flag by fastforce
  then have "set_values (axOrder ax) (map snd (filter (\<lambda>(k, v). k = ''feature-gates'') given)) (apGates st1) = (apGates st, [])"
    using set_values_given by metis
  moreover have "gate_flag_values ?env given = gate_flag_values ?env [] @ map snd (filter (\<lambda>(k, v). k = ''feature-gates'') given)"
    by (simp add: gate_flag_values_def)
  ultimately show ?thesis using apply_gates_flag [OF st1(1)] by (simp add: set_values_append)
qed

section \<open>Canonical command lines\<close>

definition command_line :: "(string \<times> string) list \<Rightarrow> string list" where
  "command_line kvs = map (\<lambda>(k, v). ''--'' @ k @ ''='' @ v) kvs"

fun set_all :: "'a cli_flag list \<Rightarrow> (string \<times> string) list \<Rightarrow> 'a \<Rightarrow> 'a option" where
  "set_all fls [] a = Some a"
| "set_all fls ((k, v) # kvs) a =
     (case find (\<lambda>fl. flName fl = k) fls of
        None \<Rightarrow> None
      | Some fl \<Rightarrow> if flIsBool fl then None
          else (case flSet fl v a of Inl e \<Rightarrow> None | Inr a \<Rightarrow> set_all fls kvs a))"

definition flag_word :: "string \<Rightarrow> bool" where
  "flag_word k \<longleftrightarrow> k \<noteq> [] \<and> k ! 0 \<noteq> CHR ''-'' \<and> CHR ''='' \<notin> set k"

lemma split_first_append: "c \<notin> set k \<Longrightarrow> split_first c (k @ c # v) = [k, v]"
  by (simp add: split_first_def takeWhile_append_stop dropWhile_append list_all_iff Let_def)

lemma parse_canonical:
  assumes "set_all fls kvs a = Some a'" and "list_all (\<lambda>(k, v). flag_word k) kvs"
  shows "parse_args fls (command_line kvs) a given = Inr (a', given @ kvs, [])"
  using assms
proof (induction kvs arbitrary: a given)
  case Nil
  then show ?case by (simp add: command_line_def)
next
  case (Cons kv kvs)
  obtain k v where kv: "kv = (k, v)" by (cases kv)
  have k: "k \<noteq> []" "k ! 0 \<noteq> CHR ''-''" "CHR ''='' \<notin> set k" using Cons.prems(2) kv by (auto simp: flag_word_def)
  then have k0: "k ! 0 \<noteq> CHR ''=''" by (cases k) auto
  obtain fl a1 where fl: "find (\<lambda>fl. flName fl = k) fls = Some fl" "\<not> flIsBool fl" "flSet fl v a = Inr a1"
    and rest: "set_all fls kvs a1 = Some a'"
    using Cons.prems(1) kv by (auto split: option.splits if_splits sum.splits)
  have "parse_args fls (command_line kvs) a1 (given @ [(k, v)]) = Inr (a', (given @ [(k, v)]) @ kvs, [])"
    by (rule Cons.IH [OF rest]) (use Cons.prems(2) in simp)
  moreover have "split_first (CHR ''='') (k @ CHR ''='' # v) = [k, v]" using k(3) by (rule split_first_append)
  ultimately show ?case using fl k k0 by (simp add: command_line_def kv nth_append Let_def)
qed

lemma plugin_flags_total:
  fixes st :: "('f, 'l) app_state"
  assumes "fl \<in> set plugin_flags"
  shows "\<not> flIsBool fl \<and> (\<exists>st'. flSet fl v st = Inr st') \<and> flag_word (flName fl)"
proof -
  have "list_all (\<lambda>fl. \<not> flIsBool fl \<and> (\<forall>v st. \<exists>st'. flSet fl v st = Inr st') \<and> flag_word (flName fl)) (plugin_flags :: ('f, 'l) app_flag list)"
    by (simp add: plugin_flags_def string_flag_def StringFlag_def StringSliceFlag_def flag_word_def)
  with assms show ?thesis by (simp add: list_all_iff)
qed

lemma set_all_plugin:
  fixes st :: "('f, 'l) app_state"
  assumes "set (map fst kvs) \<subseteq> set (map flName (plugin_flags :: ('f, 'l) app_flag list))"
  shows "\<exists>st'. set_all (app_flags ax) kvs st = Some st'"
  using assms
proof (induction kvs arbitrary: st)
  case Nil
  then show ?case by simp
next
  case (Cons kv kvs)
  obtain k v where kv: "kv = (k, v)" by (cases kv)
  obtain fl where fl: "find (\<lambda>fl. flName fl = k) (plugin_flags :: ('f, 'l) app_flag list) = Some fl"
    using Cons.prems kv by (cases "find (\<lambda>fl. flName fl = k) (plugin_flags :: ('f, 'l) app_flag list)") (auto simp: find_None_iff)
  then have "fl \<in> set plugin_flags" by (auto simp: find_Some_iff)
  from plugin_flags_total [OF this, of v st] obtain st1 where "\<not> flIsBool fl" "flSet fl v st = Inr st1" by blast
  with fl Cons.IH [of st1] Cons.prems kv show ?case by (simp add: app_flags_split find_append)
qed

section \<open>Runs of the application\<close>

lemma run_app_ran:
  assumes "run_app ax args waits n = (n', AppRan r)"
  obtains st0 st given where "newApp ax = Inr st0" and "parse_flags ax args st0 = Inr (st, given, [])"
    and "\<not> apHelp st" and "checkRequiredFlags (suEnviron (axStartup ax)) given (app_flags ax) = None"
    and "app_before ax st [] = None" and "app_action ax st waits n = (n', AppRan r)"
proof -
  obtain st0 st given rest where run: "newApp ax = Inr st0" "parse_flags ax args st0 = Inr (st, given, rest)"
    "\<not> apHelp st" "checkRequiredFlags (suEnviron (axStartup ax)) given (app_flags ax) = None"
    "app_before ax st rest = None" "app_action ax st waits n = (n', AppRan r)"
    using assms by (auto simp: run_app_def split: sum.splits prod.splits option.splits if_splits)
  moreover have "rest = []" using run(5) by (auto simp: app_before_def split: if_splits)
  ultimately show thesis using that by blast
qed

lemma required_node_name:
  fixes ax :: "('n, 'f, 'c, 'l) app_outside"
  assumes "checkRequiredFlags environ given (app_flags ax) = None"
  shows "environ ''NODE_NAME'' \<noteq> None \<or> ''node-name'' \<in> fst ` set given"
proof -
  let ?fl = "string_flag ''node-name'' ''NODE_NAME'' True [] (\<lambda>v. nodeName_update (\<lambda>_. v)) :: ('f, 'l) app_flag"
  have "?fl \<in> set (app_flags ax)" by (simp add: app_flags_def plugin_flags_def)
  moreover have "flRequired ?fl" by (simp add: string_flag_def StringFlag_def)
  moreover have "filter (\<lambda>fl. flRequired fl \<and> \<not> is_set environ given fl) (app_flags ax) = []"
    using assms by (auto simp: checkRequiredFlags_def missingFlags_def Let_def split: if_splits)
  ultimately have "is_set environ given ?fl" by (auto simp: filter_empty_conv)
  then show ?thesis
    by (auto simp: is_set_def env_value_def string_flag_def StringFlag_def trimmed_variables split: option.splits)
qed

text \<open>C29 (equivalence). When the plugin's action runs, the registry could be made, nothing was left on the command line,
  a node name was given by the flag or the variable, and every flag of the plugin and of its
  Kubernetes client has the value it was given. A string flag has the last value on the command line,
  else the environment variable (even an empty one), else the default; the device classes are the elements
  of all values on the command line, else of the variable, else the default; a rate or burst is the last
  number on the command line, else that of a variable that is not empty, else the default. The error
  or the driver the process ends with is that of the action on them. (What the feature gates resolve to is
  another matter, and the logging configuration is a parameter.)\<close>

theorem action_runs_on_resolved_flags:
  assumes "run_app ax args waits n = (n', AppRan r)"
  shows "\<exists>st0 st given. newApp ax = Inr st0 \<and> parse_flags ax args st0 = Inr (st, given, []) \<and>
    (let environ = suEnviron (axStartup ax); client = kubeClientConfig (apFlags st) in
     own_flags st = resolved_flags environ given \<and>
     kubeletRegistrarDirectoryPath (apFlags st) = flag_value environ given
       ''kubelet-registrar-directory-path'' ''KUBELET_REGISTRAR_DIRECTORY_PATH'' ''/var/lib/kubelet/plugins_registry'' \<and>
     fst (apDeviceClasses st) = flag_slice environ given ''device-classes'' ''DEVICE_CLASSES'' [''tpu''] \<and>
     KubeConfig client = flag_value environ given ''kubeconfig'' ''KUBECONFIG'' [] \<and>
     number_is (clParseFloat (axClient ax)) (clFive (axClient ax))
       (flag_setting environ given ''kube-api-qps'' ''KUBE_API_QPS'') (KubeAPIQPS client) \<and>
     number_is (clParseInt (axClient ax)) 10
       (flag_setting environ given ''kube-api-burst'' ''KUBE_API_BURST'') (KubeAPIBurst client) \<and>
     (environ ''NODE_NAME'' \<noteq> None \<or> ''node-name'' \<in> fst ` set given)) \<and>
    app_action ax st waits n = (n', AppRan r)"
proof (rule run_app_ran [OF assms])
  fix st0 st given
  assume "newApp ax = Inr st0" and parse: "parse_flags ax args st0 = Inr (st, given, [])"
    and req: "checkRequiredFlags (suEnviron (axStartup ax)) given (app_flags ax) = None"
    and "app_action ax st waits n = (n', AppRan r)"
  with parse_flags_own [OF parse] parse_flags_rest [OF parse] required_node_name [OF req] show ?thesis
    unfolding Let_def KubeletRegistryDir_def by blast
qed

text \<open>A command line of settings \<open>--name=value\<close> of the plugin's own flags is read back as those settings,
  whatever bytes the values have and in the order they stand, provided the environment can be
  applied; and the flags resolve to them.\<close>

theorem command_line_roundtrip:
  fixes st0 :: "('f, 'l) app_state"
  assumes "set (map fst kvs) \<subseteq> set (map flName (plugin_flags :: ('f, 'l) app_flag list))"
    and "apply_flags (suEnviron (axStartup ax)) (app_flags ax) st0 = Inr st1"
  shows "\<exists>st. parse_flags ax (command_line kvs) st0 = Inr (st, kvs, []) \<and>
    own_flags st = resolved_flags (suEnviron (axStartup ax)) kvs"
proof -
  obtain st where st: "set_all (app_flags ax) kvs st1 = Some st" using set_all_plugin [OF assms(1)] by blast
  have "\<forall>fl\<in>set (plugin_flags :: ('f, 'l) app_flag list). flag_word (flName fl)" using plugin_flags_total by blast
  then have "list_all (\<lambda>(k, v). flag_word k) kvs" using assms(1) by (fastforce simp: list_all_iff)
  from parse_canonical [OF st this, of "[]"] have run: "parse_args (app_flags ax) (command_line kvs) st1 [] = Inr (st, kvs, [])"
    by simp
  have "''h'' \<notin> set (map fst kvs)" using assms(1) unfolding plugin_flag_names by auto
  then have "parse_flags ax (command_line kvs) st0 = Inr (st, kvs, [])"
    by (simp add: parse_flags_def assms(2) run)
  with parse_flags_own [OF this] show ?thesis by blast
qed

lemma newApp_gates:
  assumes "newApp ax = Inr st0"
  shows "newFeatureGates (axLoggingGates ax) (axOrder ax) featureGateEmulationVersion = Inr (apGates st0)"
  using assms by (auto simp: newApp_def FeatureGates_def split: sum.splits)

text \<open>C28 (safety). Chips are shared only on request, twice over: a driver that serves with sharing on was started with
  the sharing gate set (as the last setting of \<open>ConsumableShares\<close> among the values of
  \<open>FEATURE_GATES\<close> and \<open>--feature-gates\<close>, or by \<open>AllAlpha\<close> where \<open>ConsumableShares\<close> is never named)
  and with a \<open>consumable-shares\<close> value other than empty and \<open>disabled\<close>.\<close>

theorem sharing_needs_gate_and_flag:
  assumes "lists_logging (axLoggingGates ax)" and "ranges (axOrder ax)"
    and "run_app ax args waits n = (n', AppRan (Serving dr))" and "enabled (drSharesPolicy dr)"
  shows "\<exists>st0 st given ms shares. newApp ax = Inr st0 \<and> parse_flags ax args st0 = Inr (st, given, []) \<and>
    rtraverse gate_value (gate_flag_values (suEnviron (axStartup ax)) given) = Inr ms \<and>
    (last_setting ms ConsumableShares = Some True \<or>
       last_setting ms ConsumableShares = None \<and> first_setting ms allAlphaGate = Some True) \<and>
    shares = TrimSpace (flag_value (suEnviron (axStartup ax)) given ''consumable-shares'' ''CONSUMABLE_SHARES'' consumableSharesDisabled) \<and>
    shares \<noteq> [] \<and> shares \<noteq> consumableSharesDisabled"
proof (rule run_app_ran [OF assms(3)])
  fix st0 st given
  let ?env = "suEnviron (axStartup ax)"
  assume new: "newApp ax = Inr st0" and parse: "parse_flags ax args st0 = Inr (st, given, [])"
    and act: "app_action ax st waits n = (n', AppRan (Serving dr))"
  note out = set_values_registry [OF assms(1,2) newApp_gates [OF new] parse_flags_gates [OF parse]]
  then obtain ms where ms: "rtraverse gate_value (gate_flag_values ?env given) = Inr ms" by blast
  note gate = registry_gates(1) [OF out(3) [OF refl ms] out(1)]
  let ?g = "projr (featureEnabled ConsumableShares (apGates st))"
  obtain core where run: "plugin_action ((axStartup ax)\<lparr>suGate := ?g\<rparr>) (own_flags st) core waits n = (n', Serving dr)"
    using act gate by (auto simp: app_action_def Flags.defs Let_def split: prod.splits)
  from serving_policy_is_consistent [OF run] assms(4)
  have "TrimSpace (consumableShares (own_flags st)) \<noteq> []" "TrimSpace (consumableShares (own_flags st)) \<noteq> consumableSharesDisabled"
    by blast+
  moreover have "validateConsumableShares ?g (consumableShares (own_flags st)) = None"
    using run by (auto simp: plugin_action_def split: option.splits)
  ultimately have "?g" by (auto simp: validateConsumableShares_def Let_def split: if_splits)
  then have "last_setting ms ConsumableShares = Some True \<or>
      last_setting ms ConsumableShares = None \<and> first_setting ms allAlphaGate = Some True"
    using gate by (auto split: option.splits)
  moreover have "consumableShares (own_flags st) = flag_value ?env given ''consumable-shares'' ''CONSUMABLE_SHARES'' consumableSharesDisabled"
    by (simp add: parse_flags_own [OF parse] resolved_flags_def)
  ultimately show ?thesis
    using new parse ms \<open>TrimSpace (consumableShares (own_flags st)) \<noteq> []\<close>
      \<open>TrimSpace (consumableShares (own_flags st)) \<noteq> consumableSharesDisabled\<close> by metis
qed

section \<open>The ingredients of the witnesses\<close>

text \<open>A host on which everything works, a client that gives no labels, no logging flags; and the late node of
  \<open>StartupLife\<close>.\<close>

definition example_on :: "(disk \<Rightarrow> hostfs) \<Rightarrow> (disk, nat, unit, unit) app_outside" where
  "example_on host = \<lparr>axStartup = quiet_su host (disk_services example_ck no_faults),
     axClient = \<lparr>clParseFloat = (\<lambda>_. Inr 1), clParseInt = (\<lambda>_. Inr 1), clZero = 0, clFive = 5, clInCluster = Inr (),
       clBuildConfig = (\<lambda>_ _. Inr ()), clLimits = (\<lambda>_ _ c. c), clNewForConfig = (\<lambda>_. Inr (\<lambda>_. Inr Map.empty))\<rparr>,
     axLogFlags = [], axLogging = (), axApplyLogging = (\<lambda>_ _. None), axLoggingGates = loggingFeatureGates,
     axOrder = (\<lambda>m. sorted_list_of_set (dom m))\<rparr>"

abbreviation example_ax :: "(disk, nat, unit, unit) app_outside" where
  "example_ax \<equiv> example_on late_host"

definition example_settings :: "(string \<times> string) list" where
  "example_settings = [(''node-name'', ''node-1''), (''tpu-accelerator'', ''tpu-v4-podslice''), (''tpu-env-file'', []),
     (''consumable-shares'', ''unlimited''), (''feature-gates'', ''ConsumableShares=true'')]"

lemma example_orders: "lists_logging (axLoggingGates (example_on host))" "ranges (axOrder (example_on host))"
  by (simp_all add: example_on_def lists_logging_def loggingFeatureGates_def gate_names ranges_sorted)

lemma example_newApp:
  obtains st0 where "newApp (example_on host) = Inr st0" and "registry featureGateEmulationVersion [] (apGates st0)"
proof -
  have v: "MajorMinor 1 24 \<le> featureGateEmulationVersion" by (simp add: featureGateEmulationVersion_def)
  from newFeatureGates_registry(1) [OF example_orders v] obtain f
    where "newFeatureGates (axLoggingGates (example_on host)) (axOrder (example_on host)) featureGateEmulationVersion = Inr f"
      "registry featureGateEmulationVersion [] f" by blast
  then show thesis by (intro that [of "\<lparr>apFlags = zero_flags (axClient (example_on host)), apDeviceClasses = ([], False), apGates = f,
      apLogging = axLogging (example_on host), apHelp = False\<rparr>"]) (simp_all add: newApp_def FeatureGates_def)
qed

lemma example_environ: "suEnviron (axStartup (example_on host)) = Map.empty"
  by (simp add: example_on_def quiet_su_def)

text \<open>With no variable set, registering succeeds and leaves the gates alone.\<close>

lemma example_applied:
  "\<exists>st1. apply_flags Map.empty (app_flags (example_on host)) st0 = Inr st1 \<and> apGates st1 = apGates st0"
proof -
  have "\<exists>st1. apply_flags Map.empty fls st0 = Inr st1" for fls and st0 :: "(nat, unit) app_state"
  proof (induction fls arbitrary: st0)
    case Nil
    then show ?case by simp
  next
    case (Cons fl fls)
    have "flagFromEnv Map.empty vs = None" for vs by (induction vs) simp_all
    then show ?case using Cons.IH [of "flRegister fl st0"] by (simp add: env_value_def)
  qed
  then obtain st1 where "apply_flags Map.empty (app_flags (example_on host)) st0 = Inr st1" by blast
  with apply_gates_flag [OF this] show ?thesis by (auto simp: gate_flag_values_def)
qed

lemma example_help:
  assumes "apply_flags environ (app_flags ax) st0 = Inr st1"
  shows "\<not> apHelp st1"
proof -
  obtain xs where xs: "app_flags ax = xs @ [HelpFlag ''h'']" by (simp add: app_flags_def)
  then obtain st where "apply_flags environ [HelpFlag ''h''] st = Inr st1"
    using assms by (auto simp: apply_flags_append rbind_Inr_iff simp del: apply_flags.simps)
  then show ?thesis by (auto simp: HelpFlag_def env_value_def)
qed

lemma example_parsed:
  assumes "registry featureGateEmulationVersion [] (apGates st0)"
  obtains st where "parse_flags (example_on host) (command_line example_settings) st0 = Inr (st, example_settings, [])"
    and "\<not> apHelp st" and "featureEnabled ConsumableShares (apGates st) = Inr True"
proof -
  obtain st1 where st1: "apply_flags Map.empty (app_flags (example_on host)) st0 = Inr st1" "apGates st1 = apGates st0"
    using example_applied by blast
  have v: "MajorMinor 1 24 \<le> featureGateEmulationVersion" by (simp add: featureGateEmulationVersion_def)
  obtain g errs where set: "set_values (axOrder (example_on host)) [''ConsumableShares=true''] (apGates st0) = (g, errs)"
    by (cases "set_values (axOrder (example_on host)) [''ConsumableShares=true''] (apGates st0)")
  have parse: "rtraverse gate_value [''ConsumableShares=true''] = Inr [[ConsumableShares \<mapsto> True]]"
    by (simp add: gate_value_def go_defs is_space_def ParseBool_def gate_names)
  have known: "list_all known_settings [[ConsumableShares \<mapsto> True]]" by (simp add: known_settings_def dom_known_gates)
  from set_values_outcome [OF assms v example_orders(2) [of host], of "[''ConsumableShares=true'']"] set parse known
  have g: "errs = []" "registry featureGateEmulationVersion [[ConsumableShares \<mapsto> True]] g" by auto
  then have Set: "Set (axOrder (example_on host)) ''ConsumableShares=true'' (apGates st1) = (g, [])"
    using set st1(2) by (auto split: prod.splits if_splits)
  have on: "featureEnabled ConsumableShares g = Inr True"
    using g(2) by (simp add: registry_def featureEnabled_def shares_setting_def)
  have "\<exists>st. set_all (app_flags (example_on host)) example_settings st1 = Some st \<and> apGates st = g \<and> apHelp st = apHelp st1"
    by (simp add: example_settings_def app_flags_def plugin_flags_def flag_kinds set_feature_gates_def Set)
  then obtain st where st: "set_all (app_flags (example_on host)) example_settings st1 = Some st" "apGates st = g" "apHelp st = apHelp st1"
    by blast
  have "list_all (\<lambda>(k, v). flag_word k) example_settings" by (simp add: example_settings_def flag_word_def)
  from parse_canonical [OF st(1) this, of "[]"]
  have "parse_flags (example_on host) (command_line example_settings) st0 = Inr (st, example_settings, [])"
    by (simp add: parse_flags_def example_environ st1(1)) (simp add: example_settings_def)
  with st on example_help [OF st1(1)] show thesis by (intro that [of st]) simp_all
qed

lemma example_labels_single: "isSingleHostNode (projr example_labels)"
  by code_simp

lemma example_resolved: "resolved_flags Map.empty example_settings = startup_flags"
  by (simp add: resolved_flags_def flag_value_def example_settings_def startup_flags_def KubeletPluginsDir_def)

lemma example_shares:
  assumes run: "NewDriver (quiet_su host sv) example_config d = (d', Inr dr)" and host: "host d = accel_host"
  shows "enabled (drSharesPolicy dr)"
proof (rule NewDriver_Inr [OF run])
  fix hw labels gen d1 n1
  assume hw: "probeTPUHardware (suHost (quiet_su host sv) d) RootDirectory = Inr hw"
    and labels: "getTPUNodeLabels (suHost (quiet_su host sv) d) (suMetadata (quiet_su host sv) d) example_config hw = Inr labels"
    and policy: "drSharesPolicy dr = resolveConsumableShares (suGate (quiet_su host sv)) (consumableShares (flags example_config)) labels"
  have "example_labels = Inr labels"
    using hw labels by (simp add: host accel_probe example_labels_def quiet_su_def)
  then have "isSingleHostNode labels" using example_labels_single by (metis sum.sel(2))
  moreover have "TrimSpace ''unlimited'' = ''unlimited''" by code_simp
  ultimately show ?thesis
    by (simp add: policy resolveConsumableShares_def quiet_su_def example_config_def startup_flags_def Let_def
        consumableSharesDisabled_def consumableSharesUnlimited_def)
qed

lemma accel_serves:
  assumes host: "host d = accel_host" and quiet: "\<And>d. ReadFile (host d) allowUnsafeInterruptsFile = None"
  shows "\<exists>d' dr. run_app (example_on host) (command_line example_settings) [] d = (d', AppRan (Serving dr)) \<and>
     enabled (drSharesPolicy dr)"
proof -
  let ?su = "quiet_su host (disk_services example_ck no_faults)"
  obtain st0 where st0: "newApp (example_on host) = Inr st0" "registry featureGateEmulationVersion [] (apGates st0)"
    by (rule example_newApp)
  obtain st where st: "parse_flags (example_on host) (command_line example_settings) st0 = Inr (st, example_settings, [])"
    "\<not> apHelp st" "featureEnabled ConsumableShares (apGates st) = Inr True"
    by (rule example_parsed [OF st0(2)])
  have own: "own_flags st = startup_flags"
    using parse_flags_own [OF st(1)] by (simp add: example_environ example_resolved)
  obtain d' dr where run: "NewDriver ?su example_config d = (d', Inr dr)" using accel_driver [of host, OF host] by blast
  have "checkRequiredFlags Map.empty example_settings (app_flags (example_on host)) = None"
    by (simp add: checkRequiredFlags_def missingFlags_def app_flags_def plugin_flags_def flag_kinds is_set_def
        example_settings_def example_on_def)
  moreover have "app_before (example_on host) st [] = None" by (simp add: app_before_def example_on_def)
  moreover have "app_action (example_on host) st [] d = (d', AppRan (Serving dr))"
  proof -
    have "validateConsumableShares True ''unlimited'' = None" by code_simp
    then have "plugin_action ?su startup_flags (Inr (\<lambda>_. Inr Map.empty)) [] d = (d', Serving dr)"
      using run quiet_prepare [of host "disk_services example_ck no_faults" example_config d, OF quiet]
      by (simp add: plugin_action_def StartPlugin_def example_config_def quiet_su_def startup_flags_def)
    moreover have "(axStartup (example_on host))\<lparr>suGate := True\<rparr> = ?su" by (simp add: example_on_def quiet_su_def)
    moreover have "NewClientSets (axClient (example_on host)) k = Inr (\<lambda>_. Inr Map.empty)" for k
      by (simp add: NewClientSets_def NewClientSetConfig_def example_on_def)
    moreover have "Flags.truncate ((apFlags st)\<lparr>deviceClasses := d\<rparr>) = startup_flags" for d
      using own by (simp add: Flags.defs)
    ultimately show ?thesis by (simp add: app_action_def st(3) Let_def)
  qed
  ultimately have "run_app (example_on host) (command_line example_settings) [] d = (d', AppRan (Serving dr))"
    by (simp add: run_app_def st0(1) st example_environ)
  with example_shares [OF run host] show ?thesis by blast
qed

lemma example_serves:
  "\<exists>d' dr. run_app example_ax (command_line example_settings) [] late_disk = (d', AppRan (Serving dr)) \<and>
     enabled (drSharesPolicy dr)"
  by (rule accel_serves) (simp_all add: late_host_def late_disk_def no_tpu_host_def accel_host_def)

section \<open>Witnesses\<close>

lemma action_runs_on_resolved_flags_witness:
  "\<exists>st n' r. own_flags st = resolved_flags Map.empty example_settings \<and>
     kubeletRegistrarDirectoryPath (apFlags st) = ''/var/lib/kubelet/plugins_registry'' \<and>
     fst (apDeviceClasses st) = [''tpu''] \<and> kubeClientConfig (apFlags st) = \<lparr>KubeConfig = [], KubeAPIQPS = 5, KubeAPIBurst = 10\<rparr> \<and>
     app_action example_ax st [] late_disk = (n', AppRan r)"
proof -
  obtain d' dr where run: "run_app example_ax (command_line example_settings) [] late_disk = (d', AppRan (Serving dr))"
    using example_serves by blast
  obtain st0' where st0': "newApp example_ax = Inr st0'" "registry featureGateEmulationVersion [] (apGates st0')"
    by (rule example_newApp)
  obtain st' where st': "parse_flags example_ax (command_line example_settings) st0' = Inr (st', example_settings, [])"
    by (rule example_parsed [OF st0'(2)])
  from action_runs_on_resolved_flags [OF run] obtain st where
    "own_flags st = resolved_flags Map.empty example_settings"
    "kubeletRegistrarDirectoryPath (apFlags st) = flag_value Map.empty example_settings
       ''kubelet-registrar-directory-path'' ''KUBELET_REGISTRAR_DIRECTORY_PATH'' ''/var/lib/kubelet/plugins_registry''"
    "fst (apDeviceClasses st) = flag_slice Map.empty example_settings ''device-classes'' ''DEVICE_CLASSES'' [''tpu'']"
    "KubeConfig (kubeClientConfig (apFlags st)) = flag_value Map.empty example_settings ''kubeconfig'' ''KUBECONFIG'' []"
    "number_is (clParseFloat (axClient example_ax)) (clFive (axClient example_ax))
       (flag_setting Map.empty example_settings ''kube-api-qps'' ''KUBE_API_QPS'') (KubeAPIQPS (kubeClientConfig (apFlags st)))"
    "number_is (clParseInt (axClient example_ax)) 10
       (flag_setting Map.empty example_settings ''kube-api-burst'' ''KUBE_API_BURST'') (KubeAPIBurst (kubeClientConfig (apFlags st)))"
    "app_action example_ax st [] late_disk = (d', AppRan (Serving dr))"
    unfolding Let_def example_environ st0'(1) by (auto simp: st')
  then show ?thesis
    by (intro exI [of _ st])
      (simp add: flag_value_def flag_slice_def flag_setting_def given_values_def number_is_def example_settings_def example_on_def)
qed

lemma command_line_roundtrip_witness:
  "\<exists>st0 st. parse_flags example_ax (command_line [(''node-name'', ''a=b''), (''tpu-topology'', ''--'')]) st0 =
       Inr (st, [(''node-name'', ''a=b''), (''tpu-topology'', ''--'')], []) \<and>
     nodeName (own_flags st) = ''a=b'' \<and> tpuTopology (own_flags st) = ''--''"
proof -
  let ?kvs = "[(''node-name'', ''a=b''), (''tpu-topology'', ''--'')]"
  obtain st0 where st0: "newApp example_ax = Inr st0" by (rule example_newApp)
  obtain st1 where "apply_flags (suEnviron (axStartup example_ax)) (app_flags example_ax) st0 = Inr st1"
    using example_applied by (auto simp: example_environ)
  moreover have "set (map fst ?kvs) \<subseteq> set (map flName (plugin_flags :: (nat, unit) app_flag list))"
    unfolding plugin_flag_names by simp
  ultimately obtain st where "parse_flags example_ax (command_line ?kvs) st0 = Inr (st, ?kvs, [])"
    "own_flags st = resolved_flags (suEnviron (axStartup example_ax)) ?kvs"
    using command_line_roundtrip [of ?kvs example_ax st0 st1] by blast
  then show ?thesis by (intro exI [of _ st0] exI [of _ st]) (simp add: resolved_flags_def flag_value_def)
qed

lemma sharing_needs_gate_and_flag_witness:
  "\<exists>d' dr given. run_app example_ax (command_line example_settings) [] late_disk = (d', AppRan (Serving dr)) \<and>
     enabled (drSharesPolicy dr) \<and>
     (\<exists>ms. rtraverse gate_value (gate_flag_values Map.empty given) = Inr ms \<and>
        (last_setting ms ConsumableShares = Some True \<or> first_setting ms allAlphaGate = Some True))"
proof -
  obtain d' dr where run: "run_app example_ax (command_line example_settings) [] late_disk = (d', AppRan (Serving dr))"
    "enabled (drSharesPolicy dr)" using example_serves by blast
  from sharing_needs_gate_and_flag [OF example_orders run] run show ?thesis by (auto simp: example_environ)
qed

end
