(* ===== verification/EndToEnd.thy ===== *)
theory EndToEnd
  imports AppLife
begin

text \<open>
  The components put together: from the command line of the plugin to the first claim of a node,
  with the claim services on the disk of theory \<open>Disk\<close>.
\<close>

section \<open>What the other calls leave alone\<close>

text \<open>
  The calls of the start that are not the claim services (registering with the kubelet, publishing,
  writing settings, making directories) do not write the plugin's own files; and a directory
  lists each name once.
\<close>

definition leaves_files :: "(disk \<Rightarrow> disk \<times> go_error option) \<Rightarrow> bool" where
  "leaves_files f \<longleftrightarrow> (\<forall>d. ckFiles (fst (f d)) = ckFiles d \<and> cdiFiles (fst (f d)) = cdiFiles d)"

definition outside_leaves_files :: "disk startup \<Rightarrow> bool" where
  "outside_leaves_files su \<longleftrightarrow> leaves_files (suKubeletStart su) \<and> (\<forall>r. leaves_files (suPublish su r)) \<and>
     (\<forall>p c. leaves_files (suWriteFile su p c)) \<and> (\<forall>p. leaves_files (suMkdirAll su p))"

definition directories_sane :: "'n startup \<Rightarrow> bool" where
  "directories_sane su \<longleftrightarrow>
     (\<forall>n dir files. ReadDir (suHost su n) dir = Some files \<longrightarrow> distinct (map Name files) \<and> length files < 2 ^ 63)"

definition fresh :: "disk \<Rightarrow> bool" where
  "fresh d \<longleftrightarrow> fmlookup (ckFiles d) DriverPluginCheckpointFile = None"

lemma outside_leaves:
  assumes "outside_leaves_files su"
  shows "suKubeletStart su d = (d', e) \<Longrightarrow> ckFiles d' = ckFiles d \<and> cdiFiles d' = cdiFiles d"
    and "suPublish su r d = (d', e) \<Longrightarrow> ckFiles d' = ckFiles d \<and> cdiFiles d' = cdiFiles d"
    and "suWriteFile su p c d = (d', e) \<Longrightarrow> ckFiles d' = ckFiles d \<and> cdiFiles d' = cdiFiles d"
    and "suMkdirAll su p d = (d', e) \<Longrightarrow> ckFiles d' = ckFiles d \<and> cdiFiles d' = cdiFiles d"
  using assms by (metis fst_conv leaves_files_def outside_leaves_files_def)+

lemma leaves_filesD: "leaves_files f \<Longrightarrow> f d = (d', e) \<Longrightarrow> ckFiles d' = ckFiles d \<and> cdiFiles d' = cdiFiles d"
  by (metis fst_conv leaves_files_def)

lemma write_settings_leaves:
  "(\<And>p c. leaves_files (writeFile p c)) \<Longrightarrow> leaves_files (\<lambda>d. (fst (write_settings writeFile root ss errs d), None))"
proof (induction ss arbitrary: errs)
  case Nil
  then show ?case by (simp add: leaves_files_def)
next
  case (Cons s ss)
  have step: "ckFiles d1 = ckFiles d \<and> cdiFiles d1 = cdiFiles d" if "writeFile p c d = (d1, e)" for p c d d1 e
    using leaves_filesD [OF Cons.prems that] .
  have IH: "ckFiles (fst (write_settings writeFile root ss es d)) = ckFiles d \<and> cdiFiles (fst (write_settings writeFile root ss es d)) = cdiFiles d" for es d
    using Cons.IH [OF Cons.prems, of es] by (simp add: leaves_files_def)
  show ?case
    by (auto simp: leaves_files_def Let_def IH step split: prod.splits option.splits)
qed

lemma settings_leave:
  assumes "outside_leaves_files su"
  shows "ckFiles (fst (ApplyNetworkSettings su d)) = ckFiles d" and "cdiFiles (fst (ApplyNetworkSettings su d)) = cdiFiles d"
proof -
  have "leaves_files (\<lambda>d. (fst (write_settings (suWriteFile su) RootDirectory networkSettings [] d), None))"
    using assms by (intro write_settings_leaves) (simp add: outside_leaves_files_def)
  then show "ckFiles (fst (ApplyNetworkSettings su d)) = ckFiles d" "cdiFiles (fst (ApplyNetworkSettings su d)) = cdiFiles d"
    by (simp_all add: leaves_files_def ApplyNetworkSettings_def applyNetworkSettings_def case_prod_unfold)
qed

lemma prepare_host_leaves:
  assumes "outside_leaves_files su" and "prepare_host su config d = (d', e)"
  shows "ckFiles d' = ckFiles d"
proof -
  note mk = outside_leaves(4) [OF assms(1)] and wr = outside_leaves(3) [OF assms(1)]
  have root: "ckFiles d2 = ckFiles d1" if "make_cdi_root su r d1 = (d2, e)" for r d1 d2 e
    using that mk by (auto simp: make_cdi_root_def split: stat_result.splits if_splits)
  have irq: "ckFiles d2 = ckFiles d1" if "allow_unsafe_interrupts su d1 = (d2, e)" for d1 d2 e
    using that wr by (auto simp: allow_unsafe_interrupts_def split: option.splits if_splits prod.splits)
  obtain d1 e1 where 1: "suMkdirAll su (DriverPluginPath config) d = (d1, e1)" by (cases "suMkdirAll su (DriverPluginPath config) d")
  obtain d2 e2 where 2: "make_cdi_root su (cdiRoot (flags config)) d1 = (d2, e2)"
    by (cases "make_cdi_root su (cdiRoot (flags config)) d1")
  show ?thesis
    using assms(2) mk [OF 1] root [OF 2] irq [of d2 d']
    by (cases e1; cases e2) (auto simp: prepare_host_def 1 2)
qed

section \<open>The attempt that serves\<close>

definition minutes :: "'n wait_end list \<Rightarrow> 'n list" where
  "minutes ws = concat (map (\<lambda>w. case w of MinuteOver m \<Rightarrow> [m] | _ \<Rightarrow> []) ws)"

lemma driver_loop_attempt:
  "driver_loop newDriver r ws = (n', Serving dr) \<Longrightarrow> r = (n', Inr dr) \<or> (\<exists>m\<in>set (minutes ws). newDriver m = (n', Inr dr))"
  by (induction newDriver r ws rule: driver_loop.induct)
     (auto simp: minutes_def split: if_splits list.splits wait_end.splits)

lemma StartPlugin_attempt:
  assumes "StartPlugin su config waits n = (n', Serving dr)"
  obtains m where "NewDriver su config m = (n', Inr dr)" and "m \<in> set (minutes waits) \<or> (\<exists>e. prepare_host su config n = (m, e))"
proof -
  obtain n0 where n0: "prepare_host su config n = (n0, None)"
    "driver_loop (NewDriver su config) (NewDriver su config n0) waits = (n', Serving dr)"
    using assms by (auto simp: StartPlugin_def split: prod.splits option.splits)
  from driver_loop_attempt [OF n0(2)] n0(1) that show thesis by blast
qed

text \<open>What a serving attempt has done to the plugin's files.\<close>

lemma NewDriver_files:
  assumes "NewDriver su config n = (n', Inr dr)" and "outside_leaves_files su"
  obtains hw labels n1 d1 where "probeTPUHardware (suHost su n) RootDirectory = Inr hw" and "ckFiles n1 = ckFiles n"
    and "NewDeviceState (suServices su) (suUuid su) (suEnviron su) (suHost su n1) (suEnvOrder su) (suCacheErr su)
      (suManagerErr su) labels (hwDevDirectory hw) (drSharesPolicy dr) n1 = (d1, Inr (drState dr))"
    and "ckFiles n' = ckFiles d1" and "cdiFiles n' = cdiFiles d1"
proof -
  obtain hw where hw: "probeTPUHardware (suHost su n) RootDirectory = Inr hw"
    and on: "NewDriver_on su config hw n = (n', Inr dr)"
    using assms(1) by (auto simp: NewDriver_def split: sum.splits)
  obtain labels where labels: "getTPUNodeLabels (suHost su n) (suMetadata su n) config hw = Inr labels"
    using on by (auto simp: NewDriver_on_def split: sum.splits)
  obtain gen where gen: "AcceleratorGen (get labels AcceleratorLabel) = Inr gen" "get labels AcceleratorLabel \<noteq> []"
    using on labels by (auto simp: NewDriver_on_def Let_def split: sum.splits if_splits)
  let ?n1 = "fst (ApplyNetworkSettings su n)"
  let ?policy = "resolveConsumableShares (suGate su) (consumableShares (flags config)) labels"
  let ?run = "NewDeviceState (suServices su) (suUuid su) (suEnviron su) (suHost su ?n1) (suEnvOrder su)
      (suCacheErr su) (suManagerErr su) labels (hwDevDirectory hw) ?policy ?n1"
  obtain d1 s where st: "?run = (d1, Inr s)"
    using on labels gen by (auto simp: NewDriver_on_def Let_def split: sum.splits prod.splits if_splits)
  obtain d2 e2 where k: "suKubeletStart su d1 = (d2, e2)" by (cases "suKubeletStart su d1")
  let ?pub = "suPublish su (fmupd (nodeName (flags config)) [gather_slice ?policy (suDeviceOrder su (dsAllocatable s)) s] fmempty)"
  obtain d3 e3 where p: "?pub d2 = (d3, e3)" by (cases "?pub d2")
  from on labels gen st k p have "d3 = n'" "drState dr = s" "drSharesPolicy dr = ?policy"
    by (auto simp: NewDriver_on_def Let_def GatherStateAndPublish_def split: option.splits)
  then show thesis
    using that [OF hw settings_leave(1) [OF assms(2)] ] st
      outside_leaves(1) [OF assms(2) k] outside_leaves(2) [OF assms(2) p] by auto
qed

lemma app_attempt:
  assumes "run_app ax args waits n = (n', AppRan (Serving dr))"
  obtains su config m where "NewDriver su config m = (n', Inr dr)" and "\<exists>g. su = (axStartup ax)\<lparr>suGate := g\<rparr>"
    and "m \<in> set (minutes waits) \<or> (\<exists>e. prepare_host su config n = (m, e))"
proof (rule run_app_ran [OF assms])
  fix st0 st given
  assume act: "app_action ax st waits n = (n', AppRan (Serving dr))"
  then obtain g core where run: "plugin_action ((axStartup ax)\<lparr>suGate := g\<rparr>) (own_flags st) core waits n = (n', Serving dr)"
    by (auto simp: app_action_def Flags.defs Let_def split: prod.splits sum.splits)
  then obtain c where "StartPlugin ((axStartup ax)\<lparr>suGate := g\<rparr>) \<lparr>flags = own_flags st, coreclient = Some c\<rparr> waits n = (n', Serving dr)"
    by (auto simp: plugin_action_def split: option.splits sum.splits)
  then show thesis by (rule StartPlugin_attempt) (rule that, assumption, blast+)
qed

lemma gate_irrelevant [simp]:
  "outside_leaves_files (su\<lparr>suGate := g\<rparr>) = outside_leaves_files su" "directories_sane (su\<lparr>suGate := g\<rparr>) = directories_sane su"
  by (simp_all add: outside_leaves_files_def directories_sane_def)

section \<open>What a start does to the checkpoint\<close>

text \<open>Served or failed, a start leaves the checkpoint directory as it is, or writes the first empty checkpoint.\<close>

definition keeps :: "(json \<Rightarrow> 64 word) \<Rightarrow> disk \<Rightarrow> disk \<Rightarrow> bool" where
  "keeps ck d d' \<longleftrightarrow> ckFiles d' = ckFiles d \<or> (fresh d \<and> disk_ledger ck d' = Some fmempty)"

lemma keeps_same: "ckFiles d' = ckFiles d \<Longrightarrow> keeps ck d d'"
  by (simp add: keeps_def)

lemma keeps_before: "keeps ck d1 d' \<Longrightarrow> ckFiles d1 = ckFiles d \<Longrightarrow> keeps ck d d'"
  by (simp add: keeps_def fresh_def)

lemma keeps_after: "keeps ck d d1 \<Longrightarrow> ckFiles d' = ckFiles d1 \<Longrightarrow> keeps ck d d'"
  using disk_ledger_cong [of d' d1 ck] by (auto simp: keeps_def)

lemma list_fresh:
  assumes "svListCheckpoints (disk_services ck i) d = Inr ks"
  shows "DriverPluginCheckpointFile \<in> set ks \<longleftrightarrow> \<not> fresh d"
proof -
  have "\<not> HasPrefix DriverPluginCheckpointFile ''.''" by code_simp
  moreover have "DriverPluginCheckpointFile \<in> fset (fmdom (ckFiles d)) \<longleftrightarrow> \<not> fresh d"
    unfolding fresh_def by (metis fmdom_notD fmdom_notI)
  moreover have "ks = filter (\<lambda>k. \<not> HasPrefix k ''.'') (sorted_list_of_fset (fmdom (ckFiles d)))"
    using assms by (simp add: disk_services_def CheckpointManager_List_def split: if_splits)
  ultimately show ?thesis by simp
qed

lemma first_checkpoint:
  assumes "svCreateCheckpoint (disk_services ck i) DriverPluginCheckpointFile newCheckpoint d = (d', e)"
  shows "if e = None then disk_ledger ck d' = Some fmempty else d' = d"
  using assms disk_ledger_written [OF claims_normal_empty, where ck = ck and d = d and c = 0]
  by (auto simp: disk_service_defs newCheckpoint_def split: if_splits)

lemma NewDeviceState_writes:
  assumes run: "NewDeviceState (disk_services ck i) u environ fs order cacheErr managerErr labels devDir policy d = (d', r)"
  shows "keeps ck d d' \<and> (is_ok r \<longrightarrow> \<not> fresh d')"
proof (cases "NewTPUManager environ labels devDir")
  case (Inl e)
  with run show ?thesis by (auto simp: NewDeviceState_def keeps_same result_simps)
next
  case tm: (Inr tm)
  show ?thesis
  proof (cases "enumerateAllPossibleTpuDevices u environ fs tm")
    case (Inl e)
    with run tm show ?thesis by (auto simp: NewDeviceState_def keeps_same result_simps)
  next
    case (Inr p)
    obtain devs tm' where p: "p = (devs, tm')" by (cases p)
    let ?common = "CreateCommonSpecFile (disk_services ck i) environ order (envs tm') (commonMounts tm') d"
    obtain d1 e1 where c: "?common = (d1, e1)" by (cases ?common)
    then have d1: "ckFiles d1 = ckFiles d" by (auto simp: CreateCommonSpecFile_def disk_service_defs split: if_splits)
    obtain d2 e2 where w: "svCreateCheckpoint (disk_services ck i) DriverPluginCheckpointFile newCheckpoint d1 = (d2, e2)" by force
    have k: "fresh d1 \<Longrightarrow> keeps ck d d2" "e2 = None \<Longrightarrow> \<not> fresh d2"
      using first_checkpoint [OF w] d1 by (auto simp: keeps_def fresh_def disk_ledger_def split: if_splits option.splits)
    from run tm Inr p c w show ?thesis
      using k keeps_same [OF d1] keeps_same [of d d] list_fresh [of ck i d1]
      by (auto simp: NewDeviceState_def Let_def split: option.splits sum.splits if_splits)
  qed
qed

lemmas NewDeviceState_keeps = NewDeviceState_writes [THEN conjunct1]

lemma NewDriver_keeps:
  assumes "NewDriver su config d = (d', r)" and "suServices su = disk_services ck i" and "outside_leaves_files su"
  shows "keeps ck d d'"
proof -
  let ?d1 = "fst (ApplyNetworkSettings su d)"
  note d1 = settings_leave(1) [OF assms(3), of d]
  have state: "keeps ck d d2"
    if "NewDeviceState (disk_services ck i) u environ fs order cacheErr managerErr labels devDir policy ?d1 = (d2, r2)"
    for u environ fs order cacheErr managerErr labels devDir policy d2 r2
    using keeps_before [OF NewDeviceState_keeps [OF that] d1] .
  have after: "keeps ck d d2 \<Longrightarrow> suKubeletStart su d2 = (d3, e) \<Longrightarrow> keeps ck d d3" for d2 d3 e
    using keeps_after outside_leaves(1) [OF assms(3)] by blast
  have publish: "keeps ck d d2 \<Longrightarrow> GatherStateAndPublish (suPublish su) node pol ord st d2 = (d3, e) \<Longrightarrow> keeps ck d d3"
    for d2 d3 e node pol ord st
    using keeps_after outside_leaves(2) [OF assms(3)]
    by (fastforce simp: GatherStateAndPublish_def split: prod.splits option.splits)
  show ?thesis
  proof (cases "probeTPUHardware (suHost su d) RootDirectory")
    case (Inl e)
    with assms(1) show ?thesis by (simp add: NewDriver_def keeps_same)
  next
    case (Inr hw)
    then have on: "NewDriver_on su config hw d = (d', r)" using assms(1) by (simp add: NewDriver_def)
    show ?thesis
    proof (cases "getTPUNodeLabels (suHost su d) (suMetadata su d) config hw")
      case (Inl e)
      with on show ?thesis by (simp add: NewDriver_on_def keeps_same)
    next
      case labels: (Inr labels)
      let ?policy = "resolveConsumableShares (suGate su) (consumableShares (flags config)) labels"
      let ?run = "NewDeviceState (disk_services ck i) (suUuid su) (suEnviron su) (suHost su ?d1) (suEnvOrder su)
          (suCacheErr su) (suManagerErr su) labels (hwDevDirectory hw) ?policy ?d1"
      obtain d2 r2 where st: "?run = (d2, r2)" by (cases ?run)
      obtain d3 e3 where k: "suKubeletStart su d2 = (d3, e3)" by (cases "suKubeletStart su d2")
      note k2 = state [OF st] and k3 = after [OF state [OF st] k]
      from on labels st k show ?thesis
        using k2 k3 keeps_same [OF d1] publish [OF k3]
        by (auto simp: NewDriver_on_def Let_def assms(2) split: if_splits sum.splits option.splits prod.splits)
    qed
  qed
qed

lemma driver_loop_invariant:
  assumes "I (fst r)" and "\<And>m. m \<in> set (minutes ws) \<Longrightarrow> I (fst (newDriver m))"
  shows "I (fst (driver_loop newDriver r ws))"
  using assms
  by (induction newDriver r ws rule: driver_loop.induct) (auto simp: minutes_def split: list.splits wait_end.splits)

text \<open>So a start keeps whatever such steps keep, if it holds before each of its attempts.\<close>

lemma run_app_invariant:
  assumes run: "run_app ax args waits d = (d', r)" and sv: "suServices (axStartup ax) = disk_services ck i"
    and leaves: "outside_leaves_files (axStartup ax)" and "I d" and mins: "\<forall>m\<in>set (minutes waits). I m"
    and step: "\<And>d d'. I d \<Longrightarrow> keeps ck d d' \<Longrightarrow> I d'"
  shows "I d'"
proof -
  have start: "I (fst (StartPlugin su config waits d))" if su: "su = (axStartup ax)\<lparr>suGate := g\<rparr>" for su config g
  proof -
    have su': "suServices su = disk_services ck i" "outside_leaves_files su"
      using su sv leaves by (simp_all add: gate_irrelevant)
    have new: "I (fst (NewDriver su config m))" if "I m" for m
      using step [OF that NewDriver_keeps [OF prod.collapse [symmetric] su']] .
    obtain n0 e where p: "prepare_host su config d = (n0, e)" by force
    have "I n0" using step [OF \<open>I d\<close>] keeps_same prepare_host_leaves [OF su'(2) p] by blast
    then show ?thesis
      using driver_loop_invariant [of I "NewDriver su config n0" waits "NewDriver su config"] new mins p
      by (auto simp: StartPlugin_def split: option.splits)
  qed
  have "I (fst (plugin_action ((axStartup ax)\<lparr>suGate := g\<rparr>) fl clients waits d))" for g fl clients
    using start [OF refl] \<open>I d\<close> by (auto simp: plugin_action_def split: option.splits sum.splits)
  then have "I (fst (app_action ax st waits d))" for st
    using \<open>I d\<close> by (auto simp: app_action_def Let_def case_prod_unfold split: sum.splits)
  then have "I (fst (run_app ax args waits d))"
    using \<open>I d\<close> by (auto simp: run_app_def split: sum.splits prod.splits option.splits)
  with run show ?thesis by simp
qed

text \<open>A plugin that serves has a sound device state, a checkpoint and the common CDI file.\<close>

lemma serving_state:
  assumes "run_app ax args waits n = (d', AppRan (Serving dr))" and sv: "suServices (axStartup ax) = disk_services ck i"
    and leaves: "outside_leaves_files (axStartup ax)" and sane: "directories_sane (axStartup ax)"
  shows "state_ok (drState dr)" and "\<not> fresh d'"
    and "\<exists>common. disk_spec d' (claimSpecName cdiCommonDeviceName) = Some common \<and> commonName \<in> set (spec_ids common)"
proof -
  obtain su config m where run: "NewDriver su config m = (d', Inr dr)" and su: "\<exists>g. su = (axStartup ax)\<lparr>suGate := g\<rparr>"
    by (rule app_attempt [OF assms(1)])
  have su': "suServices su = disk_services ck i" "outside_leaves_files su" "directories_sane su"
    using su sv leaves sane by auto
  obtain hw labels n1 d1 where hw: "probeTPUHardware (suHost su m) RootDirectory = Inr hw"
    and st: "NewDeviceState (suServices su) (suUuid su) (suEnviron su) (suHost su n1) (suEnvOrder su) (suCacheErr su)
      (suManagerErr su) labels (hwDevDirectory hw) (drSharesPolicy dr) n1 = (d1, Inr (drState dr))"
    and d1: "ckFiles d' = ckFiles d1" "cdiFiles d' = cdiFiles d1"
    by (rule NewDriver_files [OF run su'(2)])
  note st' = st [unfolded su'(1)]
  obtain tm devs tm' where tm: "NewTPUManager (suEnviron su) labels (hwDevDirectory hw) = Inr tm"
    and e: "enumerateAllPossibleTpuDevices (suUuid su) (suEnviron su) (suHost su n1) tm = Inr (devs, tm')"
    and common: "disk_spec d1 (claimSpecName cdiCommonDeviceName) = Some (commonSpec (suEnviron su) (suEnvOrder su) (envs tm') (commonMounts tm'))"
    by (rule dsk.NewDeviceState_ok [OF st'])
  have "DevDirectory tm = hwDevDirectory hw" using NewTPUManager_Inr [OF tm] by simp
  then obtain files where "ReadDir (suHost su n1) (hwDevDirectory hw) = Some files"
    using e by (auto simp: enumerate_Inr_iff)
  moreover have "distinct (map Name files)" "length files < 2 ^ 63" using su'(3) calculation by (auto simp: directories_sane_def)
  moreover have "hwDevDirectory hw \<noteq> []"
    using hw by (auto simp: probeTPUHardware_def Let_def devDirectory_def devDirectoryVfio_def split: prod.splits if_splits)
  ultimately show "state_ok (drState dr)" by (rule NewDeviceState_state_ok [OF st' dsk.claim_services_axioms])
  have "\<not> fresh d1" using NewDeviceState_writes [OF st'] by simp
  then show "\<not> fresh d'" using d1(1) by (simp add: fresh_def)
  from common d1(2) show "\<exists>common. disk_spec d' (claimSpecName cdiCommonDeviceName) = Some common \<and> commonName \<in> set (spec_ids common)"
    by (simp add: disk_spec_def commonName_def spec_ids_common)
qed

text \<open>On a fresh node its ledger is empty.\<close>

lemma serving_ledger:
  assumes "run_app ax args waits n = (d', AppRan (Serving dr))" and "suServices (axStartup ax) = disk_services ck i"
    and "outside_leaves_files (axStartup ax)" and "directories_sane (axStartup ax)"
    and "fresh n" "\<forall>m\<in>set (minutes waits). fresh m"
  shows "disk_ledger ck d' = Some fmempty"
proof -
  let ?I = "\<lambda>d. fresh d \<or> disk_ledger ck d = Some fmempty"
  have step: "?I d2" if "?I d1" "keeps ck d1 d2" for d1 d2
  proof (cases "ckFiles d2 = ckFiles d1")
    case True
    with that(1) disk_ledger_cong [OF True, of ck] show ?thesis by (simp add: fresh_def)
  next
    case False
    with that(2) show ?thesis by (simp add: keeps_def)
  qed
  have "?I d'"
    by (rule run_app_invariant [OF assms(1-3), where I = ?I]) (use assms(5,6) step in blast)+
  with serving_state(2) [OF assms(1-4)] show ?thesis by blast
qed

text \<open>C6 (liveness). From the command line to the first pod: when the plugin serves on a node without a checkpoint,
  however long it waited for the TPU, a claim whose results are the chips of the node, each once, is
  prepared: it gets every chip exactly once, under CDI names that files in the CDI directory define.\<close>

theorem first_claim_of_a_fresh_node:
  assumes "run_app ax args waits n = (d', AppRan (Serving dr))" and "suServices (axStartup ax) = disk_services ck i"
    and "outside_leaves_files (axStartup ax)" and "directories_sane (axStartup ax)"
    and "fresh n" and "\<forall>m\<in>set (minutes waits). fresh m"
    and "uid_good (claimUID claim)" and "Allocation claim = Some rs" and "distinct (map resDevice (ownResults rs))"
    and "set (map resDevice (ownResults rs)) = chips (drState dr)"
  shows "\<exists>d'' devs. Prepare (disk_services ck no_faults) (drState dr) claim d' = (d'', Inr devs) \<and>
    distinct (map DeviceName devs) \<and> set (map DeviceName devs) = chips (drState dr) \<and>
    (\<forall>dev\<in>set devs. CDIDeviceIDs dev = Some [commonName,
        QualifiedName cdiVendor cdiClass (claimUID claim @ ''-'' @ DeviceName dev)] \<and>
      (\<forall>name\<in>set (elements (CDIDeviceIDs dev)). cdi_defines d'' name))"
proof -
  note ready = serving_state(1) [OF assms(1-4)] serving_ledger [OF assms(1-6)] serving_state(3) [OF assms(1-4)]
  have empty: "claims_normal fmempty" "ledger_ok (drState dr) fmempty" "claim_entry fmempty (claimUID claim) = None"
    by (simp_all add: claims_normal_def ledger_ok_def claim_entry_def)
  have "is_ok (snd (Prepare (disk_services ck no_faults) (drState dr) claim d'))"
    using Prepare_ok_iff [OF ready(1,2) empty assms(7)] assms(8-10) by blast
  then obtain d'' devs where run: "Prepare (disk_services ck no_faults) (drState dr) claim d' = (d'', Inr devs)"
    by (cases "Prepare (disk_services ck no_faults) (drState dr) claim d'") (auto simp: result_simps)
  have "node_ok ck (drState dr) d'" using ready(2) empty by (auto simp: node_ok_def)
  moreover have "uid_ok (claimUID claim)" using assms(7) by (simp add: uid_good_def)
  ultimately show ?thesis using ready(3) Prepare_grants [OF ready(1) _ _ _ _ run] run by blast
qed

definition whole_node_claim :: "DeviceState \<Rightarrow> ResourceClaim" where
  "whole_node_claim s = \<lparr>claimUID = ''c1'', claimName = ''claim'', Allocation = Some
     (map (\<lambda>k. \<lparr>Request = ''tpu'', Driver = DriverName, Pool = ''node-1'', resDevice = k\<rparr>) (sorted_list_of_set (chips s)))\<rparr>"

lemma whole_node_claim_ok:
  "uid_good (claimUID (whole_node_claim s))"
  "\<exists>rs. Allocation (whole_node_claim s) = Some rs \<and> distinct (map resDevice (ownResults rs)) \<and>
     set (map resDevice (ownResults rs)) = chips s"
proof -
  show "uid_good (claimUID (whole_node_claim s))" using example_uid(1) by (simp add: whole_node_claim_def example_claim_def)
  let ?rs = "map (\<lambda>k. \<lparr>Request = ''tpu'', Driver = DriverName, Pool = ''node-1'', resDevice = k\<rparr>) (sorted_list_of_set (chips s))"
  have "Allocation (whole_node_claim s) = Some ?rs" by (simp add: whole_node_claim_def)
  moreover have own: "map resDevice (ownResults ?rs) = sorted_list_of_set (chips s)"
    by (simp add: ownResults_def filter_map comp_def)
  have "distinct (map resDevice (ownResults ?rs))" "set (map resDevice (ownResults ?rs)) = chips s"
    by (simp_all only: own distinct_sorted_list_of_set) (simp add: chips_def)
  ultimately show "\<exists>rs. Allocation (whole_node_claim s) = Some rs \<and> distinct (map resDevice (ownResults rs)) \<and>
     set (map resDevice (ownResults rs)) = chips s" by blast
qed

lemma first_claim_of_a_fresh_node_witness:
  "\<exists>d' dr d'' devs. run_app example_ax (command_line example_settings) [] late_disk = (d', AppRan (Serving dr)) \<and>
     Prepare (disk_services example_ck no_faults) (drState dr) (whole_node_claim (drState dr)) d' = (d'', Inr devs) \<and>
     set (map DeviceName devs) = chips (drState dr)"
proof -
  obtain d' dr where run: "run_app example_ax (command_line example_settings) [] late_disk = (d', AppRan (Serving dr))"
    using example_serves by blast
  let ?claim = "whole_node_claim (drState dr)"
  have sv: "suServices (axStartup example_ax) = disk_services example_ck no_faults" by (simp add: example_on_def quiet_su_def)
  have leaves: "outside_leaves_files (axStartup example_ax)"
    by (simp add: example_on_def quiet_su_def outside_leaves_files_def leaves_files_def)
  have sane: "directories_sane (axStartup example_ax)"
    by (auto simp: example_on_def quiet_su_def directories_sane_def late_host_def no_tpu_host_def accel_host_def accel_files_def
        split: if_splits)
  have fr: "fresh late_disk" by (simp add: fresh_def late_disk_def empty_disk_def DriverPluginCheckpointFile_def)
  have mins: "\<forall>m\<in>set (minutes ([] :: disk wait_end list)). fresh m" by (simp add: minutes_def)
  obtain rs where "Allocation ?claim = Some rs" "distinct (map resDevice (ownResults rs))"
    "set (map resDevice (ownResults rs)) = chips (drState dr)" using whole_node_claim_ok(2) by blast
  from first_claim_of_a_fresh_node [OF run sv leaves sane fr mins whole_node_claim_ok(1) this] run show ?thesis by blast
qed

end
