(* ===== verification/Lives.thy ===== *)
theory Lives
  imports EndToEnd
begin

text \<open>
  The life of a node: the plugin is started again and again, each time as a new process with its
  own command line, environment and hardware; in between it serves batches of claims, its goroutines
  run, and a signal or a crash ends it. The checkpoint is what one process hands to the next:
  nothing is lost from it or found in it that the kubelet did not ask for, and a claim prepared in
  one life is answered with the same devices in every later one.
\<close>

section \<open>Events\<close>

text \<open>An event carries the claims it asks for or releases.\<close>

datatype life_event =
    Started
  | Prepared "string list"
  | Unprepared "string list"
  | Ran                  \<comment> \<open>a step of one of the goroutines\<close>
  | Elsewhere            \<comment> \<open>CDI files lost or written by others, logs written by containers\<close>
  | Ended
  | Killed

fun asked :: "life_event \<Rightarrow> string set" where
  "asked (Prepared us) = set us"
| "asked _ = {}"

fun released :: "life_event \<Rightarrow> string set" where
  "released (Unprepared us) = set us"
| "released _ = {}"

text \<open>
  The running plugin a driver becomes: the slice \<open>NewDriver\<close> published is out, the checker is at its
  \<open>select\<close>, and \<open>republishSlice\<close> listens.
\<close>

definition running :: "driver \<Rightarrow> Device list \<Rightarrow> plugin" where
  "running dr devs =
     \<lparr>plState = drState dr, plChecker = drChecker dr, plBroadcaster = drHealth dr, plSignal = False,
      plFull = (\<lambda>_. False), plMonitor = Ticking, plPublisher = Listening, plWatcher = (\<lambda>_. Absent),
      plReports = (\<lambda>_. []), plSlices = [devs]\<rparr>"

text \<open>
  The end of \<open>StartPlugin\<close>: on a signal its deferred function shuts the driver down and the plugin
  exits without an error; \<open>None\<close> while \<open>Shutdown\<close> blocks.
\<close>

definition on_signal :: "plugin \<Rightarrow> driver app_end option" where
  "on_signal p = map_option (\<lambda>_. AppRan (Exited None)) (Shutdown (Some p))"

text \<open>The process, when one serves, with the policy it publishes by; Go ranges over the devices in some order.\<close>

type_synonym process = "consumableSharesPolicy \<times> plugin"

type_synonym node = "disk \<times> process option"

definition becomes :: "driver app_end \<Rightarrow> process option \<Rightarrow> bool" where
  "becomes r proc \<longleftrightarrow> (case r of
      AppRan (Serving dr) \<Rightarrow> (\<exists>devs. slice_of (drSharesPolicy dr) (drState dr) devs \<and>
        proc = Some (drSharesPolicy dr, running dr devs))
    | _ \<Rightarrow> proc = None)"

text \<open>A process whose handler panics is gone.\<close>

definition alive :: "process \<Rightarrow> 'a result \<Rightarrow> process option" where
  "alive proc r = (if is_ok r then Some proc else None)"

text \<open>
  The outside of a process as this theory needs it: the claim services are those of the disk, with
  any faults, and the other calls leave the plugin's files alone.
\<close>

definition tidy :: "(json \<Rightarrow> 64 word) \<Rightarrow> (disk, 'f, 'c, 'l) app_outside \<Rightarrow> bool" where
  "tidy ck ax \<longleftrightarrow> (\<exists>i. suServices (axStartup ax) = disk_services ck i) \<and> outside_leaves_files (axStartup ax) \<and>
     directories_sane (axStartup ax)"

text \<open>
  A start may fail or wait at any point; whoever else acts on the node while it waits leaves the
  checkpoint directory alone. The kubelet's calls are serialized; a change of health in the middle of a
  batch would not be seen by it (\<open>claims_do_not_depend_on_health\<close>), so a batch is one event.
\<close>

inductive life :: "(json \<Rightarrow> 64 word) \<Rightarrow> (disk, 'f, 'c, 'l) app_outside set \<Rightarrow> life_event \<Rightarrow> node \<Rightarrow> node \<Rightarrow> bool"
  for ck :: "json \<Rightarrow> 64 word" and W :: "(disk, 'f, 'c, 'l) app_outside set" where
  start: "ax \<in> W \<Longrightarrow> \<forall>m\<in>set (minutes waits). ckFiles m = ckFiles d \<Longrightarrow> run_app ax args waits d = (d', r) \<Longrightarrow>
    becomes r proc \<Longrightarrow> life ck W Started (d, None) (d', proc)"
| prepare: "PrepareResourceClaims (disk_services ck i) (plState p) claims d = (d', r) \<Longrightarrow>
    life ck W (Prepared (map claimUID claims)) (d, Some (policy, p)) (d', alive (policy, p) r)"
| unprepare: "UnprepareResourceClaims (disk_services ck i) (plState p) refs d = (d', r) \<Longrightarrow>
    life ck W (Unprepared (map refUID refs)) (d, Some (policy, p)) (d', alive (policy, p) r)"
| run: "plugin_step policy p p' \<Longrightarrow> plMonitor p' \<noteq> Stopped \<Longrightarrow>
    life ck W Ran (d, Some (policy, p)) (d, Some (policy, p'))"
| elsewhere: "life ck W Elsewhere (d, proc) (d\<lparr>cdiFiles := files, dirEntries := entries\<rparr>, proc)"
| signal: "on_signal p = Some r \<Longrightarrow> life ck W Ended (d, Some (policy, p)) (d, None)"
| killed: "life ck W Killed (d, proc) (d, None)"

inductive_cases lifeE [consumes 1, case_names start prepare unprepare run elsewhere signal killed]: "life ck W e x y"

inductive lives :: "(json \<Rightarrow> 64 word) \<Rightarrow> (disk, 'f, 'c, 'l) app_outside set \<Rightarrow> life_event list \<Rightarrow> node \<Rightarrow> node \<Rightarrow> bool"
  for ck :: "json \<Rightarrow> 64 word" and W :: "(disk, 'f, 'c, 'l) app_outside set" where
  none: "lives ck W [] x x"
| more: "life ck W e x y \<Longrightarrow> lives ck W es y z \<Longrightarrow> lives ck W (e # es) x z"

section \<open>Ledgers over many lives\<close>

text \<open>A record made by some well-formed state: the hardware may have changed since.\<close>

definition granted :: "string \<Rightarrow> PreparedDevice list \<Rightarrow> bool" where
  "granted u ds \<longleftrightarrow> (\<exists>s. state_ok s \<and> record_ok s u ds)"

definition sound_ledger :: "PreparedClaims \<Rightarrow> bool" where
  "sound_ledger m \<longleftrightarrow> claims_normal m \<and> (\<forall>u e. fmlookup m u = Some e \<longrightarrow> (\<exists>ds. e = Some ds \<and> granted u ds))"

text \<open>Entries appear only where asked for and disappear only where released; none is replaced.\<close>

definition moves :: "string set \<Rightarrow> string set \<Rightarrow> PreparedClaims \<Rightarrow> PreparedClaims \<Rightarrow> bool" where
  "moves ask rel m m' \<longleftrightarrow> (\<forall>u. fmlookup m' u = fmlookup m u \<or> (u \<in> ask \<and> fmlookup m u = None) \<or>
     (u \<in> rel \<and> fmlookup m' u = None))"

lemma moves_refl [simp]: "moves ask rel m m"
  by (simp add: moves_def)

lemma moves_ask: "moves ask {} m m1 \<Longrightarrow> moves ask {} m1 m2 \<Longrightarrow> moves ask {} m m2"
  unfolding moves_def by (metis empty_iff)

lemma moves_rel: "moves {} rel m m1 \<Longrightarrow> moves {} rel m1 m2 \<Longrightarrow> moves {} rel m m2"
  unfolding moves_def by (metis empty_iff)

lemma sound_empty: "sound_ledger fmempty"
  by (simp add: sound_ledger_def)

lemma sound_entry: "sound_ledger m \<Longrightarrow> fmlookup m u = (case claim_entry m u of None \<Rightarrow> None | Some ds \<Rightarrow> Some (Some ds))"
  by (auto simp: sound_ledger_def claim_entry_def split: option.splits)

lemma sound_granted: "sound_ledger m \<Longrightarrow> claim_entry m u = Some ds \<Longrightarrow> granted u ds"
  by (auto simp: sound_ledger_def dest!: claim_entry_SomeD)

section \<open>The handlers\<close>

lemma Prepare_moves:
  assumes "state_ok s" and "disk_ledger ck d = Some m" and "sound_ledger m"
    and "Prepare (disk_services ck i) s claim d = (d', r)"
  obtains m' where "disk_ledger ck d' = Some m'" and "sound_ledger m'" and "moves {claimUID claim} {} m m'"
    and "\<And>e. r = Inl e \<Longrightarrow> \<not> is_panic e"
    and "\<And>devs. r = Inr devs \<Longrightarrow> \<exists>ds. claim_entry m' (claimUID claim) = Some ds \<and> devs = map pdDevice ds"
proof (cases r)
  case (Inl e)
  have "\<not> is_panic e"
    using dsk.Prepare_no_panic [OF assms(2) _ assms(4) [unfolded Inl]] assms(1) by (auto simp: state_ok_def)
  with that [of m] dsk.Prepare_error [OF assms(2) assms(4) [unfolded Inl]] assms(3) Inl show thesis by auto
next
  case (Inr devs)
  have norm: "claims_normal m" using assms(3) by (simp add: sound_ledger_def)
  obtain ds where ds: "devs = map pdDevice ds" "disk_ledger ck d' = Some (fmupd (claimUID claim) (Some ds) m)"
      "claims_normal (fmupd (claimUID claim) (Some ds) m)" "distinct (map (\<lambda>pd. DeviceName (pdDevice pd)) ds)"
    and how: "if claim_entry m (claimUID claim) = None then prepareDevices s claim = Inr (Some ds)
      else claim_entry m (claimUID claim) = Some ds"
    by (rule dsk.Prepare_outcome [OF assms(2) norm assms(4) [unfolded Inr]], rule that)
  have "granted (claimUID claim) ds"
    using how ds(4) prepared_record_ok [OF assms(1)] assms(1) sound_granted [OF assms(3)]
    by (auto simp: granted_def split: if_splits)
  with ds(3) assms(3) have "sound_ledger (fmupd (claimUID claim) (Some ds) m)" by (auto simp: sound_ledger_def)
  moreover have "moves {claimUID claim} {} m (fmupd (claimUID claim) (Some ds) m)"
    using how sound_entry [OF assms(3), of "claimUID claim"] by (auto simp: moves_def split: if_splits)
  ultimately show thesis using that [of "fmupd (claimUID claim) (Some ds) m"] ds Inr by simp
qed

lemma Unprepare_moves:
  assumes "disk_ledger ck d = Some m" and "sound_ledger m" and "Unprepare (disk_services ck i) s uid d = (d', r)"
  obtains m' where "disk_ledger ck d' = Some m'" and "sound_ledger m'" and "moves {} {uid} m m'"
    and "\<And>e. r = Some e \<Longrightarrow> \<not> is_panic e" and "r = None \<Longrightarrow> claim_entry m' uid = None"
proof (cases r)
  case (Some e)
  show thesis
    by (rule that [of m])
      (use dsk.Unprepare_error [OF assms(1) assms(3) [unfolded Some]] dsk.Unprepare_no_panic [OF assms(1) assms(3) [unfolded Some]]
        assms(2) Some in auto)
next
  case None
  show thesis
  proof (cases "claim_entry m uid = None")
    case True
    with dsk.Unprepare_unknown [OF assms(1) True, of i s] assms that [of m] None show thesis by simp
  next
    case False
    have norm: "claims_normal m" using assms(2) by (simp add: sound_ledger_def)
    show thesis
      by (rule that [of "fmdrop uid m"])
        (use dsk.Unprepare_outcome [OF assms(1) norm assms(3) [unfolded None] False] assms(2) None
          in \<open>auto simp: sound_ledger_def moves_def claim_entry_def\<close>)
  qed
qed

section \<open>Batches\<close>

text \<open>A batch keeps what each of its claims keeps, and does not panic if none of them does.\<close>

lemma for_claims_invariant:
  assumes step: "\<And>c acc n n' r. c \<in> set cs \<Longrightarrow> P acc n \<Longrightarrow> handle c n = (n', r) \<Longrightarrow> \<exists>x. r = Inr x \<and> P (fmupd (uid c) x acc) n'"
    and "P acc n" and "for_claims handle uid cs acc n = (n', r)"
  shows "\<exists>rs. r = Inr rs \<and> P rs n'"
  using assms
proof (induction cs arbitrary: acc n)
  case Nil
  then show ?case by (intro exI [of _ acc]) auto
next
  case (Cons c cs)
  obtain n1 r1 where h: "handle c n = (n1, r1)" by force
  from Cons.prems(1) [OF _ Cons.prems(2) h] obtain x where x: "r1 = Inr x" "P (fmupd (uid c) x acc) n1" by auto
  from x(1) h Cons.prems(3) have rest: "for_claims handle uid cs (fmupd (uid c) x acc) n1 = (n', r)" by simp
  show ?case by (rule Cons.IH [OF _ x(2) rest]) (use Cons.prems(1) in simp)
qed

text \<open>An entry stays through calls that release nothing.\<close>

lemma moves_mono: "moves ask rel m m' \<Longrightarrow> ask \<subseteq> ask' \<Longrightarrow> rel \<subseteq> rel' \<Longrightarrow> moves ask' rel' m m'"
  unfolding moves_def by blast

lemma moves_entry: "moves ask rel m m' \<Longrightarrow> u \<notin> rel \<Longrightarrow> claim_entry m u = Some ds \<Longrightarrow> claim_entry m' u = Some ds"
  using claim_entry_SomeD [of m u ds] unfolding moves_def by (auto simp: claim_entry_def dest!: spec [of _ u])

lemma Prepared_moves:
  assumes s: "state_ok s" and "disk_ledger ck d = Some m" and "sound_ledger m"
    and run: "PrepareResourceClaims (disk_services ck i) s claims d = (d', r)"
  obtains m' rs where "disk_ledger ck d' = Some m'" and "sound_ledger m'" and "moves (claimUID ` set claims) {} m m'"
    and "r = Inr rs"
    and "\<And>u devs. fmlookup rs u = Some \<lparr>prErr = None, prDevices = devs\<rparr> \<Longrightarrow>
      \<exists>ds. claim_entry m' u = Some ds \<and> devs = map pdDevice ds"
proof -
  let ?A = "claimUID ` set claims"
  let ?P = "\<lambda>acc d. \<exists>m1. disk_ledger ck d = Some m1 \<and> sound_ledger m1 \<and> moves ?A {} m m1 \<and>
    (\<forall>u devs. fmlookup acc u = Some \<lparr>prErr = None, prDevices = devs\<rparr> \<longrightarrow>
      (\<exists>ds. claim_entry m1 u = Some ds \<and> devs = map pdDevice ds))"
  have step: "\<exists>x. r = Inr x \<and> ?P (fmupd (claimUID c) x acc) d'"
    if c: "c \<in> set claims" and P: "?P acc d" and h: "nodePrepareResource (disk_services ck i) s c d = (d', r)" for c acc d d' r
  proof -
    from P obtain m1 where m1: "disk_ledger ck d = Some m1" "sound_ledger m1" "moves ?A {} m m1"
      and acc: "\<And>u devs. fmlookup acc u = Some \<lparr>prErr = None, prDevices = devs\<rparr> \<Longrightarrow>
        \<exists>ds. claim_entry m1 u = Some ds \<and> devs = map pdDevice ds" by blast
    obtain r0 where run: "Prepare (disk_services ck i) s c d = (d', r0)"
      using h by (auto simp: nodePrepareResource_def split: prod.splits sum.splits if_splits)
    obtain m2 where m2: "disk_ledger ck d' = Some m2" "sound_ledger m2" "moves {claimUID c} {} m1 m2"
      and err: "\<And>e. r0 = Inl e \<Longrightarrow> \<not> is_panic e"
      and ok: "\<And>devs. r0 = Inr devs \<Longrightarrow> \<exists>ds. claim_entry m2 (claimUID c) = Some ds \<and> devs = map pdDevice ds"
      by (rule Prepare_moves [OF s m1(1,2) run], rule that)
    have "moves ?A {} m m2" using moves_ask [OF m1(3)] moves_mono [OF m2(3), of ?A "{}"] c by blast
    moreover have "\<exists>ds. claim_entry m2 u = Some ds \<and> devs = map pdDevice ds"
      if "fmlookup acc u = Some \<lparr>prErr = None, prDevices = devs\<rparr>" for u devs
      using acc [OF that] moves_entry [OF m2(3)] by blast
    ultimately show ?thesis
      using h run m2(1,2) err ok by (cases r0) (auto simp: nodePrepareResource_def split: if_splits)
  qed
  have "?P fmempty d" using assms(2,3) by auto
  with step have "\<exists>rs. r = Inr rs \<and> ?P rs d'"
    by (rule for_claims_invariant [where P = ?P, OF _ _ run [unfolded PrepareResourceClaims_def]])
  then show thesis by (elim exE conjE) (rule that, blast+)
qed

lemma Unprepared_moves:
  assumes "disk_ledger ck d = Some m" and "sound_ledger m"
    and run: "UnprepareResourceClaims (disk_services ck i) s refs d = (d', r)"
  obtains m' rs where "disk_ledger ck d' = Some m'" and "sound_ledger m'" and "moves {} (refUID ` set refs) m m'"
    and "r = Inr rs"
proof -
  let ?P = "\<lambda>acc :: (string, go_error option) fmap. \<lambda>d. \<exists>m1. disk_ledger ck d = Some m1 \<and> sound_ledger m1 \<and>
    moves {} (refUID ` set refs) m m1"
  have step: "\<exists>x. r = Inr x \<and> ?P (fmupd (refUID c) x acc) d'"
    if c: "c \<in> set refs" and P: "?P acc d" and h: "nodeUnprepareResource (disk_services ck i) s c d = (d', r)" for c acc d d' r
  proof -
    from P obtain m1 where m1: "disk_ledger ck d = Some m1" "sound_ledger m1" "moves {} (refUID ` set refs) m m1" by blast
    obtain r0 where run: "Unprepare (disk_services ck i) s (refUID c) d = (d', r0)"
      using h by (auto simp: nodeUnprepareResource_def split: prod.splits option.splits if_splits)
    obtain m2 where m2: "disk_ledger ck d' = Some m2" "sound_ledger m2" "moves {} {refUID c} m1 m2"
      and err: "\<And>e. r0 = Some e \<Longrightarrow> \<not> is_panic e"
      by (rule Unprepare_moves [OF m1(1,2) run], rule that)
    have "moves {} (refUID ` set refs) m m2"
      using moves_rel [OF m1(3)] moves_mono [OF m2(3), of "{}" "refUID ` set refs"] c by blast
    then show ?thesis
      using h run m2(1,2) err by (cases r0) (auto simp: nodeUnprepareResource_def split: if_splits)
  qed
  have "?P fmempty d" using assms(1,2) by auto
  with step have "\<exists>rs. r = Inr rs \<and> ?P rs d'"
    by (rule for_claims_invariant [where P = ?P, OF _ _ run [unfolded UnprepareResourceClaims_def]])
  then show thesis by (elim exE conjE) (rule that)
qed

section \<open>Lives\<close>

text \<open>A fresh node holds no claim; then the checkpoint says which.\<close>

definition held :: "(json \<Rightarrow> 64 word) \<Rightarrow> disk \<Rightarrow> PreparedClaims option" where
  "held ck d = (if fresh d then Some fmempty else disk_ledger ck d)"

lemma held_readable: "disk_ledger ck d = Some m \<Longrightarrow> \<not> fresh d \<and> held ck d = Some m"
  by (cases "fmlookup (ckFiles d) DriverPluginCheckpointFile") (simp_all add: held_def fresh_def disk_ledger_def)

lemma held_cong: "ckFiles d = ckFiles d' \<Longrightarrow> held ck d = held ck d' \<and> fresh d = fresh d'"
  using disk_ledger_cong [of d d' ck] by (simp add: held_def fresh_def)

lemma held_keeps: "keeps ck d d' \<Longrightarrow> held ck d' = held ck d"
  using held_cong [of d' d ck] held_readable [of ck d' fmempty] by (auto simp: keeps_def held_def)

text \<open>What the goroutines of a process can have made of a well-formed state.\<close>

definition sound_process :: "consumableSharesPolicy \<Rightarrow> plugin \<Rightarrow> bool" where
  "sound_process policy p \<longleftrightarrow> plMonitor p \<noteq> Stopped \<and>
     (\<exists>s devDir gen name. state_ok s \<and> (plugin_step policy)\<^sup>*\<^sup>* (started s devDir gen name) p)"

lemma sound_process_state:
  assumes "sound_process policy p"
  shows "state_ok (plState p)"
proof -
  obtain s devDir gen name where s: "state_ok s" "(plugin_step policy)\<^sup>*\<^sup>* (started s devDir gen name) p"
    using assms by (auto simp: sound_process_def)
  have same: "same_devices s (plState p)" using run_invariants [OF s(2)] by blast
  then have "chips (plState p) = chips s" "dsTm (plState p) = dsTm s"
    by (simp_all add: chips_def same_devices_dom) (simp add: same_devices_def)
  with s(1) show ?thesis by (simp add: state_ok_def)
qed

lemma sound_process_run: "sound_process policy p \<Longrightarrow> plugin_step policy p p' \<Longrightarrow> plMonitor p' \<noteq> Stopped \<Longrightarrow> sound_process policy p'"
  unfolding sound_process_def by (meson rtranclp.rtrancl_into_rtrancl)

lemma running_sound:
  assumes s: "state_ok (drState dr)" and "slice_of (drSharesPolicy dr) (drState dr) devs"
    and "drChecker dr = NewTPUHealthChecker (dsAllocatable (drState dr)) devDir gen" and "drHealth dr = newHealthBroadcaster name"
  shows "sound_process (drSharesPolicy dr) (running dr devs)"
proof -
  let ?p0 = "started (drState dr) devDir gen name"
  obtain order where order: "map_order (dsAllocatable (drState dr)) order" "devs = gather_slice (drSharesPolicy dr) order (drState dr)"
    using assms(2) by (auto simp: slice_of_def)
  have "publisher_step (drSharesPolicy dr) ?p0 (?p0\<lparr>plPublisher := Publishing devs\<rparr>)"
    using publisher_step.gather [of ?p0 order "drSharesPolicy dr"] order by (simp add: started_def)
  moreover have "publisher_step (drSharesPolicy dr) (?p0\<lparr>plPublisher := Publishing devs\<rparr>) (running dr devs)"
    using publisher_step.publish [of "?p0\<lparr>plPublisher := Publishing devs\<rparr>" devs "drSharesPolicy dr"] assms(3,4)
    by (simp add: started_def running_def)
  ultimately have "(plugin_step (drSharesPolicy dr))\<^sup>*\<^sup>* ?p0 (running dr devs)"
    by (meson plugin_step.publisher rtranclp.rtrancl_into_rtrancl rtranclp.rtrancl_refl)
  with s show ?thesis unfolding sound_process_def by (auto simp: running_def)
qed

lemma settling_keeps_going:
  assumes "(settling_step policy)\<^sup>*\<^sup>* p p'" and "plMonitor p \<noteq> Stopped"
  shows "plMonitor p' \<noteq> Stopped"
  using assms
proof (induction rule: rtranclp_induct)
  case (step p1 p2)
  from step.hyps(2) step.IH [OF step.prems] show ?case
    by (induction rule: settling_step.induct)
      (auto elim!: monitor_stepE publisher_step.cases dest!: Stop_SomeD split: if_splits)
qed simp

text \<open>However its goroutines stand, a process that is left to them ends on a signal, without an error.\<close>

lemma ends_on_signal:
  assumes "sound_process policy p"
  shows "\<exists>p'. (settling_step policy)\<^sup>*\<^sup>* p p' \<and> on_signal p' = Some (AppRan (Exited None))"
proof -
  obtain p' where p': "(settling_step policy)\<^sup>*\<^sup>* p p'" "\<not> (\<exists>p''. settling_step policy p' p'')"
    using settling_terminates by blast
  have "plMonitor p' \<noteq> Stopped" using settling_keeps_going [OF p'(1)] assms by (simp add: sound_process_def)
  with settled [OF p'(2)] p'(1) show ?thesis by (auto simp: on_signal_def Stop_def)
qed

definition node_sound :: "(json \<Rightarrow> 64 word) \<Rightarrow> node \<Rightarrow> PreparedClaims \<Rightarrow> bool" where
  "node_sound ck x m \<longleftrightarrow> held ck (fst x) = Some m \<and> sound_ledger m \<and>
     (\<forall>policy p. snd x = Some (policy, p) \<longrightarrow> sound_process policy p \<and> \<not> fresh (fst x))"

lemma node_serving: "node_sound ck (d, Some (policy, p)) m \<Longrightarrow>
    sound_process policy p \<and> state_ok (plState p) \<and> disk_ledger ck d = Some m \<and> sound_ledger m"
  using sound_process_state by (auto simp: node_sound_def held_def split: if_splits)

lemma node_serves: "sound_process policy p \<Longrightarrow> disk_ledger ck d = Some m \<Longrightarrow> sound_ledger m \<Longrightarrow>
    node_sound ck (d, Some (policy, p)) m"
  using held_readable by (simp add: node_sound_def)

lemma node_fresh: "fresh d \<Longrightarrow> node_sound ck (d, None) fmempty"
  by (simp add: node_sound_def held_def sound_empty)

lemma node_start:
  assumes "tidy ck ax" and "\<forall>m\<in>set (minutes waits). ckFiles m = ckFiles d" and run: "run_app ax args waits d = (d', r)"
    and "becomes r proc" and "node_sound ck (d, None) m"
  shows "node_sound ck (d', proc) m"
proof -
  obtain i where sv: "suServices (axStartup ax) = disk_services ck i" and leaves: "outside_leaves_files (axStartup ax)"
    and sane: "directories_sane (axStartup ax)" using assms(1) by (auto simp: tidy_def)
  have "held ck m = held ck d" if "m \<in> set (minutes waits)" for m
    using that assms(2) held_cong [of m d ck] by blast
  then have "held ck d' = held ck d"
    by (intro run_app_invariant [OF run sv leaves, where I = "\<lambda>x. held ck x = held ck d"]) (auto simp: held_keeps)
  moreover have "sound_process policy p \<and> \<not> fresh d'" if proc: "proc = Some (policy, p)" for policy p
  proof -
    obtain dr devs where dr: "r = AppRan (Serving dr)" "slice_of (drSharesPolicy dr) (drState dr) devs"
      "policy = drSharesPolicy dr" "p = running dr devs"
      using proc assms(4) by (auto simp: becomes_def split: app_end.splits outcome.splits)
    note run' = run [unfolded dr(1)]
    obtain su config n where "NewDriver su config n = (d', Inr dr)" by (rule app_attempt [OF run'])
    then obtain devDir gen where "drChecker dr = NewTPUHealthChecker (dsAllocatable (drState dr)) devDir gen"
      "drHealth dr = newHealthBroadcaster (nodeName (flags config))" by (rule NewDriver_Inr)
    with running_sound [OF serving_state(1) [OF run' sv leaves sane] dr(2)] serving_state(2) [OF run' sv leaves sane] dr
    show ?thesis by blast
  qed
  ultimately show ?thesis using assms(5) by (simp add: node_sound_def)
qed

lemma life_sound:
  assumes W: "\<forall>ax\<in>W. tidy ck ax" and x: "node_sound ck x m" and step: "life ck W e x y"
  obtains m' where "node_sound ck y m'" and "moves (asked e) (released e) m m'"
  using step
proof (cases rule: lifeE)
  case (start ax waits d args d' r proc)
  have "node_sound ck (d', proc) m"
    by (rule node_start [OF _ start(5,6,7)]) (use W x start in auto)
  with start that [of m] show thesis by simp
next
  case (prepare i p claims d d' r policy)
  note n = node_serving [OF x [unfolded prepare]]
  obtain m' rs where "disk_ledger ck d' = Some m'" "sound_ledger m'" "moves (claimUID ` set claims) {} m m'" "r = Inr rs"
    by (rule Prepared_moves [OF _ _ _ prepare(4)]) (use n in auto)
  with prepare that [of m'] node_serves n show thesis by (simp add: alive_def)
next
  case (unprepare i p refs d d' r policy)
  note n = node_serving [OF x [unfolded unprepare]]
  obtain m' rs where "disk_ledger ck d' = Some m'" "sound_ledger m'" "moves {} (refUID ` set refs) m m'" "r = Inr rs"
    by (rule Unprepared_moves [OF _ _ unprepare(4)]) (use n in auto)
  with unprepare that [of m'] node_serves n show thesis by (simp add: alive_def)
next
  case (run policy p p' d)
  with x that [of m] sound_process_run [OF _ run(4,5)] show thesis by (simp add: node_sound_def)
next
  case (elsewhere d proc entries files)
  with x that [of m] held_cong [of "d\<lparr>cdiFiles := files, dirEntries := entries\<rparr>" d ck] show thesis
    by (simp add: node_sound_def)
next
  case (signal p r d policy)
  with x that [of m] show thesis by (simp add: node_sound_def)
next
  case (killed d proc)
  with x that [of m] show thesis by (simp add: node_sound_def)
qed

lemma lives_sound:
  assumes "lives ck W es x y" and W: "\<forall>ax\<in>W. tidy ck ax" and "node_sound ck x m"
  shows "\<exists>m'. node_sound ck y m' \<and> (\<forall>u. fmlookup m' u \<noteq> None \<longrightarrow> fmlookup m u \<noteq> None \<or> u \<in> \<Union> (asked ` set es)) \<and>
    (\<forall>u ds. claim_entry m u = Some ds \<longrightarrow> u \<notin> \<Union> (released ` set es) \<longrightarrow> claim_entry m' u = Some ds)"
  using assms(1,3)
proof (induction arbitrary: m rule: lives.induct)
  case (none x)
  then show ?case by blast
next
  case (more e x y es z)
  obtain m1 where m1: "node_sound ck y m1" "moves (asked e) (released e) m m1"
    by (rule life_sound [OF W more.prems more.hyps(1)])
  from more.IH [OF m1(1)] obtain m2 where m2: "node_sound ck z m2"
    "\<forall>u. fmlookup m2 u \<noteq> None \<longrightarrow> fmlookup m1 u \<noteq> None \<or> u \<in> \<Union> (asked ` set es)"
    "\<forall>u ds. claim_entry m1 u = Some ds \<longrightarrow> u \<notin> \<Union> (released ` set es) \<longrightarrow> claim_entry m2 u = Some ds" by blast
  have "fmlookup m u \<noteq> None \<or> u \<in> \<Union> (asked ` set (e # es))" if "fmlookup m2 u \<noteq> None" for u
  proof (cases "fmlookup m1 u = None")
    case True
    with m2(2) that show ?thesis by auto
  next
    case False
    with m1(2) show ?thesis unfolding moves_def by (metis UN_iff list.set_intros(1))
  qed
  moreover have "claim_entry m2 u = Some ds" if "claim_entry m u = Some ds" "u \<notin> \<Union> (released ` set (e # es))" for u ds
    using m2(3) moves_entry [OF m1(2) _ that(1)] that(2) by auto
  ultimately show ?case using m2(1) by blast
qed

section \<open>Properties\<close>

text \<open>C8 (invariant). Through any number of lives of the plugin on a fresh node, whatever hardware each finds, however
  each starts, is called, fails and ends: the checkpoint is never unreadable, every claim it
  records was asked for and holds each chip of some well-formed state once, no batch makes the
  serving process panic, and a signal can always end it without an error.\<close>

theorem every_life_keeps_the_ledger:
  assumes "\<forall>ax\<in>W. tidy ck ax" and "fresh d0" and "lives ck W es (d0, None) (d, proc)"
  shows "(fresh d \<or> disk_ledger ck d \<noteq> None) \<and>
    (\<forall>m u e. disk_ledger ck d = Some m \<longrightarrow> fmlookup m u = Some e \<longrightarrow>
       u \<in> \<Union> (asked ` set es) \<and> (\<exists>ds. e = Some ds \<and> granted u ds)) \<and>
    (\<forall>policy p. proc = Some (policy, p) \<longrightarrow>
       (\<forall>i claims. is_ok (snd (PrepareResourceClaims (disk_services ck i) (plState p) claims d))) \<and>
       (\<forall>i refs. is_ok (snd (UnprepareResourceClaims (disk_services ck i) (plState p) refs d))) \<and>
       (\<exists>p'. (settling_step policy)\<^sup>*\<^sup>* p p' \<and> on_signal p' = Some (AppRan (Exited None))))"
proof -
  obtain m where m: "node_sound ck (d, proc) m" "\<forall>u. fmlookup m u \<noteq> None \<longrightarrow> u \<in> \<Union> (asked ` set es)"
    using lives_sound [OF assms(3,1) node_fresh [OF assms(2)]] by auto
  have readable: "fresh d \<or> disk_ledger ck d = Some m" using m(1) by (auto simp: node_sound_def held_def split: if_splits)
  have entries: "u \<in> \<Union> (asked ` set es) \<and> (\<exists>ds. e = Some ds \<and> granted u ds)"
    if "disk_ledger ck d = Some m'" "fmlookup m' u = Some e" for m' u e
  proof -
    have "m' = m" using readable held_readable [OF that(1)] that(1) by simp
    with that m show ?thesis by (auto simp: node_sound_def sound_ledger_def)
  qed
  have calls: "is_ok (snd (PrepareResourceClaims (disk_services ck i) (plState p) claims d))"
    "is_ok (snd (UnprepareResourceClaims (disk_services ck i) (plState p) refs d))"
    "\<exists>p'. (settling_step policy)\<^sup>*\<^sup>* p p' \<and> on_signal p' = Some (AppRan (Exited None))"
    if "proc = Some (policy, p)" for policy p i claims refs
    using node_serving [OF m(1) [unfolded that]] Prepared_moves [OF _ _ _ prod.collapse [symmetric]]
      Unprepared_moves [OF _ _ prod.collapse [symmetric]] ends_on_signal by (metis result_simps sum.disc(2))+
  from readable entries calls show ?thesis by blast
qed


section \<open>Witnesses\<close>

text \<open>One host that always shows its chips; the plugin is started on the empty disk, prepares a claim for the whole
  node, is killed, the CDI directory is lost, and it is started again.\<close>

abbreviation steady :: "(disk, nat, unit, unit) app_outside" where
  "steady \<equiv> example_on (\<lambda>_. accel_host)"

lemma steady_tidy: "\<forall>ax\<in>{steady}. tidy example_ck ax"
  by (auto simp: tidy_def example_on_def quiet_su_def outside_leaves_files_def leaves_files_def directories_sane_def
      accel_host_def accel_files_def split: if_splits)

lemma steady_starts: "\<exists>d' policy p. life example_ck {steady} Started (d, None) (d', Some (policy, p))"
proof -
  obtain d' dr where run: "run_app steady (command_line example_settings) [] d = (d', AppRan (Serving dr))"
    using accel_serves [of "\<lambda>_. accel_host" d] by (auto simp: accel_host_def)
  have mins: "\<forall>m\<in>set (minutes []). ckFiles m = ckFiles d" by (simp add: minutes_def)
  obtain order where "map_order (dsAllocatable (drState dr)) order" using map_order_exists by blast
  then have "becomes (AppRan (Serving dr)) (Some (drSharesPolicy dr, running dr (gather_slice (drSharesPolicy dr) order (drState dr))))"
    by (auto simp: becomes_def slice_of_def)
  from life.start [OF _ mins run this] show ?thesis by blast
qed

lemma empty_fresh: "fresh empty_disk"
  by (simp add: fresh_def empty_disk_def)

lemma every_life_keeps_the_ledger_witness:
  "\<exists>d policy p p'. lives example_ck {steady} [Started, Killed, Started] (empty_disk, None) (d, Some (policy, p)) \<and>
     is_ok (snd (PrepareResourceClaims (disk_services example_ck no_faults) (plState p) [example_claim, example_claim] d)) \<and>
     (settling_step policy)\<^sup>*\<^sup>* p p' \<and> on_signal p' = Some (AppRan (Exited None))"
proof -
  obtain d1 pol1 p1 d2 pol2 p2 where a: "life example_ck {steady} Started (empty_disk, None) (d1, Some (pol1, p1))"
    and b: "life example_ck {steady} Started (d1, None) (d2, Some (pol2, p2))" using steady_starts by metis
  note run = lives.more [OF a lives.more [OF life.killed lives.more [OF b lives.none]]]
  from every_life_keeps_the_ledger [OF steady_tidy empty_fresh run] run show ?thesis by blast
qed


end
