(* ===== verification/Spec2Isabelle.thy ===== *)
theory Spec2Isabelle
  imports Lives
begin

text \<open>
  A verification library for \<open>tpu-dra-kubeletplugin\<close>, the kubelet plugin that hands the TPU chips of
  a node to pods through Kubernetes' Dynamic Resource Allocation. The sources are the Go files
  of \<open>src/cmd/tpu-dra-kubeletplugin\<close> and \<open>src/pkg\<close>; the theories follow them file by file.

  \<^bold>\<open>The program.\<close> The process reads its flags from the command line and the environment (main.go,
  pkg/flags), one of which sets feature gates (pkg/featuregates). On start (main.go, driver.go) the
  plugin looks for TPU chips on the host
  (hardware.go), finds out what they are from four sources of labels (util.go), decides whether
  claims may share them (consumable_shares.go), enumerates them (manager.go), writes a common
  CDI specification with the environment of the slice (cdi.go, util.go) and creates a
  checkpoint if there is none (checkpoint.go, state.go). It then serves three parties. The
  kubelet has claims prepared and unprepared: each holds all chips of the node, is recorded in the
  checkpoint and has a CDI file of its own. A goroutine looks at the device files every ten seconds
  (health_check.go) and changes the health in the device state; another publishes the healthy
  chips after each change (driver.go); one per subscription reports healths to the kubelet
  (device_health_status.go).

  \<^bold>\<open>Theories, in the order they build on each other.\<close>

  \<^item> \<open>Prelude\<close>: Go's errors (\<open>Errorf\<close>, wrapping by \<open>%w\<close> and \<open>%v\<close>, \<open>errors.Is\<close>, panics), results as
    sums, \<open>map[string]string\<close>.
  \<^item> \<open>GoStrings\<close>, \<open>GoNumbers\<close>, \<open>GoRegexp\<close>, \<open>GoRunes\<close>, \<open>HostFS\<close>: what the source uses of the Go library.
    \<open>Atoi\<close> and 64-bit arithmetic are on \<open>64 word\<close>, regular expressions on a matcher proved
    against the language of the expression, paths are cleaned and joined as \<open>filepath\<close> does.
  \<^item> \<open>Topology\<close>, \<open>Generations\<close>, \<open>Envs\<close>: the arithmetic of slice topologies, the accelerator names and
    the container environment (\<open>InitEnvs\<close>).
  \<^item> \<open>Hardware\<close>, \<open>Labels\<close>, \<open>Shares\<close>: the probe of the host, the label sources in their order, the
    sharing policy and the published capacity.
  \<^item> \<open>Manager\<close>: the TPU manager, the enumeration of the devices, their UUIDs and the nodes a
    container gets.
  \<^item> \<open>ClaimData\<close>, \<open>Cdi\<close>, \<open>Json\<close>, \<open>Checkpointing\<close>: the records of a prepared claim, CDI names and
    specifications, encoding and decoding of the checkpoint, its checksum.
  \<^item> \<open>DeviceState\<close>: \<open>NewDeviceState\<close>, \<open>Prepare\<close>, \<open>Unprepare\<close> and \<open>UpdateHealth\<close> of state.go, each one
    step since the state's mutex is held, over a record of outside operations.
  \<^item> \<open>Services\<close>: the interfaces the device state relies on, as locales (\<open>checkpoint_store\<close>, \<open>spec_files\<close>,
    \<open>log_dirs\<close>, \<open>claim_services\<close>, \<open>reliable_services\<close>), and the handlers' contracts proved from their laws.
  \<^item> \<open>Disk\<close>: a node's files, with the checkpoint manager and the CDI cache as the vendored
    libraries implement them and faults that may depend on the call and the files; it interprets
    the interfaces.
  \<^item> \<open>Node\<close>, \<open>ClaimLife\<close>, \<open>NodeRuns\<close>: a node as its disk and the device state that serves, with labelled
    steps: calls with their answers, restarts that serve on with the state they made, writes of
    others. The invariant of the claim ledger under any faults and restarts, its refinement of the
    abstract ledger (\<open>ledger_run\<close>, a function of the events alone), and the properties of the handlers.
  \<^item> \<open>Driver\<close>: the batch handlers of driver.go. Their loop is verified for any handler that keeps
    to its own claim (locales \<open>claim_handler\<close>, \<open>pure_claim_handler\<close>), interpreted on
    \<open>nodePrepareResource\<close> and \<open>nodeUnprepareResource\<close>.
  \<^item> \<open>Health\<close>, \<open>HealthRuns\<close>, \<open>HealthLife\<close>: the checker, the broadcaster, reports and slices as functions;
    the goroutines as interleaved step relations; invariants of all their runs.
  \<^item> \<open>Startup\<close>, \<open>StartupLife\<close>: network settings, \<open>NewDriver\<close>, \<open>StartPlugin\<close> with its wait for a TPU.
  \<^item> \<open>FeatureGates\<close>: pkg/featuregates with the vendored versioned registry it fills, and what values of
    the \<open>--feature-gates\<close> flag do to it.
  \<^item> \<open>App\<close>, \<open>AppLife\<close>: the table of flags of \<open>newApp\<close> and pkg/flags, their resolution as urfave/cli and
    Go's \<open>flag\<close> package do it, the checks before the action, the clients, \<open>main\<close>.
  \<^item> \<open>EndToEnd\<close>: the components put together, from the command line to the first claim,
    and what a start, served or failed, does to the checkpoint.
  \<^item> \<open>Lives\<close>: the node over many processes (the step relation \<open>life\<close>): starts with any command line,
    environment and hardware, batches of claims, steps of the goroutines, signals, crashes, lost CDI files.

  \<^bold>\<open>What is shown.\<close> A prepared claim holds every chip exactly once, under CDI names that files in
  the CDI directory define. Through faults, restarts with other hardware and the loss of the CDI
  directory the ledger holds each claim with the devices it was first answered until its \<open>Unprepare\<close>
  succeeds; each record holds every chip of the state that granted it. Without faults the files are exactly
  those the ledger calls for. The logs claims share go when the last claim does, as far as
  \<open>os.ReadDir\<close>, whose error is dropped, could list them. A batch answers every claim and touches no
  other, in any order. The checkpoint survives its encoding, and a tampered one is rejected up to
  collisions of the checksum. Health never changes what the claim handlers do; every change
  of health is published and reported, and the goroutines settle after finitely many steps, ready to be
  shut down. The plugin waits for a TPU and for nothing else. Each of its flags and its
  client's is what the command line gives, else the variable, else the default; chips are shared only with the gate and the flag
  set; a plugin that serves on a fresh node prepares a claim for all of its chips. Over any number of
  lives of the plugin the checkpoint stays readable, records only what was asked for, and a claim prepared in
  one life is answered with the same devices in every later one; no batch panics, and a signal
  ends the process without an error. Labels, topology, environment,
  sharing policy and enumeration do what the tables and comments of the source say; the shares of the
  published capacity are counted as the API documents them (\<open>co_allocatable\<close>), with a default of one share,
  and its range keeps the API's rules for every number of shares but one.

  \<^bold>\<open>Recursion and bounds.\<close> All definitions terminate and none uses fuel. The polling of the metadata
  server is a recursion over the attempts until its time limit, \<open>StartPlugin\<close> one over the ends of
  its waits (a node that never gets a TPU is a list as long as one likes); the loops over
  claims, devices, settings and directory entries are structural. Goroutines run for ever, so
  they are step relations, with a measure (\<open>work\<close>) for the steps between two ticks.

  \<^bold>\<open>Parameters.\<close> What is not source code of the driver enters as an argument: the host's file
  system and environment, the metadata server and the API server, the UUID library (\<open>uuid_of_seed\<close>), the
  checksum (\<open>ck\<close>, any function on JSON trees), the order in which Go ranges over a map, the clock,
  \<open>os.Stat\<close>, client-go, the logging configuration with its flags, the parsing of the two numeric
  client flags, and the calls into the kubelet plugin library. \<open>fs\<close> stays the same during one
  attempt to start. Of the vendored code the checkpoint manager, the CDI cache, the feature gate
  and the flag handling are translated as far as the driver reaches them.

  \<^bold>\<open>Not modelled.\<close> The JSON text of the checkpoint (its tree is), log output and help texts, locks
  and atomics of the feature gate registry (it is set before the goroutines start). \<open>HandleError\<close>
  only calls a library. The devices stored in the TPU manager are never read after the start and are
  kept as they were enumerated. A failed publication is recorded like any other: the slices of a run are those
  handed to \<open>PublishResources\<close>, whose controller retries. The publisher's \<open>ctx.Done\<close> is not a step, since
  its context is cancelled only after \<open>Shutdown\<close>, when the process ends. Null elements of slices the API server sends do not occur. Go's
  \<open>flag\<close> package panics when two flags have one name; no two of this application do.
\<close>

end
